(* ===== verification/Base.thy ===== *)
theory Base
  imports Main "HOL-Library.AList"
begin

text \<open>
  The vocabulary every component shares.

  \<^item> Rust \<open>str\<close> and \<open>String\<close> are \<open>string\<close>, read as the UTF-8 bytes of the text:
    \<open>length\<close> is Rust's \<open>len()\<close>, and slicing at a byte index is meaningful.
  \<^item> A \<open>Uuid\<close> is an opaque identifier that the code compares and stores (\<open>uuid = nat\<close>).
    Where the code prints one, the printer is a parameter.
  \<^item> A \<open>DateTime<Utc>\<close> is a number of microseconds (\<open>time = int\<close>).
    \<open>NOW()\<close> and \<open>Utc::now()\<close> are arguments of the operations that read the clock.
  \<^item> \<open>Result<T, E>\<close> is the sum \<open>E + T\<close>: \<open>Inl\<close> is the error.
    An operation that writes to a store returns the pair of its result and the new store,
    and the store is returned on the error paths too, since the code runs without an
    enclosing transaction.
  \<^item> A database table is the list of its rows; \<open>update_where\<close>, \<open>find\<close> and \<open>filter\<close>
    are the SQL statements.
\<close>

section \<open>Names shared by the components\<close>

type_synonym uuid = nat
type_synonym time = int

named_theorems table_simps
named_theorems trim_simps

section \<open>The common error values (error/common)\<close>

datatype id_text = IdStr string | IdUuid uuid

datatype input_error = InputError (input_field: string) (input_reason: string)
datatype not_found_error = NotFoundError (nf_entity: string) (nf_id: id_text)
datatype conflict_error = ConflictError (cf_entity: string) (cf_id: id_text)

datatype database_error = RowNotFound | UniqueViolation | OtherDbError

definition is_unique_violation :: "database_error \<Rightarrow> bool" where
  "is_unique_violation e \<longleftrightarrow> e = UniqueViolation"

text \<open>\<open>Option::or_not_found\<close> and \<open>Result<_, DatabaseError>::or_not_found\<close>.\<close>

fun opt_or_not_found :: "'a option \<Rightarrow> string \<Rightarrow> id_text \<Rightarrow> not_found_error + 'a" where
  "opt_or_not_found (Some v) entity i = Inr v"
| "opt_or_not_found None entity i = Inl (NotFoundError entity i)"

fun res_or_not_found ::
  "(not_found_error \<Rightarrow> 'e) \<Rightarrow> (database_error \<Rightarrow> 'e) \<Rightarrow> database_error + 'a \<Rightarrow> string \<Rightarrow> id_text \<Rightarrow> 'e + 'a"
where
  "res_or_not_found nf db (Inr v) entity i = Inr v"
| "res_or_not_found nf db (Inl RowNotFound) entity i = Inl (nf (NotFoundError entity i))"
| "res_or_not_found nf db (Inl e) entity i = Inl (db e)"

text \<open>
  The \<open>?\<close> operator: \<open>and_then\<close> for a result, \<open>then_do\<close> for a result beside the store that the
  operation left, and \<open>map_err\<close> for the conversion of the error on the way.
\<close>

definition and_then :: "'e + 'a \<Rightarrow> ('a \<Rightarrow> 'e + 'b) \<Rightarrow> 'e + 'b" where
  "and_then x f = (case x of Inl e \<Rightarrow> Inl e | Inr v \<Rightarrow> f v)"

definition then_do :: "('e + 'a) \<times> 's \<Rightarrow> ('a \<Rightarrow> 's \<Rightarrow> ('e + 'b) \<times> 's) \<Rightarrow> ('e + 'b) \<times> 's" where
  "then_do x f = (case x of (Inl e, s) \<Rightarrow> (Inl e, s) | (Inr v, s) \<Rightarrow> f v s)"

definition map_err :: "('e \<Rightarrow> 'e2) \<Rightarrow> 'e + 'a \<Rightarrow> 'e2 + 'a" where
  "map_err f x = (case x of Inl e \<Rightarrow> Inl (f e) | Inr v \<Rightarrow> Inr v)"

lemma and_then_simps [simp]: "and_then (Inl e) f = Inl e" "and_then (Inr v) f = f v"
  by (simp_all add: and_then_def)

lemma then_do_simps [simp]: "then_do (Inl e, s) f = (Inl e, s)" "then_do (Inr v, s) f = f v s"
  by (simp_all add: then_do_def)

lemma map_err_simps [simp]: "map_err f (Inl e) = Inl (f e)" "map_err f (Inr v) = Inr v"
  by (simp_all add: map_err_def)

lemma and_then_Inr [simp]: "and_then x f = Inr y \<longleftrightarrow> (\<exists>v. x = Inr v \<and> f v = Inr y)"
  by (cases x) simp_all

lemma map_err_Inr [simp]: "map_err f x = Inr v \<longleftrightarrow> x = Inr v"
  by (cases x) simp_all

lemma then_do_Inr: "then_do x f = (Inr y, s') \<longleftrightarrow> (\<exists>v s. x = (Inr v, s) \<and> f v s = (Inr y, s'))"
  by (cases x; cases "fst x") auto

text \<open>What every step keeps, the chain of steps keeps.\<close>

lemma then_do_inv: "P (snd x) \<Longrightarrow> (\<And>v s. P s \<Longrightarrow> P (snd (f v s))) \<Longrightarrow> P (snd (then_do x f))"
  by (cases x; cases "fst x") auto

text \<open>The rule for a chain whose steps establish what the next ones need.\<close>

lemma then_do_post:
  assumes "\<And>e s. x = (Inl e, s) \<Longrightarrow> P s" and "\<And>v s. x = (Inr v, s) \<Longrightarrow> P (snd (f v s))"
  shows "P (snd (then_do x f))"
  using assms by (cases x; cases "fst x") auto

lemma then_do_cases:
  assumes "then_do x f = (res, s')"
  obtains (stopped) e where "x = (Inl e, s')" "res = Inl e"
    | (went_on) v s where "x = (Inr v, s)" "f v s = (res, s')"
  using assms by (cases x; cases "fst x") auto

lemma opt_or_not_found_Inr [simp]: "opt_or_not_found x entity i = Inr v \<longleftrightarrow> x = Some v"
  by (cases x) simp_all

section \<open>Tables\<close>

definition update_where :: "('r \<Rightarrow> bool) \<Rightarrow> ('r \<Rightarrow> 'r) \<Rightarrow> 'r list \<Rightarrow> 'r list" where
  "update_where p f rows = map (\<lambda>r. if p r then f r else r) rows"

lemma update_where_Nil [simp]: "update_where p f [] = []"
  by (simp add: update_where_def)

lemma update_where_Cons [simp]:
  "update_where p f (r # rs) = (if p r then f r else r) # update_where p f rs"
  by (simp add: update_where_def)

lemma update_where_append [simp]:
  "update_where p f (rs @ rs') = update_where p f rs @ update_where p f rs'"
  by (simp add: update_where_def)

lemma length_update_where [simp]: "length (update_where p f rows) = length rows"
  by (simp add: update_where_def)

lemma set_update_where:
  "set (update_where p f rows) = (\<lambda>r. if p r then f r else r) ` set rows"
  by (simp add: update_where_def)

lemma ball_update_where [table_simps]:
  "(\<forall>r \<in> set (update_where p f rows). Q r) \<longleftrightarrow> (\<forall>r \<in> set rows. Q (if p r then f r else r))"
  by (induction rows) auto

lemma list_ex_update_where [table_simps]:
  "list_ex Q (update_where p f rows) \<longleftrightarrow> list_ex (\<lambda>r. Q (if p r then f r else r)) rows"
  by (induction rows) auto

lemma update_where_id: "(\<And>r. r \<in> set rows \<Longrightarrow> \<not> p r) \<Longrightarrow> update_where p f rows = rows"
  by (induction rows) auto

lemma map_key_update_where [table_simps]:
  "(\<And>r. k (f r) = k r) \<Longrightarrow> map k (update_where p f rows) = map k rows"
  by (induction rows) auto

lemma keys_update_where [table_simps]:
  "(\<And>r. k (f r) = k r) \<Longrightarrow> k ` set (update_where p f rows) = k ` set rows"
  by (metis list.set_map map_key_update_where)

lemma filter_update_where:
  "(\<And>r. q (f r) = q r) \<Longrightarrow> filter q (update_where p f rows) = update_where p f (filter q rows)"
  by (induction rows) auto

lemma update_where_twice:
  assumes "\<And>x. p (f x) = p x" "\<And>x. q (f x) = q x" "\<And>x. f (f x) = f x"
  shows "update_where p f (update_where q f xs) = update_where (\<lambda>x. q x \<or> p x) f xs"
  using assms by (induction xs) auto

lemma update_where_cong:
  "(\<And>x. x \<in> set xs \<Longrightarrow> p x = q x) \<Longrightarrow> update_where p f xs = update_where q f xs"
  by (induction xs) auto

lemma find_update_where_other:
  "(\<And>r. p r \<Longrightarrow> q (f r) = q r) \<Longrightarrow> (\<And>r. q r \<Longrightarrow> \<not> p r) \<Longrightarrow>
   find q (update_where p f rows) = find q rows"
  by (induction rows) auto

lemma find_update_where_same:
  "(\<And>r. q (f r) = q r) \<Longrightarrow>
   find q (update_where p f rows) = map_option (\<lambda>r. if p r then f r else r) (find q rows)"
  by (induction rows) auto

lemma find_SomeD: "find p xs = Some x \<Longrightarrow> x \<in> set xs \<and> p x"
  by (induction xs) (auto split: if_splits)

lemma find_key_unique:
  "distinct (map k rows) \<Longrightarrow> r \<in> set rows \<Longrightarrow> find (\<lambda>x. k x = k r) rows = Some r"
  by (induction rows) (auto simp: image_iff)

lemma find_key_iff:
  "distinct (map k rows) \<Longrightarrow> find (\<lambda>x. k x = i) rows = Some r \<longleftrightarrow> r \<in> set rows \<and> k r = i"
  by (auto dest: find_SomeD find_key_unique)

lemma list_all2_members:
  assumes "list_all2 P xs ys"
  shows "x \<in> set xs \<Longrightarrow> \<exists>y \<in> set ys. P x y" and "y \<in> set ys \<Longrightarrow> \<exists>x \<in> set xs. P x y"
  using assms by (induction rule: list_all2_induct) auto

lemma find_unique_iff:
  assumes "\<And>x y. x \<in> set xs \<Longrightarrow> y \<in> set xs \<Longrightarrow> P x \<Longrightarrow> P y \<Longrightarrow> x = y"
  shows "find P xs = Some m \<longleftrightarrow> m \<in> set xs \<and> P m"
  using assms
proof (induction xs)
  case (Cons x xs)
  from Cons.prems [of x m] Cons show ?case by auto
qed simp

lemma find_append: "find p (xs @ ys) = (case find p xs of None \<Rightarrow> find p ys | Some x \<Rightarrow> Some x)"
  by (induction xs) auto

text \<open>Updating the row that a key identifies, and the row that a unique condition finds.\<close>

lemma find_cong_set: "(\<And>x. x \<in> set xs \<Longrightarrow> P x = Q x) \<Longrightarrow> find P xs = find Q xs"
  by (induction xs) auto

lemma key_inj: "distinct (map k xs) \<Longrightarrow> x \<in> set xs \<Longrightarrow> y \<in> set xs \<Longrightarrow> k x = k y \<Longrightarrow> x = y"
  by (metis distinct_map inj_onD)

lemma update_at_key_set:
  assumes "distinct (map k xs)" "c \<in> set xs"
  shows "x \<in> set (update_where (\<lambda>x. k x = k c) f xs) \<longleftrightarrow> x = f c \<or> (x \<in> set xs \<and> x \<noteq> c)"
proof -
  have "\<And>y. y \<in> set xs \<Longrightarrow> k y = k c \<longleftrightarrow> y = c"
    using key_inj [OF assms(1)] assms(2) by blast
  then show ?thesis using assms(2) unfolding set_update_where image_iff by metis
qed

lemma find_update_at:
  assumes "distinct (map k xs)" "c \<in> set xs" "P c"
    and u: "\<And>x y. x \<in> set xs \<Longrightarrow> y \<in> set xs \<Longrightarrow> P x \<Longrightarrow> P y \<Longrightarrow> x = y"
  shows "find P (update_where (\<lambda>x. k x = k c) f xs) = (if P (f c) then Some (f c) else None)"
proof -
  note m = update_at_key_set [OF assms(1,2), where f = f]
  have only: "x = f c" if "x \<in> set (update_where (\<lambda>x. k x = k c) f xs)" "P x" for x
    using that(1) u [OF _ assms(2) that(2) assms(3)] unfolding m by blast
  show ?thesis
  proof (cases "P (f c)")
    case True
    have "find P (update_where (\<lambda>x. k x = k c) f xs) = Some (f c)"
      by (subst find_unique_iff) (use only True m in blast)+
    with True show ?thesis by simp
  next
    case False
    have "find P (update_where (\<lambda>x. k x = k c) f xs) = None"
      unfolding find_None_iff using only False by blast
    with False show ?thesis by simp
  qed
qed

lemma find_update_at_other:
  assumes "distinct (map k xs)" "c \<in> set xs" "\<not> P c" "\<not> P (f c)"
  shows "find P (update_where (\<lambda>x. k x = k c) f xs) = find P xs"
proof -
  have *: "\<And>x. x \<in> set xs \<Longrightarrow> k x = k c \<Longrightarrow> x = c"
    using key_inj [OF assms(1)] assms(2) by blast
  show ?thesis
    using * assms(3,4)
  proof (induction xs)
    case (Cons x xs)
    from Cons.prems(1) have "k x = k c \<Longrightarrow> x = c" by simp
    moreover have "find P (update_where (\<lambda>x. k x = k c) f xs) = find P xs"
      by (rule Cons.IH) (use Cons.prems in auto)
    ultimately show ?case using Cons.prems(2,3) by (cases "k x = k c") simp_all
  qed simp
qed

section \<open>Text\<close>

text \<open>\<open>[T]::join\<close> of the standard library.\<close>

fun join_str :: "string \<Rightarrow> string list \<Rightarrow> string" where
  "join_str sep [] = []"
| "join_str sep [x] = x"
| "join_str sep (x # y # xs) = x @ sep @ join_str sep (y # xs)"

text \<open>
  \<open>str::trim\<close> strips the characters of Unicode's \<open>White_Space\<close> property from both ends:
  the list holds their UTF-8 encodings.
\<close>

definition white_space :: "string list" where
  "white_space =
     [[CHR 0x09], [CHR 0x0A], [CHR 0x0B], [CHR 0x0C], [CHR 0x0D], [CHR 0x20],
      [CHR 0xC2, CHR 0x85], [CHR 0xC2, CHR 0xA0], [CHR 0xE1, CHR 0x9A, CHR 0x80],
      [CHR 0xE2, CHR 0x80, CHR 0x80], [CHR 0xE2, CHR 0x80, CHR 0x81], [CHR 0xE2, CHR 0x80, CHR 0x82],
      [CHR 0xE2, CHR 0x80, CHR 0x83], [CHR 0xE2, CHR 0x80, CHR 0x84], [CHR 0xE2, CHR 0x80, CHR 0x85],
      [CHR 0xE2, CHR 0x80, CHR 0x86], [CHR 0xE2, CHR 0x80, CHR 0x87], [CHR 0xE2, CHR 0x80, CHR 0x88],
      [CHR 0xE2, CHR 0x80, CHR 0x89], [CHR 0xE2, CHR 0x80, CHR 0x8A], [CHR 0xE2, CHR 0x80, CHR 0xA8],
      [CHR 0xE2, CHR 0x80, CHR 0xA9], [CHR 0xE2, CHR 0x80, CHR 0xAF], [CHR 0xE2, CHR 0x81, CHR 0x9F],
      [CHR 0xE3, CHR 0x80, CHR 0x80]]"

fun strip_one :: "string list \<Rightarrow> string \<Rightarrow> string option" where
  "strip_one [] s = None"
| "strip_one (w # ws) s =
     (if w \<noteq> [] \<and> take (length w) s = w then Some (drop (length w) s) else strip_one ws s)"

lemma strip_one_shorter: "strip_one ws s = Some s' \<Longrightarrow> length s' < length s"
proof (induction ws)
  case (Cons w ws)
  show ?case
  proof (cases "w \<noteq> [] \<and> take (length w) s = w")
    case True
    then have "length w \<le> length s" by (metis length_take min.cobounded1 min_def)
    with True Cons.prems show ?thesis by (cases w) auto
  next
    case False
    with Cons show ?thesis by (auto split: if_splits)
  qed
qed simp

function strip_all :: "string list \<Rightarrow> string \<Rightarrow> string" where
  "strip_all ws s = (case strip_one ws s of None \<Rightarrow> s | Some s' \<Rightarrow> strip_all ws s')"
  by pat_completeness auto
termination
  by (relation "measure (\<lambda>(ws, s). length s)") (auto dest: strip_one_shorter)

declare strip_all.simps [simp del]

definition trim :: "string \<Rightarrow> string" where
  "trim s = rev (strip_all (map rev white_space) (rev (strip_all white_space s)))"

section \<open>Decimal printing of integers\<close>

definition show_digit :: "nat \<Rightarrow> char" where
  "show_digit d = char_of (48 + d)"

fun show_nat :: "nat \<Rightarrow> string" where
  "show_nat n = (if n < 10 then [show_digit n] else show_nat (n div 10) @ [show_digit (n mod 10)])"

declare show_nat.simps [simp del]

definition show_int :: "int \<Rightarrow> string" where
  "show_int i = (if i < 0 then CHR ''-'' # show_nat (nat (- i)) else show_nat (nat i))"

definition digit_val :: "char \<Rightarrow> nat" where
  "digit_val c = of_char c - 48"

definition is_digit :: "char \<Rightarrow> bool" where
  "is_digit c \<longleftrightarrow> 48 \<le> (of_char c :: nat) \<and> (of_char c :: nat) \<le> 57"

definition read_nat :: "string \<Rightarrow> nat" where
  "read_nat s = foldl (\<lambda>a c. 10 * a + digit_val c) 0 s"

lemma digit_val_show_digit [simp]: "d < 10 \<Longrightarrow> digit_val (show_digit d) = d"
  by (simp add: digit_val_def show_digit_def)

lemma is_digit_show_digit [simp]: "d < 10 \<Longrightarrow> is_digit (show_digit d)"
  by (simp add: is_digit_def show_digit_def)

text \<open>Printing is inverted by reading, so it is injective, and it only uses digits.\<close>

lemma read_show_nat [simp]: "read_nat (show_nat n) = n"
proof (induction n rule: less_induct)
  case (less n)
  then show ?case
    by (cases "n < 10") (auto simp: show_nat.simps [of n] read_nat_def)
qed

lemma show_nat_inj [simp]: "show_nat a = show_nat b \<longleftrightarrow> a = b"
  by (metis read_show_nat)

lemma show_nat_digits: "c \<in> set (show_nat n) \<Longrightarrow> is_digit c"
proof (induction n rule: less_induct)
  case (less n)
  have "10 \<le> n \<Longrightarrow> c \<in> set (show_nat (n div 10)) \<Longrightarrow> is_digit c"
    by (rule less.IH) auto
  with less.prems show ?case
    by (cases "n < 10") (auto simp: show_nat.simps [of n])
qed

lemma show_nat_nonempty [simp]: "show_nat n \<noteq> []"
  by (subst show_nat.simps) simp

lemma not_digit_minus [simp]: "\<not> is_digit CHR ''-''" and not_digit_slash [simp]: "\<not> is_digit CHR ''/''"
  by (simp_all add: is_digit_def)

lemma show_int_no_slash: "CHR ''/'' \<notin> set (show_int i)"
  by (auto simp: show_int_def dest: show_nat_digits)

lemma show_int_inj [simp]: "show_int a = show_int b \<longleftrightarrow> a = b"
proof -
  have "show_nat m \<noteq> CHR ''-'' # xs" for m xs
    using show_nat_digits [of "CHR ''-''" m] by auto
  moreover have "CHR ''-'' # xs \<noteq> show_nat m" for m xs
    using show_nat_digits [of "CHR ''-''" m] by (metis list.set_intros(1) not_digit_minus)
  ultimately show ?thesis
    by (auto simp: show_int_def)
qed

end
