(* ===== verification/Paging.thy ===== *)
theory Paging
  imports Base "HOL-Library.Product_Lexorder" "HOL-Library.Multiset"
begin

text \<open>
  Keyset pagination, as every listing of the repositories uses it: rows ordered by
  \<open>created_at DESC, id DESC\<close>, those below the cursor, one row more than the page holds, and
  the next cursor taken from the last row kept.

  The \<open>listing\<close> locale is the contract of such a query. Its client lemma is that following
  the cursors from the start returns every row once, in order; each repository interprets it.
\<close>

section \<open>Cursors and limits (dto/common)\<close>

record cursor =
  cur_created_at :: time
  cur_id :: uuid

definition cursor_key :: "cursor \<Rightarrow> time \<times> uuid" where
  "cursor_key c = (cur_created_at c, cur_id c)"

definition DEFAULT_PER_PAGE_LIMIT :: nat where "DEFAULT_PER_PAGE_LIMIT = 10000"
definition MAX_PER_PAGE_LIMIT :: nat where "MAX_PER_PAGE_LIMIT = 10000"

text \<open>\<open>limit.unwrap_or(DEFAULT).clamp(1, MAX)\<close>.\<close>

definition clamp_limit :: "nat option \<Rightarrow> nat" where
  "clamp_limit l =
     (let v = (case l of None \<Rightarrow> DEFAULT_PER_PAGE_LIMIT | Some n \<Rightarrow> n)
      in max 1 (min v MAX_PER_PAGE_LIMIT))"

record 'a page =
  pg_data :: "'a list"
  pg_next_cursor :: "string option"

text \<open>
  \<open>util/cursor.rs\<close>: JSON in URL-safe base64. Both codecs are parameters.
\<close>

definition cursor_encode :: "('v \<Rightarrow> string) \<Rightarrow> (string \<Rightarrow> string) \<Rightarrow> 'v \<Rightarrow> string" where
  "cursor_encode to_json b64 v = b64 (to_json v)"

definition cursor_decode ::
  "(string \<Rightarrow> string option) \<Rightarrow> (string \<Rightarrow> 'v option) \<Rightarrow> string \<Rightarrow> input_error + 'v"
where
  "cursor_decode unb64 from_json s =
     (case unb64 s of
        None \<Rightarrow> Inl (InputError ''cursor'' ''invalid cursor encoding'')
      | Some bytes \<Rightarrow>
          (case from_json bytes of
             None \<Rightarrow> Inl (InputError ''cursor'' ''invalid cursor payload'')
           | Some v \<Rightarrow> Inr v))"

lemma clamp_limit_bounds: "1 \<le> clamp_limit l" "clamp_limit l \<le> MAX_PER_PAGE_LIMIT"
  by (auto simp: clamp_limit_def Let_def MAX_PER_PAGE_LIMIT_def)

lemma cursor_decode_encode:
  assumes "\<And>s. unb64 (b64 s) = Some s" and "\<And>v. from_json (to_json v) = Some v"
  shows "cursor_decode unb64 from_json (cursor_encode to_json b64 v) = Inr v"
  by (simp add: cursor_decode_def cursor_encode_def assms)

section \<open>One page\<close>

text \<open>\<open>ORDER BY created_at DESC, id DESC\<close>, and the rows a cursor leaves.\<close>

definition newest_first :: "('r \<Rightarrow> time \<times> uuid) \<Rightarrow> 'r list \<Rightarrow> 'r list" where
  "newest_first key rows = rev (sort_key key rows)"

definition below :: "('r \<Rightarrow> time \<times> uuid) \<Rightarrow> cursor option \<Rightarrow> 'r \<Rightarrow> bool" where
  "below key cur r = (case cur of None \<Rightarrow> True | Some c \<Rightarrow> key r < cursor_key c)"

definition keyset_fetch :: "('r \<Rightarrow> time \<times> uuid) \<Rightarrow> 'r list \<Rightarrow> cursor option \<Rightarrow> nat \<Rightarrow> 'r list" where
  "keyset_fetch key rows cur n = take n (newest_first key (filter (below key cur) rows))"

text \<open>
  The tail of every listing: when more than \<open>limit\<close> rows came back, the extra one is popped
  and the last remaining row gives the next cursor.
\<close>

definition cursor_of :: "time \<times> uuid \<Rightarrow> cursor" where
  "cursor_of k = \<lparr>cur_created_at = fst k, cur_id = snd k\<rparr>"

definition pop_extra :: "('r \<Rightarrow> time \<times> uuid) \<Rightarrow> nat \<Rightarrow> 'r list \<Rightarrow> 'r list \<times> cursor option" where
  "pop_extra key limit got =
     (if limit < length got then
        (let kept = butlast got
         in (kept, if kept = [] then None else Some (cursor_of (key (last kept)))))
      else (got, None))"

definition keyset_page ::
  "('r \<Rightarrow> time \<times> uuid) \<Rightarrow> 'r list \<Rightarrow> cursor option \<Rightarrow> nat \<Rightarrow> 'r list \<times> cursor option"
where
  "keyset_page key rows cur limit = pop_extra key limit (keyset_fetch key rows cur (limit + 1))"

lemma cursor_key_cursor_of [simp]: "cursor_key (cursor_of k) = k"
  by (simp add: cursor_key_def cursor_of_def)

lemma set_newest_first [simp]: "set (newest_first key rows) = set rows"
  by (simp add: newest_first_def)

lemma newest_first_sorted: "sorted_wrt (\<lambda>a b. key b \<le> key a) (newest_first key rows)"
proof -
  have "sorted_wrt (\<lambda>a b. key a \<le> key b) (sort_key key rows)"
    using sorted_sort_key [of key rows] by (simp add: sorted_map)
  then show ?thesis by (simp add: newest_first_def sorted_wrt_rev)
qed

lemma newest_first_strict:
  assumes "distinct (map key rows)"
  shows "sorted_wrt (\<lambda>a b. key b < key a) (newest_first key rows)"
proof -
  have "mset (map key (sort_key key rows)) = mset (map key rows)"
    by (simp only: mset_map mset_sort)
  then have "distinct (map key (sort_key key rows))"
    using assms mset_eq_imp_distinct_iff by blast
  then have "sorted_wrt (<) (map key (sort_key key rows))"
    by (simp add: strict_sorted_iff)
  then show ?thesis by (simp add: newest_first_def sorted_wrt_rev sorted_wrt_map)
qed

lemma filter_newest_first: "newest_first key (filter P rows) = filter P (newest_first key rows)"
  by (simp add: newest_first_def filter_sort flip: rev_filter)

text \<open>
  With strictly decreasing keys, the rows below the key of position \<open>i\<close> are the ones after it.
\<close>

lemma filter_below_drop:
  fixes key :: "'r \<Rightarrow> time \<times> uuid"
  shows "sorted_wrt (\<lambda>a b. key b < key a) xs \<Longrightarrow> i < length xs \<Longrightarrow>
   filter (\<lambda>r. key r < key (xs ! i)) xs = drop (Suc i) xs"
proof (induction xs arbitrary: i)
  case (Cons x xs)
  show ?case
  proof (cases i)
    case 0
    with Cons.prems have "\<forall>y \<in> set xs. key y < key x" by simp
    with 0 show ?thesis by simp
  next
    case (Suc j)
    with Cons.prems have "key (xs ! j) < key x" by simp
    with Suc Cons show ?thesis by (simp add: less_not_sym)
  qed
qed simp

lemma keyset_page_step:
  assumes sorted: "sorted_wrt (\<lambda>a b. key b < key a) (newest_first key rows)"
    and rest: "newest_first key (filter (below key cur) rows) = drop k (newest_first key rows)"
    and limit: "1 \<le> limit"
  shows "keyset_page key rows cur limit =
    (let xs = newest_first key rows in
     (take limit (drop k xs),
      if k + limit < length xs then Some (cursor_of (key (xs ! (k + limit - 1)))) else None))"
proof (cases "k + limit < length (newest_first key rows)")
  case True
  define ys where "ys = drop k (newest_first key rows)"
  have len: "limit < length ys" using True by (simp add: ys_def)
  then have "butlast (take (limit + 1) ys) = take limit ys" by (simp add: butlast_take)
  moreover have "last (take limit ys) = ys ! (limit - 1)"
    using len limit by (subst last_conv_nth) auto
  moreover have "ys ! (limit - 1) = newest_first key rows ! (k + limit - 1)"
    using True limit by (simp add: ys_def)
  moreover have "take limit ys \<noteq> []" using len limit by (cases ys) auto
  ultimately show ?thesis
    using True len by (simp add: keyset_page_def keyset_fetch_def pop_extra_def rest Let_def flip: ys_def)
next
  case False
  then have "\<not> limit < length (drop k (newest_first key rows))" by simp
  moreover from this have "take (limit + 1) (drop k (newest_first key rows)) = take limit (drop k (newest_first key rows))"
    by (simp add: take_all)
  ultimately show ?thesis
    using False by (auto simp: keyset_page_def keyset_fetch_def pop_extra_def rest Let_def)
qed

lemma below_cursor_of:
  assumes "sorted_wrt (\<lambda>a b. key b < key a) (newest_first key rows)" "i < length (newest_first key rows)"
  shows "newest_first key (filter (below key (Some (cursor_of (key (newest_first key rows ! i))))) rows) =
    drop (Suc i) (newest_first key rows)"
  using filter_below_drop [OF assms] by (simp add: filter_newest_first below_def [abs_def])

section \<open>Following the cursors\<close>

text \<open>A client that asks for the next page while a cursor comes back, at most \<open>n\<close> pages.\<close>

fun walk :: "(cursor option \<Rightarrow> 'r list \<times> cursor option) \<Rightarrow> nat \<Rightarrow> cursor option \<Rightarrow> ('r list \<times> bool)" where
  "walk list_page 0 cur = ([], False)"
| "walk list_page (Suc n) cur =
     (case list_page cur of
        (got, None) \<Rightarrow> (got, True)
      | (got, Some c) \<Rightarrow> (let (rest, finished) = walk list_page n (Some c) in (got @ rest, finished)))"

lemma walk_keyset_from:
  assumes sorted: "sorted_wrt (\<lambda>a b. key b < key a) (newest_first key rows)"
    and limit: "1 \<le> limit"
  shows "newest_first key (filter (below key cur) rows) = drop k (newest_first key rows) \<Longrightarrow>
    length rows < k + n \<Longrightarrow>
    walk (\<lambda>c. keyset_page key rows c limit) n cur = (drop k (newest_first key rows), True) \<or> n = 0"
proof (induction n arbitrary: cur k)
  case (Suc n)
  let ?xs = "newest_first key rows"
  have len: "length ?xs = length rows" by (simp add: newest_first_def)
  show ?case
  proof (cases "k + limit < length ?xs")
    case True
    let ?c = "Some (cursor_of (key (?xs ! (k + limit - 1))))"
    have rest: "newest_first key (filter (below key ?c) rows) = drop (k + limit) ?xs"
      using below_cursor_of [OF sorted, of "k + limit - 1"] True limit by simp
    have "n \<noteq> 0" using True Suc.prems len limit by simp
    moreover have "length rows < (k + limit) + n" using Suc.prems limit by simp
    ultimately have "walk (\<lambda>c. keyset_page key rows c limit) n ?c = (drop (k + limit) ?xs, True)"
      using Suc.IH [OF rest] by blast
    moreover have "take limit (drop k ?xs) @ drop (k + limit) ?xs = drop k ?xs"
      by (metis add.commute append_take_drop_id drop_drop)
    ultimately show ?thesis
      using True by (simp add: keyset_page_step [OF sorted Suc.prems(1) limit] Let_def)
  next
    case False
    then show ?thesis
      by (simp add: keyset_page_step [OF sorted Suc.prems(1) limit] Let_def)
  qed
qed simp

lemma walk_keyset:
  assumes "distinct (map key rows)" and "1 \<le> limit" and "length rows < n"
  shows "walk (\<lambda>c. keyset_page key rows c limit) n None = (newest_first key rows, True)"
proof -
  have "newest_first key (filter (below key None) rows) = drop 0 (newest_first key rows)"
    by (simp add: below_def)
  from walk_keyset_from [OF newest_first_strict [OF assms(1)] assms(2) this] assms(3)
  show ?thesis by auto
qed

text \<open>Decoding the rows of a page afterwards commutes with all of this when it keeps the keys.\<close>

lemma pop_extra_map:
  "(\<And>r. r \<in> set got \<Longrightarrow> key' (f r) = key r) \<Longrightarrow>
   pop_extra key' limit (map f got) = map_prod (map f) id (pop_extra key limit got)"
  by (auto simp: pop_extra_def Let_def last_map in_set_butlastD simp flip: map_butlast)

lemma walk_map: "walk (\<lambda>c. map_prod (map f) id (list_page c)) n cur = map_prod (map f) id (walk list_page n cur)"
  by (induction n arbitrary: cur) (auto split: prod.splits option.splits simp: Let_def)

section \<open>The contract of a listing\<close>

locale listing =
  fixes list_page :: "'db \<Rightarrow> cursor option \<Rightarrow> nat \<Rightarrow> 'r list \<times> cursor option"
    and visible :: "'db \<Rightarrow> 'r list"
    and key :: "'r \<Rightarrow> time \<times> uuid"
  assumes list_page_eq: "list_page db cur limit = keyset_page key (visible db) cur limit"
begin

lemma walk_all:
  assumes "distinct (map key (visible db))" and "1 \<le> limit" and "length (visible db) < n"
  shows "walk (\<lambda>c. list_page db c limit) n None = (newest_first key (visible db), True)"
  using walk_keyset [OF assms] by (simp add: list_page_eq)

lemma page_visible: "set (fst (list_page db cur limit)) \<subseteq> set (visible db)"
proof -
  have "set (fst (pop_extra key limit got)) \<subseteq> set got" for got :: "'r list"
    by (auto simp: pop_extra_def Let_def in_set_butlastD)
  moreover have "set (keyset_fetch key (visible db) cur n) \<subseteq> set (visible db)" for n
    by (auto simp: keyset_fetch_def dest: in_set_takeD)
  ultimately show ?thesis unfolding list_page_eq keyset_page_def by blast
qed

lemma page_bounded: "length (fst (list_page db cur limit)) \<le> limit"
  by (auto simp: list_page_eq keyset_page_def pop_extra_def keyset_fetch_def Let_def)

end

end
