(* ===== verification/CoreRows.thy ===== *)
theory CoreRows
  imports Paging
begin

text \<open>
  The tables of the \<open>core\<close> schema and the structures of \<open>model/core\<close>.

  A table row is a record; where a query returns more than the row (a joined name, an
  aggregated list), the structure extends the row. Each \<open>*_ok\<close> predicate is the conjunction
  of a table's primary key and unique indexes: a statement whose result would violate it fails
  with \<open>UniqueViolation\<close> and changes nothing. Generated identifiers and \<open>NOW()\<close> are arguments.
\<close>

text \<open>The number of characters of a text, for the columns of a bounded width.\<close>

definition char_count :: "string \<Rightarrow> nat" where
  "char_count s = length (filter (\<lambda>c. \<not> (128 \<le> (of_char c :: nat) \<and> (of_char c :: nat) < 192)) s)"

text \<open>
  A column of a bounded width: spaces beyond the width are cut off, anything else beyond it is an
  error. No text may hold a NUL character.
\<close>

definition rstrip :: "string \<Rightarrow> string" where
  "rstrip s = rev (dropWhile (\<lambda>c. c = CHR '' '') (rev s))"

definition overflows :: "nat \<Rightarrow> string \<Rightarrow> bool" where
  "overflows n s \<longleftrightarrow> n < char_count (rstrip s)"

definition cut_blanks :: "nat \<Rightarrow> string \<Rightarrow> string" where
  "cut_blanks n s =
     (if char_count s \<le> n then s else rstrip s @ replicate (n - char_count (rstrip s)) CHR '' '')"

definition has_nul :: "string \<Rightarrow> bool" where
  "has_nul s \<longleftrightarrow> CHR 0x00 \<in> set s"

text \<open>The texts of a profile: \<open>location\<close> and \<open>display_name\<close> are \<open>VARCHAR(255)\<close>.\<close>

definition PROFILE_WIDTH :: nat where "PROFILE_WIDTH = 255"

definition profile_has_nul ::
  "string option \<Rightarrow> string option \<Rightarrow> string list option \<Rightarrow> string option \<Rightarrow> bool"
where
  "profile_has_nul location readme links display_name \<longleftrightarrow>
     list_ex has_nul (List.map_filter id [location, readme, display_name] @ (case links of None \<Rightarrow> [] | Some ls \<Rightarrow> ls))"

definition profile_overflows :: "string option \<Rightarrow> string option \<Rightarrow> bool" where
  "profile_overflows location display_name \<longleftrightarrow>
     list_ex (overflows PROFILE_WIDTH) (List.map_filter id [location, display_name])"

section \<open>Structures (model/core)\<close>

datatype auth_provider = EmailProvider | GitHubProvider
datatype owner_type = UserOwner | OrganizationOwner
datatype visibility = Public | Private
datatype org_role = Admin | Member

definition owner_type_try_from :: "string \<Rightarrow> input_error + owner_type" where
  "owner_type_try_from s =
     (if s = ''user'' then Inr UserOwner
      else if s = ''organization'' then Inr OrganizationOwner
      else Inl (InputError ''owner type'' s))"

fun owner_type_into_string :: "owner_type \<Rightarrow> string" where
  "owner_type_into_string UserOwner = ''user''"
| "owner_type_into_string OrganizationOwner = ''organization''"

definition visibility_try_from :: "string \<Rightarrow> input_error + visibility" where
  "visibility_try_from s =
     (if s = ''public'' then Inr Public
      else if s = ''private'' then Inr Private
      else Inl (InputError ''visibility'' s))"

fun visibility_into_string :: "visibility \<Rightarrow> string" where
  "visibility_into_string Public = ''public''"
| "visibility_into_string Private = ''private''"

record user_email =
  em_id :: uuid
  em_user_id :: uuid
  em_email :: string
  em_is_primary :: bool
  em_is_verified :: bool
  em_created_at :: time

record email_row = user_email +
  em_verified_at :: "time option"

record user_row =
  us_id :: uuid
  us_name :: string
  us_provider :: auth_provider
  us_display_name :: "string option"
  us_location :: "string option"
  us_readme :: "string option"
  us_links :: "string list"
  us_created_at :: time
  us_image_updated_at :: time
  us_deleted_at :: "time option"

record user = user_row +
  us_emails :: "user_email list"

definition primary_email :: "user \<Rightarrow> user_email option" where
  "primary_email u = find em_is_primary (us_emails u)"

record org_member =
  om_id :: uuid
  om_user_id :: uuid
  om_user_name :: string
  om_role :: org_role
  om_role_description :: "string option"
  om_created_at :: time
  om_image_updated_at :: time

record member_row =
  mr_id :: uuid
  mr_user_id :: uuid
  mr_organization_id :: uuid
  mr_role :: org_role
  mr_role_description :: "string option"
  mr_created_at :: time

record org_row =
  og_id :: uuid
  og_name :: string
  og_display_name :: "string option"
  og_location :: "string option"
  og_readme :: "string option"
  og_links :: "string list"
  og_created_at :: time
  og_image_updated_at :: time

record organization = org_row +
  og_members :: "org_member list option"

record user_organization =
  uo_id :: uuid
  uo_name :: string
  uo_display_name :: "string option"
  uo_image_updated_at :: time
  uo_role :: org_role
  uo_role_description :: "string option"
  uo_joined_at :: time

record repo_row =
  rp_id :: uuid
  rp_name :: string
  rp_owner_id :: uuid
  rp_owner_type :: owner_type
  rp_visibility :: visibility
  rp_description :: "string option"
  rp_stars :: int
  rp_readonly :: bool
  rp_created_at :: time

record repository = repo_row +
  rp_owner_name :: string
  rp_user_star :: bool

definition is_owned_by_user :: "'a repo_row_scheme \<Rightarrow> bool" where
  "is_owned_by_user r \<longleftrightarrow> rp_owner_type r = UserOwner"

definition is_owned_by_organization :: "'a repo_row_scheme \<Rightarrow> bool" where
  "is_owned_by_organization r \<longleftrightarrow> rp_owner_type r = OrganizationOwner"

definition is_public :: "'a repo_row_scheme \<Rightarrow> bool" where
  "is_public r \<longleftrightarrow> rp_visibility r = Public"

definition is_private :: "'a repo_row_scheme \<Rightarrow> bool" where
  "is_private r \<longleftrightarrow> rp_visibility r \<noteq> Public"

record star_row =
  sr_id :: uuid
  sr_user_id :: uuid
  sr_repository_id :: uuid
  sr_created_at :: time

record commit_filter =
  cf_id :: uuid
  cf_repository_id :: uuid
  cf_name :: string
  cf_authors :: "string list option"
  cf_tags :: "string list option"
  cf_paths :: "string list option"
  cf_created_at :: time
  cf_updated_at :: time

record commit_diff =
  cd_path :: string
  cd_lines_added :: int
  cd_lines_removed :: int

text \<open>A row of \<open>core.commits\<close>; the column \<open>sha_short\<close> is generated from \<open>sha\<close>.\<close>

record commit_row =
  cm_id :: uuid
  cm_repo_id :: uuid
  cm_author_id :: "uuid option"
  cm_git_author_name :: string
  cm_git_author_email :: string
  cm_ref_name :: string
  cm_sha :: string
  cm_parent_sha :: string
  cm_message :: string
  cm_created_at :: time
  cm_review_number :: "int option"
  cm_diff_position :: "int option"
  cm_diffs :: "commit_diff list"

section \<open>The store\<close>

record core_db =
  db_users :: "user_row list"
  db_emails :: "email_row list"
  db_orgs :: "org_row list"
  db_members :: "member_row list"
  db_repos :: "repo_row list"
  db_stars :: "star_row list"
  db_filters :: "commit_filter list"
  db_commits :: "commit_row list"

text \<open>
  Every write to \<open>core.user_emails\<close> fires \<open>core.link_commits_to_verified_email\<close>: a row that becomes
  verified claims the commits of its address that have no author yet.
\<close>

definition newly_verified :: "email_row list \<Rightarrow> email_row list \<Rightarrow> email_row list" where
  "newly_verified old new =
     filter (\<lambda>e. em_is_verified e \<and>
        \<not> list_ex (\<lambda>o'. em_id o' = em_id e \<and> em_is_verified o' \<and> em_email o' = em_email e) old) new"

definition link_commits :: "email_row list \<Rightarrow> commit_row list \<Rightarrow> commit_row list" where
  "link_commits es cs =
     foldl (\<lambda>cs e. update_where (\<lambda>c. cm_author_id c = None \<and> cm_git_author_email c = em_email e)
        (\<lambda>c. c\<lparr>cm_author_id := Some (em_user_id e)\<rparr>) cs) cs es"

definition put_emails :: "email_row list \<Rightarrow> core_db \<Rightarrow> core_db" where
  "put_emails es db =
     db\<lparr>db_emails := es, db_commits := link_commits (newly_verified (db_emails db) es) (db_commits db)\<rparr>"

lemma put_emails_simps [simp]:
  "db_users (put_emails es db) = db_users db"
  "db_emails (put_emails es db) = es"
  "db_orgs (put_emails es db) = db_orgs db"
  "db_members (put_emails es db) = db_members db"
  "db_repos (put_emails es db) = db_repos db"
  "db_stars (put_emails es db) = db_stars db"
  "db_filters (put_emails es db) = db_filters db"
  "db_commits (put_emails es db) = link_commits (newly_verified (db_emails db) es) (db_commits db)"
  by (simp_all add: put_emails_def)

definition users_ok :: "user_row list \<Rightarrow> bool" where
  "users_ok us \<longleftrightarrow> distinct (map us_id us) \<and> distinct (map us_name us)"

definition emails_ok :: "email_row list \<Rightarrow> bool" where
  "emails_ok es \<longleftrightarrow> distinct (map em_id es)
     \<and> distinct (map em_email (filter em_is_verified es))
     \<and> distinct (map (\<lambda>e. (em_user_id e, em_email e)) es)
     \<and> distinct (map em_user_id (filter em_is_primary es))"

definition orgs_ok :: "org_row list \<Rightarrow> bool" where
  "orgs_ok os \<longleftrightarrow> distinct (map og_id os) \<and> distinct (map og_name os)"

definition members_ok :: "member_row list \<Rightarrow> bool" where
  "members_ok ms \<longleftrightarrow> distinct (map mr_id ms)
     \<and> distinct (map (\<lambda>m. (mr_user_id m, mr_organization_id m)) ms)"

definition repos_ok :: "repo_row list \<Rightarrow> bool" where
  "repos_ok rs \<longleftrightarrow> distinct (map rp_id rs) \<and> distinct (map (\<lambda>r. (rp_owner_id r, rp_name r)) rs)"

definition stars_ok :: "star_row list \<Rightarrow> bool" where
  "stars_ok ss \<longleftrightarrow> distinct (map sr_id ss)
     \<and> distinct (map (\<lambda>s. (sr_user_id s, sr_repository_id s)) ss)"

definition filters_ok :: "commit_filter list \<Rightarrow> bool" where
  "filters_ok fs \<longleftrightarrow> distinct (map cf_id fs)
     \<and> distinct (map (\<lambda>f. (cf_repository_id f, cf_name f)) fs)"

lemmas table_ok_defs =
  users_ok_def emails_ok_def orgs_ok_def members_ok_def repos_ok_def stars_ok_def filters_ok_def

section \<open>Reading rows\<close>

text \<open>
  \<open>fetch_optional\<close> decodes the first row, if any; \<open>fetch_all\<close> decodes every row and fails
  with the first failure. Decoding fails on a NULL in a column that the structure requires.
\<close>

definition fetch_optional :: "('r \<Rightarrow> database_error + 'v) \<Rightarrow> 'r list \<Rightarrow> database_error + 'v option" where
  "fetch_optional decode rows =
     (case rows of
        [] \<Rightarrow> Inr None
      | r # _ \<Rightarrow> (case decode r of Inl e \<Rightarrow> Inl e | Inr v \<Rightarrow> Inr (Some v)))"

fun fetch_all :: "('r \<Rightarrow> database_error + 'v) \<Rightarrow> 'r list \<Rightarrow> database_error + 'v list" where
  "fetch_all decode [] = Inr []"
| "fetch_all decode (r # rs) =
     (case decode r of
        Inl e \<Rightarrow> Inl e
      | Inr v \<Rightarrow> (case fetch_all decode rs of Inl e \<Rightarrow> Inl e | Inr vs \<Rightarrow> Inr (v # vs)))"

lemma fetch_all_Inr:
  "fetch_all decode rs = Inr vs \<longleftrightarrow> map decode rs = map Inr vs"
proof (induction rs arbitrary: vs)
  case (Cons r rs)
  show ?case
    by (cases "decode r"; cases "fetch_all decode rs"; cases vs) (auto simp: Cons.IH [symmetric])
qed auto

lemma fetch_all_total: "(\<And>r. r \<in> set rs \<Longrightarrow> decode r = Inr (f r)) \<Longrightarrow> fetch_all decode rs = Inr (map f rs)"
  by (induction rs) auto

text \<open>A write that the unique indexes check.\<close>

definition checked :: "('t \<Rightarrow> bool) \<Rightarrow> 't \<Rightarrow> database_error + 't" where
  "checked ok t = (if ok t then Inr t else Inl UniqueViolation)"

lemma checked_Inr [simp]: "checked ok t = Inr t' \<longleftrightarrow> ok t \<and> t' = t"
  by (auto simp: checked_def)

lemma checked_Inl [simp]: "checked ok t = Inl e \<longleftrightarrow> \<not> ok t \<and> e = UniqueViolation"
  by (auto simp: checked_def)

section \<open>Joined names\<close>

definition find_user :: "core_db \<Rightarrow> uuid \<Rightarrow> user_row option" where
  "find_user db i = find (\<lambda>u. us_id u = i) (db_users db)"

definition find_org :: "core_db \<Rightarrow> uuid \<Rightarrow> org_row option" where
  "find_org db i = find (\<lambda>g. og_id g = i) (db_orgs db)"

definition owner_ids :: "core_db \<Rightarrow> string \<Rightarrow> uuid list" where
  "owner_ids db name =
     map us_id (filter (\<lambda>u. us_name u = name) (db_users db))
     @ map og_id (filter (\<lambda>g. og_name g = name) (db_orgs db))"

definition owner_name_of :: "core_db \<Rightarrow> repo_row \<Rightarrow> string option" where
  "owner_name_of db r =
     (case rp_owner_type r of
        UserOwner \<Rightarrow> map_option us_name (find_user db (rp_owner_id r))
      | OrganizationOwner \<Rightarrow> map_option og_name (find_org db (rp_owner_id r)))"

definition starred_by :: "core_db \<Rightarrow> uuid option \<Rightarrow> uuid \<Rightarrow> bool" where
  "starred_by db viewer repo_id =
     (case viewer of
        None \<Rightarrow> False
      | Some u \<Rightarrow> list_ex (\<lambda>s. sr_repository_id s = repo_id \<and> sr_user_id s = u) (db_stars db))"

definition repo_view :: "core_db \<Rightarrow> uuid option \<Rightarrow> repo_row \<Rightarrow> database_error + repository" where
  "repo_view db viewer r =
     (case owner_name_of db r of
        None \<Rightarrow> Inl OtherDbError
      | Some n \<Rightarrow> Inr (repo_row.extend r (repository.fields n (starred_by db viewer (rp_id r)))))"

text \<open>The visibility clause of every listing of repositories.\<close>

definition viewer_orgs :: "core_db \<Rightarrow> uuid option \<Rightarrow> uuid list" where
  "viewer_orgs db viewer =
     (case viewer of
        None \<Rightarrow> []
      | Some u \<Rightarrow> map mr_organization_id (filter (\<lambda>m. mr_user_id m = u) (db_members db)))"

definition visible_to :: "core_db \<Rightarrow> uuid option \<Rightarrow> repo_row \<Rightarrow> bool" where
  "visible_to db viewer r \<longleftrightarrow>
     rp_visibility r = Public
     \<or> rp_owner_type r = UserOwner \<and> Some (rp_owner_id r) = viewer
     \<or> rp_owner_type r = OrganizationOwner \<and> rp_owner_id r \<in> set (viewer_orgs db viewer)"

text \<open>The projection of a user: the row with its emails, primary first, then oldest first.\<close>

definition emails_of :: "core_db \<Rightarrow> uuid \<Rightarrow> user_email list" where
  "emails_of db i =
     sort_key (\<lambda>e. (\<not> em_is_primary e, em_created_at e))
       (map user_email.truncate (filter (\<lambda>e. em_user_id e = i) (db_emails db)))"

definition user_view :: "core_db \<Rightarrow> user_row \<Rightarrow> user" where
  "user_view db u = user_row.extend u (user.fields (emails_of db (us_id u)))"

definition repo_key :: "'a repo_row_scheme \<Rightarrow> time \<times> uuid" where
  "repo_key r = (rp_created_at r, rp_id r)"

lemma find_filter: "find P (filter Q xs) = find (\<lambda>x. P x \<and> Q x) xs"
  by (induction xs) auto

lemma repo_view_row:
  assumes "repo_view db viewer r = Inr v"
  shows "repo_row.truncate v = r" "repo_key v = repo_key r"
  using assms
  by (auto simp: repo_view_def repo_row.truncate_def repo_row.extend_def repository.fields_def
      repo_key_def split: option.splits)

end
