(* ===== verification/RepoStore.thy ===== *)
theory RepoStore
  imports CoreRows
begin

text \<open>
  \<open>repository/core/repository.rs\<close>: the statements over \<open>core.repositories\<close>, \<open>core.stars\<close>
  and \<open>core.commit_filters\<close>.

  The lemmas: the star counter of every repository equals its number of star rows, every
  operation keeps that and the unique indexes, starring is idempotent, and the listings return
  exactly the repositories the viewer may see, page by page.
\<close>

section \<open>Repositories\<close>

text \<open>The column \<open>description\<close> holds at most 255 characters.\<close>

definition description_too_long :: "string option \<Rightarrow> bool" where
  "description_too_long d = (case d of None \<Rightarrow> False | Some s \<Rightarrow> 255 < char_count s)"

definition repo_create ::
  "uuid \<Rightarrow> time \<Rightarrow> string \<Rightarrow> uuid \<Rightarrow> owner_type \<Rightarrow> visibility \<Rightarrow> string option \<Rightarrow> bool \<Rightarrow> time option
    \<Rightarrow> core_db \<Rightarrow> (database_error + repository) \<times> core_db"
where
  "repo_create new_id now name owner_id owner_type vis description readonly created_at db =
     (let r = \<lparr>rp_id = new_id, rp_name = name, rp_owner_id = owner_id, rp_owner_type = owner_type,
               rp_visibility = vis, rp_description = description, rp_stars = 0,
               rp_readonly = readonly,
               rp_created_at = (case created_at of Some t \<Rightarrow> t | None \<Rightarrow> now)\<rparr>
      in if description_too_long description then (Inl OtherDbError, db)
         else (case checked repos_ok (db_repos db @ [r]) of
            Inl e \<Rightarrow> (Inl e, db)
          | Inr rs \<Rightarrow> (repo_view db None r, db\<lparr>db_repos := rs\<rparr>)))"

definition repo_get ::
  "string \<Rightarrow> string \<Rightarrow> uuid option \<Rightarrow> core_db \<Rightarrow> database_error + repository option"
where
  "repo_get owner repo viewer db =
     fetch_optional (repo_view db viewer)
       (filter (\<lambda>r. rp_name r = repo \<and> rp_owner_id r \<in> set (owner_ids db owner)) (db_repos db))"

definition repo_get_id :: "string \<Rightarrow> string \<Rightarrow> core_db \<Rightarrow> database_error + uuid option" where
  "repo_get_id owner repo db =
     fetch_optional (\<lambda>r. Inr (rp_id r))
       (filter (\<lambda>r. rp_name r = repo \<and> rp_owner_id r \<in> set (owner_ids db owner)) (db_repos db))"

definition repo_get_by_id ::
  "uuid \<Rightarrow> uuid option \<Rightarrow> core_db \<Rightarrow> database_error + repository option"
where
  "repo_get_by_id i viewer db =
     fetch_optional (repo_view db viewer) (filter (\<lambda>r. rp_id r = i) (db_repos db))"

definition repo_list_by_owner ::
  "string \<Rightarrow> uuid option \<Rightarrow> cursor option \<Rightarrow> nat \<Rightarrow> core_db
    \<Rightarrow> database_error + repository list \<times> cursor option"
where
  "repo_list_by_owner owner viewer cur limit db =
     (let rows = filter (\<lambda>r. rp_owner_id r \<in> set (owner_ids db owner) \<and> visible_to db viewer r)
                   (db_repos db)
      in (case fetch_all (repo_view db viewer) (keyset_fetch repo_key rows cur (limit + 1)) of
            Inl e \<Rightarrow> Inl e
          | Inr got \<Rightarrow> Inr (pop_extra repo_key limit got)))"

definition repo_list_latest :: "nat \<Rightarrow> core_db \<Rightarrow> database_error + repository list" where
  "repo_list_latest limit db =
     fetch_all (repo_view db None)
       (take limit (newest_first repo_key (filter (\<lambda>r. rp_visibility r = Public) (db_repos db))))"

definition trending_key :: "repo_row \<Rightarrow> int \<times> time \<times> uuid" where
  "trending_key r = (rp_stars r, rp_created_at r, rp_id r)"

definition repo_list_trending :: "nat \<Rightarrow> core_db \<Rightarrow> database_error + repository list" where
  "repo_list_trending limit db =
     fetch_all (repo_view db None)
       (take limit (rev (sort_key trending_key
         (filter (\<lambda>r. rp_visibility r = Public \<and> 0 < rp_stars r) (db_repos db)))))"

text \<open>The rows of \<open>stars\<close>, \<open>commit_filters\<close> and \<open>commits\<close> go with their repository (ON DELETE CASCADE).\<close>

definition repo_delete :: "uuid \<Rightarrow> core_db \<Rightarrow> (database_error + unit) \<times> core_db" where
  "repo_delete i db =
     (Inr (), db\<lparr>db_repos := filter (\<lambda>r. rp_id r \<noteq> i) (db_repos db),
                 db_stars := filter (\<lambda>s. sr_repository_id s \<noteq> i) (db_stars db),
                 db_filters := filter (\<lambda>f. cf_repository_id f \<noteq> i) (db_filters db),
                 db_commits := filter (\<lambda>c. cm_repo_id c \<noteq> i) (db_commits db)\<rparr>)"

definition set_repo :: "string option \<Rightarrow> bool option \<Rightarrow> repo_row \<Rightarrow> repo_row" where
  "set_repo description readonly r =
     r\<lparr>rp_description := (case description of Some d \<Rightarrow> Some d | None \<Rightarrow> rp_description r),
       rp_readonly := (case readonly of Some b \<Rightarrow> b | None \<Rightarrow> rp_readonly r)\<rparr>"

definition repo_update ::
  "uuid \<Rightarrow> string option \<Rightarrow> bool option \<Rightarrow> core_db
    \<Rightarrow> (database_error + repository option) \<times> core_db"
where
  "repo_update i description readonly db =
     (let db' = db\<lparr>db_repos := update_where (\<lambda>r. rp_id r = i) (set_repo description readonly) (db_repos db)\<rparr>
      in if list_ex (\<lambda>r. rp_id r = i) (db_repos db) \<and> description_too_long description then (Inl OtherDbError, db)
         else (fetch_optional (repo_view db' None) (filter (\<lambda>r. rp_id r = i) (db_repos db')), db'))"

section \<open>Stars\<close>

definition add_stars :: "int \<Rightarrow> repo_row \<Rightarrow> repo_row" where
  "add_stars d r = r\<lparr>rp_stars := rp_stars r + d\<rparr>"

text \<open>
  The insert does nothing on a conflict; the counter is raised only when a row was inserted.
  A repository that does not exist violates the foreign key, and the transaction is dropped.
\<close>

definition repo_star ::
  "uuid \<Rightarrow> time \<Rightarrow> uuid \<Rightarrow> uuid \<Rightarrow> core_db \<Rightarrow> (database_error + star_row option) \<times> core_db"
where
  "repo_star new_id now i user_id db =
     (if list_ex (\<lambda>s. sr_user_id s = user_id \<and> sr_repository_id s = i) (db_stars db)
      then (Inr None, db)
      else if \<not> list_ex (\<lambda>r. rp_id r = i) (db_repos db) then (Inl OtherDbError, db)
      else
        (let s = \<lparr>sr_id = new_id, sr_user_id = user_id, sr_repository_id = i, sr_created_at = now\<rparr>
         in (Inr (Some s),
             db\<lparr>db_stars := db_stars db @ [s],
                db_repos := update_where (\<lambda>r. rp_id r = i) (add_stars 1) (db_repos db)\<rparr>)))"

definition drop_star :: "repo_row \<Rightarrow> repo_row" where
  "drop_star r = r\<lparr>rp_stars := max (rp_stars r - 1) 0\<rparr>"

definition repo_unstar :: "uuid \<Rightarrow> uuid \<Rightarrow> core_db \<Rightarrow> (database_error + bool) \<times> core_db" where
  "repo_unstar i user_id db =
     (let hit = (\<lambda>s. sr_user_id s = user_id \<and> sr_repository_id s = i);
          deleted = length (filter hit (db_stars db));
          db1 = db\<lparr>db_stars := filter (\<lambda>s. \<not> hit s) (db_stars db)\<rparr>
      in if 0 < deleted
         then (Inr True, db1\<lparr>db_repos := update_where (\<lambda>r. rp_id r = i) drop_star (db_repos db1)\<rparr>)
         else (Inr False, db1))"

text \<open>
  The stargazers, newest first. The emails are fetched for all of them at once and handed out
  by \<open>remove\<close>, so a user that came back twice would get them once.
\<close>

fun attach_emails ::
  "(uuid \<Rightarrow> user_email list) \<Rightarrow> (user_row \<times> time) list \<Rightarrow> (user \<times> time) list"
where
  "attach_emails by_user [] = []"
| "attach_emails by_user ((u, t) # rest) =
     (user_row.extend u (user.fields (by_user (us_id u))), t)
     # attach_emails (by_user(us_id u := [])) rest"

definition repo_list_recent_stars :: "uuid \<Rightarrow> nat \<Rightarrow> core_db \<Rightarrow> database_error + (user \<times> time) list" where
  "repo_list_recent_stars i limit db =
     (let joined = concat (map (\<lambda>s. map (\<lambda>u. (u, sr_created_at s))
                       (filter (\<lambda>u. us_id u = sr_user_id s) (db_users db)))
                     (filter (\<lambda>s. sr_repository_id s = i) (db_stars db)));
          rows = take limit (rev (sort_key snd (rev joined)))
      in if rows = [] then Inr []
         else
           (let ids = map (\<lambda>(u, t). us_id u) rows;
                emails = sort_key (\<lambda>e. (\<not> em_is_primary e, em_created_at e))
                           (map user_email.truncate (filter (\<lambda>e. em_user_id e \<in> set ids) (db_emails db)));
                by_user = (\<lambda>k. filter (\<lambda>e. em_user_id e = k) emails)
            in Inr (attach_emails by_user rows)))"

section \<open>Commit filters\<close>

definition filter_key :: "commit_filter \<Rightarrow> time \<times> uuid" where
  "filter_key f = (cf_created_at f, cf_id f)"

definition repo_list_commit_filters ::
  "uuid \<Rightarrow> core_db \<Rightarrow> cursor option \<Rightarrow> nat \<Rightarrow> commit_filter list \<times> cursor option"
where
  "repo_list_commit_filters i db cur limit =
     pop_extra filter_key limit
       (keyset_fetch filter_key (filter (\<lambda>f. cf_repository_id f = i) (db_filters db)) cur (limit + 1))"

definition repo_create_commit_filter ::
  "uuid \<Rightarrow> time \<Rightarrow> uuid \<Rightarrow> string \<Rightarrow> string list option \<Rightarrow> string list option \<Rightarrow> string list option
    \<Rightarrow> core_db \<Rightarrow> (database_error + commit_filter) \<times> core_db"
where
  "repo_create_commit_filter new_id now i name authors tags paths db =
     (let f = \<lparr>cf_id = new_id, cf_repository_id = i, cf_name = name, cf_authors = authors,
               cf_tags = tags, cf_paths = paths, cf_created_at = now, cf_updated_at = now\<rparr>
      in if \<not> list_ex (\<lambda>r. rp_id r = i) (db_repos db) then (Inl OtherDbError, db)
         else (case checked filters_ok (db_filters db @ [f]) of
                 Inl e \<Rightarrow> (Inl e, db)
               | Inr fs \<Rightarrow> (Inr f, db\<lparr>db_filters := fs\<rparr>)))"

definition repo_update_commit_filter ::
  "time \<Rightarrow> uuid \<Rightarrow> uuid \<Rightarrow> string \<Rightarrow> string list option \<Rightarrow> string list option \<Rightarrow> string list option
    \<Rightarrow> core_db \<Rightarrow> (database_error + commit_filter option) \<times> core_db"
where
  "repo_update_commit_filter now i filter_id name authors tags paths db =
     (let hit = (\<lambda>f. cf_id f = filter_id \<and> cf_repository_id f = i);
          new = (\<lambda>f. f\<lparr>cf_name := name, cf_authors := authors, cf_tags := tags, cf_paths := paths,
                       cf_updated_at := now\<rparr>)
      in (case checked filters_ok (update_where hit new (db_filters db)) of
            Inl e \<Rightarrow> (Inl e, db)
          | Inr fs \<Rightarrow> (fetch_optional Inr (filter hit fs), db\<lparr>db_filters := fs\<rparr>)))"

definition repo_delete_commit_filter :: "uuid \<Rightarrow> uuid \<Rightarrow> core_db \<Rightarrow> (database_error + bool) \<times> core_db" where
  "repo_delete_commit_filter i filter_id db =
     (let hit = (\<lambda>f. cf_id f = filter_id \<and> cf_repository_id f = i)
      in (Inr (list_ex hit (db_filters db)),
          db\<lparr>db_filters := filter (\<lambda>f. \<not> hit f) (db_filters db)\<rparr>))"

section \<open>The star counters\<close>

definition stargazers :: "core_db \<Rightarrow> uuid \<Rightarrow> uuid list" where
  "stargazers db i = map sr_user_id (filter (\<lambda>s. sr_repository_id s = i) (db_stars db))"

definition stars_counted :: "core_db \<Rightarrow> bool" where
  "stars_counted db \<longleftrightarrow>
     distinct (map (\<lambda>s. (sr_user_id s, sr_repository_id s)) (db_stars db))
     \<and> (\<forall>r \<in> set (db_repos db). rp_stars r = int (length (stargazers db (rp_id r))))
     \<and> sr_repository_id ` set (db_stars db) \<subseteq> rp_id ` set (db_repos db)"

lemma stargazers_no_star:
  "\<not> list_ex (\<lambda>s. sr_user_id s = u \<and> sr_repository_id s = i) (db_stars db) \<longleftrightarrow>
   u \<notin> set (stargazers db i)"
  by (auto simp: stargazers_def list_ex_iff)

lemma repo_star_keeps:
  assumes "stars_counted db"
  shows "stars_counted (snd (repo_star new_id now i u db))"
proof -
  let ?db = "snd (repo_star new_id now i u db)"
  show ?thesis
  proof (cases "db = ?db")
    case False
    then have new: "\<not> list_ex (\<lambda>s. sr_user_id s = u \<and> sr_repository_id s = i) (db_stars db)"
      and ex: "list_ex (\<lambda>r. rp_id r = i) (db_repos db)"
      by (auto simp: repo_star_def split: if_splits)
    then have db': "db_stars ?db = db_stars db @ [\<lparr>sr_id = new_id, sr_user_id = u, sr_repository_id = i, sr_created_at = now\<rparr>]"
      "db_repos ?db = update_where (\<lambda>r. rp_id r = i) (add_stars 1) (db_repos db)"
      by (simp_all add: repo_star_def Let_def)
    have gazers: "stargazers ?db k = stargazers db k @ (if k = i then [u] else [])" for k
      by (simp add: stargazers_def db')
    have "rp_id ` set (db_repos ?db) = rp_id ` set (db_repos db)"
      by (simp add: db' keys_update_where add_stars_def)
    moreover have "\<forall>r \<in> set (db_repos ?db). rp_stars r = int (length (stargazers ?db (rp_id r)))"
      using assms gazers by (auto simp: stars_counted_def db'(2) set_update_where add_stars_def)
    ultimately show ?thesis
      using assms new ex by (auto simp: stars_counted_def db'(1) list_ex_iff image_iff)
  qed (use assms in simp)
qed

lemma stargazers_drop:
  assumes "distinct (map (\<lambda>s. (sr_user_id s, sr_repository_id s)) ss)"
  shows "length (filter (\<lambda>s. sr_repository_id s = k) (filter (\<lambda>s. \<not> (sr_user_id s = u \<and> sr_repository_id s = i)) ss))
    = length (filter (\<lambda>s. sr_repository_id s = k) ss)
      - (if k = i \<and> (\<exists>s \<in> set ss. sr_user_id s = u \<and> sr_repository_id s = i) then 1 else 0)"
  using assms
proof (induction ss)
  case (Cons s ss)
  show ?case
  proof (cases "sr_user_id s = u \<and> sr_repository_id s = i")
    case True
    with Cons.prems have "\<forall>s' \<in> set ss. \<not> (sr_user_id s' = u \<and> sr_repository_id s' = i)"
      by (auto simp: image_iff)
    then have "filter (\<lambda>s. \<not> (sr_user_id s = u \<and> sr_repository_id s = i)) ss = ss"
      by (auto simp: filter_id_conv)
    with True show ?thesis by auto
  next
    case False
    have "\<exists>s \<in> set ss. sr_user_id s = u \<and> sr_repository_id s = i \<Longrightarrow>
        0 < length (filter (\<lambda>s. sr_repository_id s = i) ss)"
      by (auto simp: filter_empty_conv)
    with False Cons show ?thesis by auto
  qed
qed simp

lemma repo_unstar_keeps:
  assumes "stars_counted db"
  shows "stars_counted (snd (repo_unstar i u db))"
proof -
  let ?hit = "\<lambda>s. sr_user_id s = u \<and> sr_repository_id s = i"
  let ?db = "snd (repo_unstar i u db)"
  have dist: "distinct (map (\<lambda>s. (sr_user_id s, sr_repository_id s)) (db_stars db))"
    using assms by (simp add: stars_counted_def)
  have stars: "db_stars ?db = filter (\<lambda>s. \<not> ?hit s) (db_stars db)"
    by (simp add: repo_unstar_def Let_def)
  have repos: "db_repos ?db = update_where (\<lambda>r. rp_id r = i \<and> (\<exists>s \<in> set (db_stars db). ?hit s)) drop_star (db_repos db)"
    by (cases "\<exists>s \<in> set (db_stars db). ?hit s")
      (auto simp: repo_unstar_def Let_def filter_empty_conv update_where_id)
  have len: "length (stargazers ?db k) = length (stargazers db k)
      - (if k = i \<and> (\<exists>s \<in> set (db_stars db). ?hit s) then 1 else 0)" for k
    using stargazers_drop [OF dist, of k u i] by (simp add: stargazers_def stars)
  have some: "\<exists>s \<in> set (db_stars db). ?hit s \<Longrightarrow> 1 \<le> length (stargazers db i)"
    by (auto simp: stargazers_def filter_empty_conv Suc_le_eq)
  have "\<forall>r \<in> set (db_repos ?db). rp_stars r = int (length (stargazers ?db (rp_id r)))"
  proof
    fix r assume "r \<in> set (db_repos ?db)"
    then obtain r0 where "r0 \<in> set (db_repos db)" and
      r: "r = (if rp_id r0 = i \<and> (\<exists>s \<in> set (db_stars db). ?hit s) then drop_star r0 else r0)"
      unfolding repos set_update_where by blast
    then have "rp_stars r0 = int (length (stargazers db (rp_id r0)))"
      using assms by (simp add: stars_counted_def)
    then show "rp_stars r = int (length (stargazers ?db (rp_id r)))"
    proof (cases "rp_id r0 = i \<and> (\<exists>s \<in> set (db_stars db). ?hit s)")
      case True
      then have "1 \<le> length (stargazers db i)" and "rp_id r = i"
        using some r by (simp_all add: drop_star_def)
      moreover from this True have "length (stargazers ?db i) = length (stargazers db i) - 1"
        by (simp only: len if_True simp_thms)
      moreover have "r = drop_star r0" using r True by (simp only: if_True simp_thms)
      ultimately show ?thesis
        using \<open>rp_stars r0 = _\<close> True by (simp add: drop_star_def)
    next
      case False
      then have "r = r0" and "length (stargazers ?db (rp_id r0)) = length (stargazers db (rp_id r0))"
        using r by (simp_all only: len if_False if_not_P diff_zero)
      then show ?thesis using \<open>rp_stars r0 = _\<close> by simp
    qed
  qed
  moreover have "rp_id ` set (db_repos ?db) = rp_id ` set (db_repos db)"
    by (simp add: repos keys_update_where drop_star_def)
  ultimately show ?thesis
    using assms
    by (auto simp: stars_counted_def stars distinct_map_filter)
qed

lemma repo_create_keeps:
  assumes "stars_counted db"
  shows "stars_counted (snd (repo_create new_id now name owner_id ot vis d ro ca db))"
proof (cases "repos_ok (db_repos db @ [\<lparr>rp_id = new_id, rp_name = name, rp_owner_id = owner_id,
    rp_owner_type = ot, rp_visibility = vis, rp_description = d, rp_stars = 0, rp_readonly = ro,
    rp_created_at = (case ca of Some t \<Rightarrow> t | None \<Rightarrow> now)\<rparr>])")
  case True
  then have fresh: "new_id \<notin> rp_id ` set (db_repos db)" by (simp add: repos_ok_def)
  have "\<forall>s \<in> set (db_stars db). sr_repository_id s \<noteq> new_id"
    using assms fresh by (force simp: stars_counted_def)
  then have "stargazers db new_id = []" by (auto simp: stargazers_def filter_empty_conv)
  with True assms show ?thesis
    by (auto simp: repo_create_def Let_def checked_def stars_counted_def stargazers_def split: if_splits)
qed (use assms in \<open>simp add: repo_create_def checked_def Let_def\<close>)

lemma repo_delete_keeps:
  assumes "stars_counted db"
  shows "stars_counted (snd (repo_delete i db))"
proof -
  have "stargazers (snd (repo_delete i db)) k = stargazers db k" if "k \<noteq> i" for k
    using that by (auto simp: stargazers_def repo_delete_def intro!: arg_cong [where f = "map _"] filter_cong)
  then show ?thesis
    using assms by (auto simp: stars_counted_def repo_delete_def distinct_map_filter image_iff)
qed

lemma repo_update_keeps:
  assumes "stars_counted db"
  shows "stars_counted (snd (repo_update i d ro db))"
proof -
  have "stargazers (snd (repo_update i d ro db)) k = stargazers db k" for k
    by (simp add: stargazers_def repo_update_def Let_def)
  moreover have "rp_id ` set (db_repos (snd (repo_update i d ro db))) = rp_id ` set (db_repos db)"
    by (simp add: repo_update_def Let_def keys_update_where set_repo_def)
  ultimately show ?thesis
    using assms by (auto simp: stars_counted_def repo_update_def Let_def set_update_where set_repo_def)
qed

lemmas star_keepers =
  repo_create_keeps repo_delete_keeps repo_update_keeps repo_star_keeps repo_unstar_keeps

text \<open>Any sequence of these statements, in any order and with any arguments.\<close>

inductive repo_step :: "core_db \<Rightarrow> core_db \<Rightarrow> bool" where
  create: "repo_step db (snd (repo_create new_id now name owner_id ot vis d ro ca db))"
| delete: "repo_step db (snd (repo_delete i db))"
| update: "repo_step db (snd (repo_update i d ro db))"
| star: "repo_step db (snd (repo_star new_id now i u db))"
| unstar: "repo_step db (snd (repo_unstar i u db))"

lemma repo_step_keeps: "repo_step db db' \<Longrightarrow> stars_counted db \<Longrightarrow> stars_counted db'"
  by (induction rule: repo_step.induct) (simp_all add: star_keepers)

section \<open>The listings\<close>

definition owner_rows :: "string \<Rightarrow> uuid option \<Rightarrow> core_db \<Rightarrow> repo_row list" where
  "owner_rows owner viewer db =
     filter (\<lambda>r. rp_owner_id r \<in> set (owner_ids db owner) \<and> visible_to db viewer r) (db_repos db)"

definition the_view :: "core_db \<Rightarrow> uuid option \<Rightarrow> repo_row \<Rightarrow> repository" where
  "the_view db viewer r =
     repo_row.extend r (repository.fields (the (owner_name_of db r)) (starred_by db viewer (rp_id r)))"

lemma repo_view_the_view: "owner_name_of db r \<noteq> None \<Longrightarrow> repo_view db viewer r = Inr (the_view db viewer r)"
  by (auto simp: repo_view_def the_view_def)

lemma repo_key_the_view [simp]: "repo_key (the_view db viewer r) = repo_key r"
  by (simp add: the_view_def repo_key_def repo_row.extend_def)

interpretation filters: listing "repo_list_commit_filters i"
    "\<lambda>db. filter (\<lambda>f. cf_repository_id f = i) (db_filters db)" filter_key
  by unfold_locales (simp add: repo_list_commit_filters_def keyset_page_def)

interpretation owner_repos: listing "\<lambda>db cur limit. keyset_page repo_key (owner_rows owner viewer db) cur limit"
    "owner_rows owner viewer" repo_key
  by unfold_locales simp

lemma list_by_owner_page:
  assumes "\<And>r. r \<in> set (db_repos db) \<Longrightarrow> owner_name_of db r \<noteq> None"
  shows "repo_list_by_owner owner viewer cur limit db =
    Inr (map_prod (map (the_view db viewer)) id (keyset_page repo_key (owner_rows owner viewer db) cur limit))"
proof -
  let ?got = "keyset_fetch repo_key (owner_rows owner viewer db) cur (limit + 1)"
  have "set ?got \<subseteq> set (db_repos db)"
    by (auto simp: keyset_fetch_def owner_rows_def dest: in_set_takeD)
  then have "fetch_all (repo_view db viewer) ?got = Inr (map (the_view db viewer) ?got)"
    using assms by (intro fetch_all_total repo_view_the_view) blast
  then show ?thesis
    by (simp add: repo_list_by_owner_def keyset_page_def pop_extra_map flip: owner_rows_def)
qed

text \<open>What a page holds came from a row that the query selected.\<close>

lemma fetch_all_from:
  assumes "fetch_all decode rows = Inr vs" and "v \<in> set vs"
  shows "\<exists>r \<in> set rows. decode r = Inr v"
  using assms by (induction rows arbitrary: vs) (auto split: sum.splits)

lemma pop_extra_subset: "pop_extra key limit got = (rs, c) \<Longrightarrow> set rs \<subseteq> set got"
  by (auto simp: pop_extra_def Let_def split: if_splits dest: in_set_butlastD)

lemma fetched_page:
  assumes "fetch_all decode (keyset_fetch key rows cur m) = Inr got"
    and "pop_extra key' limit got = (rs, c)" and "v \<in> set rs"
  shows "\<exists>r \<in> set rows. decode r = Inr v"
proof -
  obtain r where "r \<in> set (keyset_fetch key rows cur m)" "decode r = Inr v"
    using fetch_all_from [OF assms(1)] pop_extra_subset [OF assms(2)] assms(3) by blast
  moreover from this have "r \<in> set rows" by (auto simp: keyset_fetch_def dest!: in_set_takeD)
  ultimately show ?thesis by blast
qed

lemma list_by_owner_row:
  assumes "repo_list_by_owner owner viewer cur limit db = Inr (rs, c)" and "v \<in> set rs"
  shows "\<exists>r \<in> set (db_repos db). repo_view db viewer r = Inr v \<and>
    rp_owner_id r \<in> set (owner_ids db owner) \<and> visible_to db viewer r"
proof -
  from assms(1) obtain got where "fetch_all (repo_view db viewer) (keyset_fetch repo_key
      (filter (\<lambda>r. rp_owner_id r \<in> set (owner_ids db owner) \<and> visible_to db viewer r) (db_repos db))
      cur (limit + 1)) = Inr got" and "pop_extra repo_key limit got = (rs, c)"
    by (auto simp: repo_list_by_owner_def split: sum.splits)
  from fetched_page [OF this assms(2)] show ?thesis by auto
qed

lemma list_by_owner_visible:
  assumes "repo_list_by_owner owner viewer cur limit db = Inr (rs, c)" and "v \<in> set rs"
  shows "visible_to db viewer (repo_row.truncate v)"
  using list_by_owner_row [OF assms] by (auto dest: repo_view_row(1))

section \<open>Properties\<close>

definition empty_core :: core_db where
  "empty_core = \<lparr>db_users = [], db_emails = [], db_orgs = [], db_members = [], db_repos = [],
                 db_stars = [], db_filters = [], db_commits = []\<rparr>"

definition demo_user :: "uuid \<Rightarrow> string \<Rightarrow> user_row" where
  "demo_user i name = \<lparr>us_id = i, us_name = name, us_provider = EmailProvider,
     us_display_name = None, us_location = None, us_readme = None, us_links = [],
     us_created_at = 0, us_image_updated_at = 0, us_deleted_at = None\<rparr>"

definition demo_row :: "uuid \<Rightarrow> time \<Rightarrow> visibility \<Rightarrow> string \<Rightarrow> repo_row" where
  "demo_row i t v n = \<lparr>rp_id = i, rp_name = n, rp_owner_id = 9, rp_owner_type = UserOwner,
     rp_visibility = v, rp_description = None, rp_stars = 0, rp_readonly = False, rp_created_at = t\<rparr>"

definition demo_store :: core_db where
  "demo_store = empty_core\<lparr>db_users := [demo_user 9 ''al''],
     db_repos := [demo_row 1 3 Public ''a'', demo_row 2 4 Private ''b'', demo_row 3 5 Public ''c'']\<rparr>"

text \<open>
  C38: whatever sequence of create, delete, update, star and unstar statements runs, the
  \<open>stars\<close> counter of every repository is the number of distinct users that star it, so the
  clamp at zero in \<open>unstar\<close> is never needed.
\<close>

theorem star_counter_counts_stargazers:
  assumes "repo_step\<^sup>*\<^sup>* db db'" and "stars_counted db" and "r \<in> set (db_repos db')"
  shows "rp_stars r = int (card (set (stargazers db' (rp_id r)))) \<and> 0 \<le> rp_stars r"
proof -
  have inv: "stars_counted db'"
    using assms(1,2) by (induction rule: rtranclp_induct) (auto intro: repo_step_keeps)
  have "distinct (map (\<lambda>s. (sr_user_id s, sr_repository_id s)) ss) \<Longrightarrow>
      distinct (map sr_user_id (filter (\<lambda>s. sr_repository_id s = k) ss))" for ss k
    by (induction ss) (auto simp: image_iff)
  with inv have "distinct (stargazers db' (rp_id r))" by (auto simp: stars_counted_def stargazers_def)
  with inv assms(3) show ?thesis by (simp add: stars_counted_def distinct_card)
qed

theorem star_counter_counts_stargazers_witness:
  "\<exists>db r. r \<in> set (db_repos db) \<and> stargazers db (rp_id r) = [5, 6] \<and> rp_stars r = 2"
proof -
  define d1 where "d1 = snd (repo_create 1 0 ''r'' 9 UserOwner Public None False None empty_core)"
  define d2 where "d2 = snd (repo_star 11 0 1 5 d1)"
  define d3 where "d3 = snd (repo_star 12 0 1 6 d2)"
  have "repo_step\<^sup>*\<^sup>* empty_core d3"
    unfolding d1_def d2_def d3_def by (meson repo_step.intros rtranclp.intros)
  moreover have "stars_counted empty_core" by (simp add: stars_counted_def empty_core_def)
  moreover have db: "\<exists>r. db_repos d3 = [r] \<and> rp_id r = 1 \<and> stargazers d3 1 = [5, 6]"
    unfolding d1_def d2_def d3_def
    by (simp add: repo_create_def description_too_long_def repo_star_def empty_core_def repos_ok_def checked_def Let_def
        stargazers_def add_stars_def)
  then obtain r where r: "db_repos d3 = [r]" "rp_id r = 1" "stargazers d3 1 = [5, 6]" by blast
  ultimately have "rp_stars r = int (card (set (stargazers d3 (rp_id r))))"
    using star_counter_counts_stargazers [of empty_core d3 r] by simp
  with r show ?thesis by (intro exI [of _ d3] exI [of _ r]) simp
qed

text \<open>
  Starring again changes nothing and says so, and unstarring after a first star restores
  the store exactly.
\<close>

theorem star_idempotent_and_undone:
  assumes inv: "stars_counted db" and new: "u \<notin> set (stargazers db i)"
    and exists: "i \<in> rp_id ` set (db_repos db)"
  shows "(case repo_star new_id now i u db of (res, db1) \<Rightarrow>
      (\<exists>s. res = Inr (Some s)) \<and> stargazers db1 i = stargazers db i @ [u]
      \<and> repo_star new_id' now' i u db1 = (Inr None, db1)
      \<and> repo_unstar i u db1 = (Inr True, db)
      \<and> repo_unstar i u db = (Inr False, db))"
proof -
  let ?hit = "\<lambda>s. sr_user_id s = u \<and> sr_repository_id s = i"
  have none: "\<forall>s \<in> set (db_stars db). \<not> ?hit s"
    using new by (auto simp: stargazers_def)
  then have keep: "filter (\<lambda>s. \<not> ?hit s) (db_stars db) = db_stars db"
    and gone: "filter ?hit (db_stars db) = []"
    by (auto simp: filter_id_conv filter_empty_conv)
  have guards: "\<not> list_ex ?hit (db_stars db)" "list_ex (\<lambda>r. rp_id r = i) (db_repos db)"
    using none exists by (auto simp: list_ex_iff)
  have "0 \<le> rp_stars r" if "r \<in> set (db_repos db)" for r
    using inv that by (simp add: stars_counted_def)
  then have "update_where (\<lambda>r. rp_id r = i) drop_star (update_where (\<lambda>r. rp_id r = i) (add_stars 1) rs) = rs"
    if "set rs \<subseteq> set (db_repos db)" for rs
    using that by (induction rs) (auto simp: drop_star_def add_stars_def)
  then show ?thesis
    using guards keep gone
    by (simp add: repo_star_def repo_unstar_def Let_def stargazers_def)
qed

theorem star_idempotent_and_undone_witness:
  "let db = snd (repo_create 1 0 ''r'' 9 UserOwner Public None False None empty_core) in
     repo_unstar 1 5 (snd (repo_star 11 0 1 5 db)) = (Inr True, db)"
proof -
  let ?db = "snd (repo_create 1 0 ''r'' 9 UserOwner Public None False None empty_core)"
  have "stars_counted ?db" "5 \<notin> set (stargazers ?db 1)" "1 \<in> rp_id ` set (db_repos ?db)"
    by (simp_all add: stars_counted_def stargazers_def repo_create_def description_too_long_def empty_core_def repos_ok_def
        checked_def Let_def)
  from star_idempotent_and_undone [OF this, where new_id = 11 and now = 0] show ?thesis
    by (simp only: case_prod_beta Let_def)
qed

text \<open>
  C36: following the cursors of \<open>list_by_owner\<close> from the start returns, newest first and once
  each, exactly the repositories of the owner that the viewer may see, and then stops.
\<close>

theorem list_by_owner_walk:
  assumes "\<And>r. r \<in> set (db_repos db) \<Longrightarrow> owner_name_of db r \<noteq> None"
    and "distinct (map rp_id (db_repos db))" and "1 \<le> limit" and "length (db_repos db) < n"
  shows "walk (\<lambda>c. projr (repo_list_by_owner owner viewer c limit db)) n None =
    (map (the_view db viewer) (newest_first repo_key (owner_rows owner viewer db)), True)"
proof -
  have "distinct (map rp_id (owner_rows owner viewer db))"
    unfolding owner_rows_def using assms(2) by (rule distinct_map_filter)
  then have "distinct (map repo_key (owner_rows owner viewer db))"
    by (auto simp: distinct_map repo_key_def inj_on_def)
  moreover have "length (owner_rows owner viewer db) < n"
    using assms(4) length_filter_le [of _ "db_repos db"] unfolding owner_rows_def by (meson le_less_trans)
  ultimately have "walk (\<lambda>c. keyset_page repo_key (owner_rows owner viewer db) c limit) n None =
      (newest_first repo_key (owner_rows owner viewer db), True)"
    using assms(3) by (intro owner_repos.walk_all)
  then show ?thesis
    by (simp add: list_by_owner_page [OF assms(1)] walk_map)
qed

theorem list_by_owner_walk_witness:
  "map rp_id (fst (walk (\<lambda>c. projr (repo_list_by_owner ''al'' None c 1 demo_store)) 4 None)) = [3, 1]"
proof -
  have "walk (\<lambda>c. projr (repo_list_by_owner ''al'' None c 1 demo_store)) 4 None =
      (map (the_view demo_store None) (newest_first repo_key (owner_rows ''al'' None demo_store)), True)"
    by (rule list_by_owner_walk)
      (auto simp: demo_store_def empty_core_def demo_row_def owner_name_of_def find_user_def demo_user_def)
  moreover have "owner_rows ''al'' None demo_store = [demo_row 1 3 Public ''a'', demo_row 3 5 Public ''c'']"
    by (simp add: owner_rows_def owner_ids_def empty_core_def demo_user_def demo_row_def visible_to_def
        viewer_orgs_def demo_store_def)
  moreover have "rp_id (the_view demo_store None r) = rp_id r" for r
    by (simp add: the_view_def repo_row.extend_def)
  ultimately show ?thesis
    by (simp add: newest_first_def repo_key_def comp_def) (simp add: demo_row_def)
qed

end
