(* ===== verification/UserStore.thy ===== *)
theory UserStore
  imports RepoStore
begin

text \<open>
  \<open>repository/core/user.rs\<close>: the statements over users and their emails, and the listings of
  repositories that start from a user.

  The lemmas: a created user is found with its primary email, the retry over random handles
  stops, the import of verified addresses never clashes with the unique indexes, and no listing
  shows a repository that its viewer may not see.
\<close>

section \<open>Users\<close>

definition MAX_ATTEMPTS :: nat where "MAX_ATTEMPTS = 3"

text \<open>
  One run of the insert. The statement reads the table it wrote as it was before, so the
  returned user carries no emails. \<open>readme\<close> is the text of \<open>DEFAULT_USER_README\<close>.
\<close>

definition user_insert ::
  "string \<Rightarrow> uuid \<Rightarrow> uuid \<Rightarrow> time \<Rightarrow> string \<Rightarrow> string \<Rightarrow> bool \<Rightarrow> auth_provider \<Rightarrow> core_db
    \<Rightarrow> (database_error + user) \<times> core_db"
where
  "user_insert readme new_id email_id now name email verified provider db =
     (let u = \<lparr>us_id = new_id, us_name = name, us_provider = provider, us_display_name = None,
               us_location = None, us_readme = Some readme, us_links = [], us_created_at = now,
               us_image_updated_at = now, us_deleted_at = None\<rparr>;
          e = \<lparr>em_id = email_id, em_user_id = new_id, em_email = email, em_is_primary = True,
               em_is_verified = verified, em_created_at = now,
               em_verified_at = (if verified then Some now else None)\<rparr>
      in (case (checked users_ok (db_users db @ [u]), checked emails_ok (db_emails db @ [e])) of
            (Inr us, Inr es) \<Rightarrow> (Inr (user_view db u), put_emails es (db\<lparr>db_users := us\<rparr>))
          | (Inl err, _) \<Rightarrow> (Inl err, db)
          | (_, Inl err) \<Rightarrow> (Inl err, db)))"

text \<open>
  \<open>create\<close>: at most \<open>MAX_ATTEMPTS\<close> random handles. \<open>handle\<close> and \<open>ids\<close> give what the random
  generator and the database draw on each attempt.
\<close>

definition generated_name :: "string \<Rightarrow> string" where
  "generated_name hex = ''user-'' @ hex"

function user_create_from ::
  "string \<Rightarrow> (nat \<Rightarrow> string) \<Rightarrow> (nat \<Rightarrow> uuid \<times> uuid) \<Rightarrow> time \<Rightarrow> string \<Rightarrow> bool \<Rightarrow> auth_provider \<Rightarrow> nat
    \<Rightarrow> core_db \<Rightarrow> (database_error + user) \<times> core_db"
where
  "user_create_from readme handle ids now email verified provider attempt db =
     (case user_insert readme (fst (ids attempt)) (snd (ids attempt)) now (generated_name (handle attempt))
             email verified provider db of
        (Inr u, db') \<Rightarrow> (Inr u, db')
      | (Inl e, db') \<Rightarrow>
          if is_unique_violation e \<and> attempt < MAX_ATTEMPTS
          then user_create_from readme handle ids now email verified provider (attempt + 1) db'
          else (Inl e, db'))"
  by pat_completeness auto
termination
  by (relation "measure (\<lambda>(_, _, _, _, _, _, _, attempt, _). MAX_ATTEMPTS - attempt)") auto

declare user_create_from.simps [simp del]

definition user_create ::
  "string \<Rightarrow> (nat \<Rightarrow> string) \<Rightarrow> (nat \<Rightarrow> uuid \<times> uuid) \<Rightarrow> time \<Rightarrow> string \<Rightarrow> bool \<Rightarrow> auth_provider
    \<Rightarrow> core_db \<Rightarrow> (database_error + user) \<times> core_db"
where
  "user_create readme handle ids now email verified provider db =
     user_create_from readme handle ids now email verified provider 1 db"

definition user_get :: "string \<Rightarrow> core_db \<Rightarrow> user option" where
  "user_get name db = map_option (user_view db) (find (\<lambda>u. us_name u = name) (db_users db))"

definition user_get_by_id :: "uuid \<Rightarrow> core_db \<Rightarrow> user option" where
  "user_get_by_id i db = map_option (user_view db) (find (\<lambda>u. us_id u = i) (db_users db))"

definition keep :: "'a option \<Rightarrow> 'a \<Rightarrow> 'a" where
  "keep new old = (case new of Some v \<Rightarrow> v | None \<Rightarrow> old)"

definition keep_some :: "'a option \<Rightarrow> 'a option \<Rightarrow> 'a option" where
  "keep_some new old = (case new of Some v \<Rightarrow> Some v | None \<Rightarrow> old)"

text \<open>
  \<open>update\<close> builds the SET list from the fields that are present. With none of them the
  statement is \<open>UPDATE .. SET  WHERE ..\<close>, which the database rejects. It also rejects a NUL
  character, and a text too long for its column when there is a row to write it to.
\<close>

definition user_update ::
  "uuid \<Rightarrow> string option \<Rightarrow> string option \<Rightarrow> string option \<Rightarrow> string list option \<Rightarrow> string option
    \<Rightarrow> core_db \<Rightarrow> (database_error + user) \<times> core_db"
where
  "user_update i name location readme links display_name db =
     (if name = None \<and> location = None \<and> readme = None \<and> links = None \<and> display_name = None
      then (Inl OtherDbError, db)
      else if profile_has_nul location readme links display_name
        \<or> list_ex (\<lambda>u. us_id u = i) (db_users db) \<and> profile_overflows location display_name
      then (Inl OtherDbError, db)
      else
        (let new = (\<lambda>u. u\<lparr>us_name := keep name (us_name u),
                          us_location := keep_some (map_option (cut_blanks PROFILE_WIDTH) location) (us_location u),
                          us_readme := keep_some readme (us_readme u),
                          us_links := keep links (us_links u),
                          us_display_name := keep_some (map_option (cut_blanks PROFILE_WIDTH) display_name) (us_display_name u)\<rparr>)
         in (case checked users_ok (update_where (\<lambda>u. us_id u = i) new (db_users db)) of
               Inl e \<Rightarrow> (Inl e, db)
             | Inr us \<Rightarrow>
                 (case find (\<lambda>u. us_id u = i) us of
                    None \<Rightarrow> (Inl RowNotFound, db\<lparr>db_users := us\<rparr>)
                  | Some u \<Rightarrow> (Inr (user_view db u), db\<lparr>db_users := us\<rparr>)))))"

definition user_touch_image :: "time \<Rightarrow> uuid \<Rightarrow> core_db \<Rightarrow> core_db" where
  "user_touch_image now i db =
     db\<lparr>db_users := update_where (\<lambda>u. us_id u = i) (\<lambda>u. u\<lparr>us_image_updated_at := now\<rparr>) (db_users db)\<rparr>"

definition mark_user_as_deleted :: "time \<Rightarrow> uuid \<Rightarrow> core_db \<Rightarrow> core_db" where
  "mark_user_as_deleted now i db =
     db\<lparr>db_users := update_where (\<lambda>u. us_id u = i)
          (\<lambda>u. u\<lparr>us_deleted_at := Some (case us_deleted_at u of Some t \<Rightarrow> t | None \<Rightarrow> now)\<rparr>) (db_users db)\<rparr>"

definition get_by_primary_email :: "string \<Rightarrow> core_db \<Rightarrow> user option" where
  "get_by_primary_email email db =
     map_option (user_view db)
       (find (\<lambda>u. list_ex (\<lambda>e. em_user_id e = us_id u \<and> em_is_primary e \<and> em_email e = email)
                    (db_emails db)) (db_users db))"

definition get_by_emails :: "string list \<Rightarrow> core_db \<Rightarrow> (string \<times> uuid) list" where
  "get_by_emails emails db =
     (if emails = [] then []
      else map (\<lambda>e. (em_email e, em_user_id e))
             (filter (\<lambda>e. em_email e \<in> set emails \<and> em_is_verified e) (db_emails db)))"

definition set_verified :: "time \<Rightarrow> email_row \<Rightarrow> email_row" where
  "set_verified now e =
     e\<lparr>em_is_verified := True,
       em_verified_at := Some (case em_verified_at e of Some t \<Rightarrow> t | None \<Rightarrow> now)\<rparr>"

definition user_verify_email :: "time \<Rightarrow> uuid \<Rightarrow> core_db \<Rightarrow> (database_error + unit) \<times> core_db" where
  "user_verify_email now i db =
     (case checked emails_ok
             (update_where (\<lambda>e. em_user_id e = i \<and> em_is_primary e) (set_verified now) (db_emails db)) of
        Inl e \<Rightarrow> (Inl e, db)
      | Inr es \<Rightarrow> (Inr (), put_emails es db))"

definition is_name_taken :: "string \<Rightarrow> core_db \<Rightarrow> bool" where
  "is_name_taken name db \<longleftrightarrow>
     list_ex (\<lambda>u. us_name u = name) (db_users db) \<or> list_ex (\<lambda>g. og_name g = name) (db_orgs db)"

definition is_email_taken :: "string \<Rightarrow> core_db \<Rightarrow> bool" where
  "is_email_taken email db \<longleftrightarrow> list_ex (\<lambda>e. em_email e = email \<and> em_is_verified e) (db_emails db)"

definition user_list_emails :: "uuid \<Rightarrow> core_db \<Rightarrow> user_email list" where
  "user_list_emails i db = emails_of db i"

text \<open>\<open>INSERT .. SELECT .. FROM UNNEST ON CONFLICT DO NOTHING\<close>: one row after the other.\<close>

fun insert_verified ::
  "time \<Rightarrow> uuid \<Rightarrow> (uuid \<times> string) list \<Rightarrow> email_row list \<Rightarrow> email_row list"
where
  "insert_verified now i [] es = es"
| "insert_verified now i ((k, email) # rest) es =
     (if list_ex (\<lambda>e. em_email e = email \<and> (em_is_verified e \<or> em_user_id e = i)) es
      then insert_verified now i rest es
      else insert_verified now i rest
             (es @ [\<lparr>em_id = k, em_user_id = i, em_email = email, em_is_primary = False,
                     em_is_verified = True, em_created_at = now, em_verified_at = Some now\<rparr>]))"

definition upsert_verified_emails :: "time \<Rightarrow> uuid \<Rightarrow> (uuid \<times> string) list \<Rightarrow> core_db \<Rightarrow> core_db" where
  "upsert_verified_emails now i emails db =
     (if emails = [] then db else put_emails (insert_verified now i emails (db_emails db)) db)"

section \<open>The repositories of a user\<close>

text \<open>\<open>GROUP BY repo_id\<close> with \<open>COUNT\<close> and \<open>MAX(created_at)\<close>.\<close>

definition commit_stats :: "commit_row list \<Rightarrow> uuid \<Rightarrow> (nat \<times> time) option" where
  "commit_stats cs repo_id =
     (let ts = map cm_created_at (filter (\<lambda>c. cm_repo_id c = repo_id) cs)
      in if ts = [] then None else Some (length ts, Max (set ts)))"

definition user_list_repositories ::
  "uuid \<Rightarrow> uuid option \<Rightarrow> cursor option \<Rightarrow> nat \<Rightarrow> core_db
    \<Rightarrow> database_error + (repository \<times> nat option \<times> time option) list \<times> cursor option"
where
  "user_list_repositories i viewer cur limit db =
     (let own = filter (\<lambda>c. cm_author_id c = Some i) (db_commits db);
          rows = filter (\<lambda>r. rp_owner_type r = UserOwner \<and> rp_owner_id r = i \<and>
                   (rp_visibility r = Public \<or> Some (rp_owner_id r) = viewer)) (db_repos db);
          decode = (\<lambda>r. map_sum id (\<lambda>v. (v, map_option fst (commit_stats own (rp_id r)),
                                          map_option snd (commit_stats own (rp_id r))))
                          (repo_view db viewer r))
      in (case fetch_all decode (keyset_fetch repo_key rows cur (limit + 1)) of
            Inl e \<Rightarrow> Inl e
          | Inr got \<Rightarrow> Inr (pop_extra (\<lambda>(v, _, _). repo_key v) limit got)))"

definition user_list_starred_repositories ::
  "uuid \<Rightarrow> uuid option \<Rightarrow> cursor option \<Rightarrow> nat \<Rightarrow> core_db
    \<Rightarrow> database_error + repository list \<times> cursor option"
where
  "user_list_starred_repositories i viewer cur limit db =
     (let rows = concat (map (\<lambda>s. map (\<lambda>r. (r, sr_created_at s, sr_id s))
                    (filter (\<lambda>r. rp_id r = sr_repository_id s \<and> visible_to db viewer r) (db_repos db)))
                   (filter (\<lambda>s. sr_user_id s = i) (db_stars db)));
          decode = (\<lambda>(r, t, k). map_sum id (\<lambda>v. (v, t, k)) (repo_view db viewer r))
      in (case fetch_all decode (keyset_fetch snd rows cur (limit + 1)) of
            Inl e \<Rightarrow> Inl e
          | Inr got \<Rightarrow> Inr (map_prod (map fst) id (pop_extra snd limit got))))"

definition user_list_contributed_repositories ::
  "uuid \<Rightarrow> uuid option \<Rightarrow> time \<Rightarrow> cursor option \<Rightarrow> nat \<Rightarrow> core_db
    \<Rightarrow> database_error + (repository \<times> nat \<times> time) list \<times> cursor option"
where
  "user_list_contributed_repositories i viewer since cur limit db =
     (let own = filter (\<lambda>c. cm_author_id c = Some i \<and> since \<le> cm_created_at c) (db_commits db);
          rows = concat (map (\<lambda>repo_id. map (\<lambda>r. (r, the (commit_stats own repo_id)))
                    (filter (\<lambda>r. rp_id r = repo_id \<and> visible_to db viewer r) (db_repos db)))
                   (remdups (map cm_repo_id own)));
          decode = (\<lambda>(r, n, t). map_sum id (\<lambda>v. (v, n, t)) (repo_view db viewer r))
      in (case fetch_all decode (keyset_fetch (\<lambda>(r, n, t). (t, rp_id r)) rows cur (limit + 1)) of
            Inl e \<Rightarrow> Inl e
          | Inr got \<Rightarrow> Inr (pop_extra (\<lambda>(v, n, t). (t, rp_id v)) limit got)))"

section \<open>Verified addresses\<close>

text \<open>
  The import skips an address that is verified already or that the user has, so it never runs
  into the unique indexes.
\<close>

lemma insert_verified_ok:
  assumes "emails_ok es" and "distinct (map em_id es @ map fst new)"
  shows "emails_ok (insert_verified now i new es)"
  using assms
proof (induction now i new es rule: insert_verified.induct)
  case (2 now i k email rest es)
  show ?case
  proof (cases "list_ex (\<lambda>e. em_email e = email \<and> (em_is_verified e \<or> em_user_id e = i)) es")
    case True
    with 2 show ?thesis by simp
  next
    case False
    let ?e = "\<lparr>em_id = k, em_user_id = i, em_email = email, em_is_primary = False,
      em_is_verified = True, em_created_at = now, em_verified_at = Some now\<rparr>"
    have "emails_ok (es @ [?e])"
      using 2(3,4) False by (auto simp: emails_ok_def list_ex_iff)
    moreover have "distinct (map em_id (es @ [?e]) @ map fst rest)"
      using 2(4) by simp
    ultimately show ?thesis using 2(2) False by simp
  qed
qed simp

lemma upsert_verified_emails_ok:
  assumes "emails_ok (db_emails db)" and "distinct (map em_id (db_emails db) @ map fst new)"
  shows "emails_ok (db_emails (upsert_verified_emails now i new db))"
  using insert_verified_ok [OF assms] assms(1) by (simp add: upsert_verified_emails_def)

section \<open>Creating a user\<close>

text \<open>The rows that reference each other: an email belongs to a user that exists.\<close>

definition users_wf :: "core_db \<Rightarrow> bool" where
  "users_wf db \<longleftrightarrow> users_ok (db_users db) \<and> emails_ok (db_emails db)
     \<and> em_user_id ` set (db_emails db) \<subseteq> us_id ` set (db_users db)"

definition clash :: "core_db \<Rightarrow> string \<Rightarrow> uuid \<Rightarrow> uuid \<Rightarrow> string \<Rightarrow> bool \<Rightarrow> bool" where
  "clash db name k ek email verified \<longleftrightarrow>
     name \<in> us_name ` set (db_users db) \<or> k \<in> us_id ` set (db_users db)
     \<or> ek \<in> em_id ` set (db_emails db) \<or> verified \<and> is_email_taken email db"

lemma user_insert_cases:
  assumes wf: "users_wf db"
  shows "if clash db name k ek email verified
    then user_insert readme k ek now name email verified provider db = (Inl UniqueViolation, db)
    else (\<exists>u e db'. user_insert readme k ek now name email verified provider db = (Inr (user_view db u), db')
          \<and> db_users db' = db_users db @ [u] \<and> db_emails db' = db_emails db @ [e] \<and> users_wf db'
          \<and> us_id u = k \<and> us_name u = name \<and> us_provider u = provider \<and> em_user_id e = k \<and> em_email e = email
          \<and> em_is_primary e \<and> em_is_verified e = verified)"
proof (cases "clash db name k ek email verified")
  case True
  with wf show ?thesis
    by (auto simp: user_insert_def Let_def checked_def clash_def users_wf_def users_ok_def emails_ok_def
        is_email_taken_def list_ex_iff image_iff split: prod.splits sum.splits)
next
  case False
  define u where "u = \<lparr>us_id = k, us_name = name, us_provider = provider, us_display_name = None,
               us_location = None, us_readme = Some readme, us_links = [], us_created_at = now,
               us_image_updated_at = now, us_deleted_at = None\<rparr>"
  define e where "e = \<lparr>em_id = ek, em_user_id = k, em_email = email, em_is_primary = True,
               em_is_verified = verified, em_created_at = now,
               em_verified_at = (if verified then Some now else None)\<rparr>"
  have k: "k \<notin> em_user_id ` set (db_emails db)"
    using wf False by (auto simp: users_wf_def clash_def)
  have us: "users_ok (db_users db @ [u])"
    using wf False by (auto simp: users_wf_def clash_def users_ok_def u_def)
  have es: "emails_ok (db_emails db @ [e])"
    using wf False k
    by (auto simp: users_wf_def clash_def emails_ok_def e_def is_email_taken_def list_ex_iff)
  have "user_insert readme k ek now name email verified provider db =
      (Inr (user_view db u), put_emails (db_emails db @ [e]) (db\<lparr>db_users := db_users db @ [u]\<rparr>))"
    using us es by (simp add: user_insert_def Let_def checked_def u_def e_def)
  moreover have "users_wf (put_emails (db_emails db @ [e]) (db\<lparr>db_users := db_users db @ [u]\<rparr>))"
    using us es wf by (auto simp: users_wf_def u_def e_def)
  ultimately show ?thesis
    using False by (auto simp: u_def e_def)
qed

lemma one_le_attempts: "1 \<le> MAX_ATTEMPTS"
  by (simp add: MAX_ATTEMPTS_def)

lemma user_create_from_cases:
  assumes "users_wf db" "1 \<le> attempt" "attempt \<le> MAX_ATTEMPTS"
  shows "(\<exists>k \<in> {attempt..MAX_ATTEMPTS}.
        user_create_from readme handle ids now email verified provider attempt db =
          user_insert readme (fst (ids k)) (snd (ids k)) now (generated_name (handle k)) email verified provider db
        \<and> \<not> clash db (generated_name (handle k)) (fst (ids k)) (snd (ids k)) email verified)
    \<or> user_create_from readme handle ids now email verified provider attempt db = (Inl UniqueViolation, db)
        \<and> (\<forall>k \<in> {attempt..MAX_ATTEMPTS}. clash db (generated_name (handle k)) (fst (ids k)) (snd (ids k)) email verified)"
  using assms
proof (induction "MAX_ATTEMPTS - attempt" arbitrary: attempt)
  case 0
  then have "attempt = MAX_ATTEMPTS" by simp
  with user_insert_cases [OF assms(1), of "generated_name (handle attempt)" "fst (ids attempt)" "snd (ids attempt)" email verified readme now provider]
  show ?case by (subst (1 2) user_create_from.simps) (auto split: if_splits)
next
  case (Suc n)
  note ins = user_insert_cases [OF assms(1), of "generated_name (handle attempt)" "fst (ids attempt)" "snd (ids attempt)" email verified readme now provider]
  show ?case
  proof (cases "clash db (generated_name (handle attempt)) (fst (ids attempt)) (snd (ids attempt)) email verified")
    case True
    with ins Suc.hyps(2) have step: "user_create_from readme handle ids now email verified provider attempt db =
        user_create_from readme handle ids now email verified provider (Suc attempt) db"
      by (subst user_create_from.simps) (auto simp: is_unique_violation_def)
    have "{attempt..MAX_ATTEMPTS} = insert attempt {Suc attempt..MAX_ATTEMPTS}"
      using Suc.hyps(2) by (auto simp: atLeastAtMost_insertL)
    with step True Suc.hyps(1) [of "Suc attempt"] Suc.hyps(2) Suc.prems show ?thesis by force
  next
    case False
    with ins have "user_create_from readme handle ids now email verified provider attempt db =
        user_insert readme (fst (ids attempt)) (snd (ids attempt)) now (generated_name (handle attempt)) email verified provider db"
      by (subst user_create_from.simps) auto
    with False Suc.prems show ?thesis by force
  qed
qed

lemma emails_of_new:
  assumes "db_emails db' = db_emails db @ [e]" "em_user_id e = k" "k \<notin> em_user_id ` set (db_emails db)"
  shows "emails_of db' k = [user_email.truncate e]"
proof -
  have "filter (\<lambda>e. em_user_id e = k) (db_emails db) = []"
    using assms(3) by (auto simp: filter_empty_conv)
  then show ?thesis by (simp add: emails_of_def assms(1,2))
qed

section \<open>What the listings show\<close>

lemma public_visible: "rp_visibility r = Public \<Longrightarrow> visible_to db viewer r"
  by (simp add: visible_to_def)

lemma list_latest_visible:
  assumes "repo_list_latest limit db = Inr rs" and "v \<in> set rs"
  shows "visible_to db viewer (repo_row.truncate v)"
  using fetch_all_from [OF assms [unfolded repo_list_latest_def]]
  by (auto dest!: in_set_takeD repo_view_row(1) intro: public_visible)

lemma list_trending_visible:
  assumes "repo_list_trending limit db = Inr rs" and "v \<in> set rs"
  shows "visible_to db viewer (repo_row.truncate v)"
  using fetch_all_from [OF assms [unfolded repo_list_trending_def]]
  by (auto dest!: in_set_takeD repo_view_row(1) intro: public_visible)

lemma list_repositories_visible:
  assumes "user_list_repositories i viewer cur limit db = Inr (rs, c)" and "p \<in> set rs"
  shows "visible_to db viewer (repo_row.truncate (fst p))"
proof -
  let ?own = "filter (\<lambda>c. cm_author_id c = Some i) (db_commits db)"
  let ?decode = "\<lambda>r. map_sum id (\<lambda>v. (v, map_option fst (commit_stats ?own (rp_id r)),
      map_option snd (commit_stats ?own (rp_id r)))) (repo_view db viewer r)"
  from assms(1) obtain got where "fetch_all ?decode (keyset_fetch repo_key
      (filter (\<lambda>r. rp_owner_type r = UserOwner \<and> rp_owner_id r = i \<and>
         (rp_visibility r = Public \<or> Some (rp_owner_id r) = viewer)) (db_repos db)) cur (limit + 1)) = Inr got"
    and "pop_extra (\<lambda>(v, _, _). repo_key v) limit got = (rs, c)"
    by (auto simp: user_list_repositories_def Let_def split: sum.splits)
  from fetched_page [OF this assms(2)] obtain r where
    "?decode r = Inr p" "rp_owner_type r = UserOwner" "rp_visibility r = Public \<or> Some (rp_owner_id r) = viewer"
    by auto
  then show ?thesis
    by (cases "repo_view db viewer r") (auto dest!: repo_view_row(1) simp: visible_to_def)
qed

lemma list_starred_visible:
  assumes "user_list_starred_repositories i viewer cur limit db = Inr (rs, c)" and "v \<in> set rs"
  shows "visible_to db viewer (repo_row.truncate v)"
proof -
  let ?rows = "concat (map (\<lambda>s. map (\<lambda>r. (r, sr_created_at s, sr_id s))
      (filter (\<lambda>r. rp_id r = sr_repository_id s \<and> visible_to db viewer r) (db_repos db)))
      (filter (\<lambda>s. sr_user_id s = i) (db_stars db)))"
  let ?decode = "\<lambda>(r, t, k). map_sum id (\<lambda>v. (v, t, k)) (repo_view db viewer r)"
  from assms(1) obtain got where fetch: "fetch_all ?decode (keyset_fetch snd ?rows cur (limit + 1)) = Inr got"
    and pop: "map_prod (map fst) id (pop_extra snd limit got) = (rs, c)"
    by (simp add: user_list_starred_repositories_def split: sum.splits)
  obtain ps where "pop_extra snd limit got = (ps, c)" and rs: "rs = map fst ps"
    using pop by (cases "pop_extra snd limit got") auto
  moreover obtain p where "p \<in> set ps" "v = fst p" using assms(2) rs by auto
  ultimately obtain x where "x \<in> set ?rows" "?decode x = Inr p"
    using fetched_page [OF fetch, of snd limit ps c p] by blast
  moreover obtain r t k where x: "x = (r, t, k)" by (cases x)
  ultimately have "map_sum id (\<lambda>v. (v, t, k)) (repo_view db viewer r) = Inr p" and "visible_to db viewer r"
    by auto
  then show ?thesis
    using \<open>v = fst p\<close> by (cases "repo_view db viewer r") (auto dest!: repo_view_row(1))
qed

lemma list_contributed_visible:
  assumes "user_list_contributed_repositories i viewer since cur limit db = Inr (rs, c)" and "p \<in> set rs"
  shows "visible_to db viewer (repo_row.truncate (fst p))"
proof -
  let ?own = "filter (\<lambda>c. cm_author_id c = Some i \<and> since \<le> cm_created_at c) (db_commits db)"
  let ?rows = "concat (map (\<lambda>repo_id. map (\<lambda>r. (r, the (commit_stats ?own repo_id)))
      (filter (\<lambda>r. rp_id r = repo_id \<and> visible_to db viewer r) (db_repos db)))
      (remdups (map cm_repo_id ?own)))"
  let ?decode = "\<lambda>(r, n, t). map_sum id (\<lambda>v. (v, n, t)) (repo_view db viewer r)"
  from assms(1) obtain got where
    "fetch_all ?decode (keyset_fetch (\<lambda>(r, n, t). (t, rp_id r)) ?rows cur (limit + 1)) = Inr got"
    and "pop_extra (\<lambda>(v, n, t). (t, rp_id v)) limit got = (rs, c)"
    by (simp add: user_list_contributed_repositories_def Let_def split: sum.splits)
  from fetched_page [OF this assms(2)] obtain x where "x \<in> set ?rows" "?decode x = Inr p" by blast
  moreover obtain r n t where x: "x = (r, n, t)" by (cases x)
  ultimately have "map_sum id (\<lambda>v. (v, n, t)) (repo_view db viewer r) = Inr p" and "visible_to db viewer r"
    by auto
  then show ?thesis
    by (cases "repo_view db viewer r") (auto dest!: repo_view_row(1))
qed

section \<open>Properties\<close>

text \<open>
  \<open>create\<close> returns within three attempts. It succeeds with the first handle that does not
  clash, and then the account is found by its identifier with the given address as primary; the
  returned value itself carries no addresses. It fails only when every attempt clashes, and then
  nothing is written.
\<close>

theorem user_create_outcome:
  assumes wf: "users_wf db"
  shows "case user_create readme handle ids now email verified provider db of
      (Inr u, db') \<Rightarrow>
        users_wf db' \<and> us_emails u = [] \<and> us_provider u = provider \<and>
        (\<exists>k \<in> {1..MAX_ATTEMPTS}. us_name u = generated_name (handle k)) \<and>
        (\<exists>u' e. user_get_by_id (us_id u) db' = Some u' \<and> us_name u' = us_name u \<and>
           primary_email u' = Some e \<and> em_email e = email \<and> em_is_verified e = verified)
    | (Inl e, db') \<Rightarrow>
        e = UniqueViolation \<and> db' = db \<and>
        (\<forall>k \<in> {1..MAX_ATTEMPTS}. clash db (generated_name (handle k)) (fst (ids k)) (snd (ids k)) email verified)"
  using user_create_from_cases [OF wf le_refl one_le_attempts, of readme handle ids now email verified provider]
proof (elim disjE bexE conjE)
  fix k assume k: "k \<in> {1..MAX_ATTEMPTS}"
    and run: "user_create_from readme handle ids now email verified provider 1 db =
          user_insert readme (fst (ids k)) (snd (ids k)) now (generated_name (handle k)) email verified provider db"
    and noclash: "\<not> clash db (generated_name (handle k)) (fst (ids k)) (snd (ids k)) email verified"
  obtain u e db' where
    ins: "user_insert readme (fst (ids k)) (snd (ids k)) now (generated_name (handle k)) email verified provider db
        = (Inr (user_view db u), db')"
    and db': "db_users db' = db_users db @ [u]" "db_emails db' = db_emails db @ [e]" "users_wf db'"
    and u: "us_id u = fst (ids k)" "us_name u = generated_name (handle k)" "us_provider u = provider"
    and e: "em_user_id e = fst (ids k)" "em_email e = email" "em_is_primary e" "em_is_verified e = verified"
    using user_insert_cases [OF wf] noclash by (smt (verit, ccfv_threshold))
  have fresh: "fst (ids k) \<notin> em_user_id ` set (db_emails db)"
    using wf noclash by (auto simp: users_wf_def clash_def)
  then have "filter (\<lambda>e. em_user_id e = fst (ids k)) (db_emails db) = []"
    by (force simp: filter_empty_conv)
  then have "emails_of db (us_id u) = []"
    using u by (simp add: emails_of_def)
  moreover have "emails_of db' (us_id u) = [user_email.truncate e]"
    using emails_of_new [OF db'(2) e(1) fresh] u by simp
  moreover have "find (\<lambda>x. us_id x = us_id u) (db_users db') = Some u"
    using db'(1,3) by (intro find_key_unique) (auto simp: users_wf_def users_ok_def)
  ultimately show ?thesis
    using k run ins db'(3) u e
    by (auto simp: user_create_def user_view_def user_row.extend_def user.fields_def user_get_by_id_def
        primary_email_def user_email.truncate_def)
next
  assume "user_create_from readme handle ids now email verified provider 1 db = (Inl UniqueViolation, db)"
    and "\<forall>k \<in> {1..MAX_ATTEMPTS}. clash db (generated_name (handle k)) (fst (ids k)) (snd (ids k)) email verified"
  then show ?thesis by (simp add: user_create_def)
qed

theorem user_create_outcome_witness:
  "\<exists>u db' u' e. user_create [] (\<lambda>_. ''0a'') (\<lambda>k. (k, 20 + k)) 0 ''a@b'' True EmailProvider empty_core = (Inr u, db')
     \<and> user_get_by_id (us_id u) db' = Some u' \<and> primary_email u' = Some e \<and> em_email e = ''a@b''"
proof -
  have "users_wf empty_core" by (simp add: users_wf_def empty_core_def users_ok_def emails_ok_def)
  note out = user_create_outcome [OF this, where readme = "[]" and handle = "\<lambda>_. ''0a''" and ids = "\<lambda>k. (k, 20 + k)"
      and now = 0 and email = "''a@b''" and verified = True and provider = EmailProvider]
  obtain u db' where run: "user_create [] (\<lambda>_. ''0a'') (\<lambda>k. (k, 20 + k)) 0 ''a@b'' True EmailProvider empty_core = (Inr u, db')"
    by (simp add: user_create_def user_create_from.simps user_insert_def empty_core_def
        users_ok_def emails_ok_def checked_def Let_def)
  show ?thesis using out unfolding run by auto
qed

text \<open>
  C31: no listing shows a repository that its viewer may not see: each repository returned is
  public, owned by the viewer, or owned by an organization the viewer belongs to.
\<close>

theorem listings_respect_visibility:
  "(\<forall>rs c. repo_list_by_owner owner viewer cur limit db = Inr (rs, c) \<longrightarrow>
      (\<forall>v \<in> set rs. visible_to db viewer (repo_row.truncate v)))
   \<and> (\<forall>rs. repo_list_latest limit db = Inr rs \<longrightarrow> (\<forall>v \<in> set rs. visible_to db viewer (repo_row.truncate v)))
   \<and> (\<forall>rs. repo_list_trending limit db = Inr rs \<longrightarrow> (\<forall>v \<in> set rs. visible_to db viewer (repo_row.truncate v)))
   \<and> (\<forall>rs c. user_list_repositories i viewer cur limit db = Inr (rs, c) \<longrightarrow>
      (\<forall>p \<in> set rs. visible_to db viewer (repo_row.truncate (fst p))))
   \<and> (\<forall>rs c. user_list_starred_repositories i viewer cur limit db = Inr (rs, c) \<longrightarrow>
      (\<forall>v \<in> set rs. visible_to db viewer (repo_row.truncate v)))
   \<and> (\<forall>rs c. user_list_contributed_repositories i viewer since cur limit db = Inr (rs, c) \<longrightarrow>
      (\<forall>p \<in> set rs. visible_to db viewer (repo_row.truncate (fst p))))"
  by (intro conjI allI impI ballI)
    (erule (1) list_by_owner_visible list_latest_visible list_trending_visible list_repositories_visible
       list_starred_visible list_contributed_visible)+

theorem listings_respect_visibility_witness:
  "\<exists>rs. repo_list_latest 5 demo_store = Inr rs \<and> rs \<noteq> [] \<and>
     (\<forall>v \<in> set rs. visible_to demo_store None (repo_row.truncate v))"
proof -
  have names: "owner_name_of demo_store r \<noteq> None" if "r \<in> set (db_repos demo_store)" for r
    using that by (auto simp: demo_store_def empty_core_def demo_row_def owner_name_of_def find_user_def demo_user_def)
  let ?rows = "take 5 (newest_first repo_key (filter (\<lambda>r. rp_visibility r = Public) (db_repos demo_store)))"
  have run: "repo_list_latest 5 demo_store = Inr (map (the_view demo_store None) ?rows)"
    unfolding repo_list_latest_def
    by (intro fetch_all_total repo_view_the_view names) (auto dest!: in_set_takeD)
  moreover have "?rows \<noteq> []"
    by (simp add: newest_first_def demo_store_def demo_row_def)
  ultimately show ?thesis
    using listings_respect_visibility [where db = demo_store and limit = 5 and viewer = None] by fastforce
qed

end
