(* ===== verification/OrgStore.thy ===== *)
theory OrgStore
  imports UserStore
begin

text \<open>
  \<open>repository/core/organization.rs\<close>: the statements over organizations and their members.

  The lemmas: the creator of an organization is its admin and stays so, adding a member that
  is already there changes nothing, and the member lookups agree with each other.
\<close>

section \<open>Organizations\<close>

definition member_view :: "core_db \<Rightarrow> member_row \<Rightarrow> user_row \<Rightarrow> org_member" where
  "member_view db m u =
     \<lparr>om_id = mr_id m, om_user_id = mr_user_id m, om_user_name = us_name u, om_role = mr_role m,
      om_role_description = mr_role_description m, om_created_at = mr_created_at m,
      om_image_updated_at = us_image_updated_at u\<rparr>"

definition org_view :: "org_member list option \<Rightarrow> org_row \<Rightarrow> organization" where
  "org_view ms g = org_row.extend g (organization.fields ms)"

text \<open>The members that a user row joins, newest membership first.\<close>

definition members_of :: "core_db \<Rightarrow> uuid \<Rightarrow> org_member list" where
  "members_of db org_id =
     concat (map (\<lambda>m. map (member_view db m) (filter (\<lambda>u. us_id u = mr_user_id m) (db_users db)))
       (newest_first (\<lambda>m. (mr_created_at m, mr_id m))
          (filter (\<lambda>m. mr_organization_id m = org_id) (db_members db))))"

text \<open>\<open>create\<close>: the organization and its first admin, in one transaction.\<close>

definition org_create ::
  "uuid \<Rightarrow> uuid \<Rightarrow> time \<Rightarrow> string \<Rightarrow> uuid \<Rightarrow> string option \<Rightarrow> core_db
    \<Rightarrow> (database_error + organization) \<times> core_db"
where
  "org_create new_id member_id now name owner_id readme db =
     (let g = \<lparr>og_id = new_id, og_name = name, og_display_name = None, og_location = None,
               og_readme = readme, og_links = [], og_created_at = now, og_image_updated_at = now\<rparr>;
          m = \<lparr>mr_id = member_id, mr_user_id = owner_id, mr_organization_id = new_id, mr_role = Admin,
               mr_role_description = None, mr_created_at = now\<rparr>
      in (case checked orgs_ok (db_orgs db @ [g]) of
            Inl e \<Rightarrow> (Inl e, db)
          | Inr gs \<Rightarrow>
              if find_user db owner_id = None then (Inl OtherDbError, db)
              else (case checked members_ok (db_members db @ [m]) of
                      Inl e \<Rightarrow> (Inl e, db)
                    | Inr ms \<Rightarrow> (Inr (org_view None g), db\<lparr>db_orgs := gs, db_members := ms\<rparr>))))"

definition org_get :: "string \<Rightarrow> core_db \<Rightarrow> organization option" where
  "org_get name db =
     map_option (\<lambda>g. org_view (Some (members_of db (og_id g))) g)
       (find (\<lambda>g. og_name g = name) (db_orgs db))"

definition org_get_id :: "string \<Rightarrow> core_db \<Rightarrow> uuid option" where
  "org_get_id name db = map_option og_id (find (\<lambda>g. og_name g = name) (db_orgs db))"

definition org_touch_image :: "time \<Rightarrow> uuid \<Rightarrow> core_db \<Rightarrow> core_db" where
  "org_touch_image now i db =
     db\<lparr>db_orgs := update_where (\<lambda>g. og_id g = i) (\<lambda>g. g\<lparr>og_image_updated_at := now\<rparr>) (db_orgs db)\<rparr>"

definition is_member :: "uuid \<Rightarrow> uuid \<Rightarrow> core_db \<Rightarrow> bool" where
  "is_member org_id user_id db \<longleftrightarrow>
     list_ex (\<lambda>m. mr_organization_id m = org_id \<and> mr_user_id m = user_id) (db_members db)"

definition add_member ::
  "uuid \<Rightarrow> time \<Rightarrow> string \<Rightarrow> string \<Rightarrow> org_role \<Rightarrow> string option \<Rightarrow> core_db
    \<Rightarrow> org_member option \<times> core_db"
where
  "add_member new_id now org_name user_name role description db =
     (case (find (\<lambda>u. us_name u = user_name) (db_users db), find (\<lambda>g. og_name g = org_name) (db_orgs db)) of
        (Some u, Some g) \<Rightarrow>
          if is_member (og_id g) (us_id u) db then (None, db)
          else
            (let m = \<lparr>mr_id = new_id, mr_user_id = us_id u, mr_organization_id = og_id g, mr_role = role,
                      mr_role_description = description, mr_created_at = now\<rparr>
             in (Some (member_view db m u), db\<lparr>db_members := db_members db @ [m]\<rparr>))
      | _ \<Rightarrow> (None, db))"

definition get_member_role :: "string \<Rightarrow> uuid \<Rightarrow> core_db \<Rightarrow> org_role option" where
  "get_member_role org_name user_id db =
     map_option mr_role
       (find (\<lambda>m. mr_user_id m = user_id \<and>
               list_ex (\<lambda>g. og_id g = mr_organization_id m \<and> og_name g = org_name) (db_orgs db))
          (db_members db))"

definition get_member :: "string \<Rightarrow> uuid \<Rightarrow> core_db \<Rightarrow> org_member option" where
  "get_member org_name member_id db =
     (case find (\<lambda>m. mr_id m = member_id \<and>
               list_ex (\<lambda>g. og_id g = mr_organization_id m \<and> og_name g = org_name) (db_orgs db) \<and>
               find_user db (mr_user_id m) \<noteq> None) (db_members db) of
        None \<Rightarrow> None
      | Some m \<Rightarrow> map_option (member_view db m) (find_user db (mr_user_id m)))"

definition org_update ::
  "string \<Rightarrow> string option \<Rightarrow> string option \<Rightarrow> string list option \<Rightarrow> string option \<Rightarrow> core_db
    \<Rightarrow> (database_error + organization option) \<times> core_db"
where
  "org_update name location readme links display_name db =
     (if location = None \<and> readme = None \<and> links = None \<and> display_name = None
      then (Inl OtherDbError, db)
      else if profile_has_nul location readme links display_name
        \<or> list_ex (\<lambda>g. og_name g = name) (db_orgs db) \<and> profile_overflows location display_name
      then (Inl OtherDbError, db)
      else
        (let new = (\<lambda>g. g\<lparr>og_location := keep_some (map_option (cut_blanks PROFILE_WIDTH) location) (og_location g),
                          og_readme := keep_some readme (og_readme g),
                          og_links := keep links (og_links g),
                          og_display_name := keep_some (map_option (cut_blanks PROFILE_WIDTH) display_name) (og_display_name g)\<rparr>);
             gs = update_where (\<lambda>g. og_name g = name) new (db_orgs db)
         in (Inr (map_option (org_view None) (find (\<lambda>g. og_name g = name) gs)), db\<lparr>db_orgs := gs\<rparr>)))"

definition update_member ::
  "string \<Rightarrow> uuid \<Rightarrow> string option \<Rightarrow> core_db \<Rightarrow> org_member option \<times> core_db"
where
  "update_member org_name member_id description db =
     (let hit = (\<lambda>m. mr_id m = member_id \<and>
               list_ex (\<lambda>g. og_id g = mr_organization_id m \<and> og_name g = org_name) (db_orgs db));
          ms = update_where hit (\<lambda>m. m\<lparr>mr_role_description := keep_some description (mr_role_description m)\<rparr>)
                 (db_members db);
          db' = db\<lparr>db_members := ms\<rparr>
      in (case find hit ms of
            None \<Rightarrow> (None, db')
          | Some m \<Rightarrow> (map_option (member_view db m) (find_user db (mr_user_id m)), db')))"

definition org_key :: "'a org_row_scheme \<Rightarrow> time \<times> uuid" where
  "org_key g = (og_created_at g, og_id g)"

definition org_list :: "core_db \<Rightarrow> cursor option \<Rightarrow> nat \<Rightarrow> organization list \<times> cursor option" where
  "org_list db cur limit =
     pop_extra org_key limit (map (org_view None) (keyset_fetch org_key (db_orgs db) cur (limit + 1)))"

definition list_by_user_id :: "uuid \<Rightarrow> core_db \<Rightarrow> organization list" where
  "list_by_user_id user_id db =
     map (org_view None) (rev (sort_key og_created_at (rev
       (concat (map (\<lambda>g. map (\<lambda>m. g)
           (filter (\<lambda>m. mr_organization_id m = og_id g \<and> mr_user_id m = user_id) (db_members db)))
         (db_orgs db))))))"

definition membership_view :: "member_row \<Rightarrow> org_row \<Rightarrow> user_organization" where
  "membership_view m g =
     \<lparr>uo_id = og_id g, uo_name = og_name g, uo_display_name = og_display_name g,
      uo_image_updated_at = og_image_updated_at g, uo_role = mr_role m,
      uo_role_description = mr_role_description m, uo_joined_at = mr_created_at m\<rparr>"

definition membership_key :: "user_organization \<Rightarrow> time \<times> uuid" where
  "membership_key x = (uo_joined_at x, uo_id x)"

definition memberships :: "uuid \<Rightarrow> core_db \<Rightarrow> user_organization list" where
  "memberships user_id db =
     concat (map (\<lambda>m. map (membership_view m) (filter (\<lambda>g. og_id g = mr_organization_id m) (db_orgs db)))
       (filter (\<lambda>m. mr_user_id m = user_id) (db_members db)))"

definition list_memberships_by_user_id ::
  "uuid \<Rightarrow> core_db \<Rightarrow> cursor option \<Rightarrow> nat \<Rightarrow> user_organization list \<times> cursor option"
where
  "list_memberships_by_user_id user_id db cur limit =
     pop_extra membership_key limit (keyset_fetch membership_key (memberships user_id db) cur (limit + 1))"

interpretation orgs: listing "\<lambda>db cur limit. map_prod (map org_row.truncate) id (org_list db cur limit)"
    db_orgs org_key
proof
  fix db cur limit
  have "org_key (org_view None g) = org_key g" for g
    by (simp add: org_key_def org_view_def org_row.extend_def)
  moreover have "org_row.truncate (org_view None g) = g" for g
    by (simp add: org_view_def org_row.extend_def org_row.truncate_def)
  ultimately show "map_prod (map org_row.truncate) id (org_list db cur limit) = keyset_page org_key (db_orgs db) cur limit"
    by (simp add: org_list_def keyset_page_def pop_extra_map [of _ org_key _ org_key] map_prod.comp prod.map_comp comp_def)
qed

interpretation user_orgs: listing "list_memberships_by_user_id user_id" "memberships user_id" membership_key
  by unfold_locales (simp add: list_memberships_by_user_id_def keyset_page_def)

section \<open>Membership\<close>

definition orgs_wf :: "core_db \<Rightarrow> bool" where
  "orgs_wf db \<longleftrightarrow> orgs_ok (db_orgs db) \<and> members_ok (db_members db)
     \<and> mr_organization_id ` set (db_members db) \<subseteq> og_id ` set (db_orgs db)"

definition has_admins :: "core_db \<Rightarrow> bool" where
  "has_admins db \<longleftrightarrow>
     (\<forall>g \<in> set (db_orgs db).
        (og_id g, Admin) \<in> (\<lambda>m. (mr_organization_id m, mr_role m)) ` set (db_members db))"

lemma org_by_name:
  assumes "orgs_ok gs" "g \<in> set gs"
  shows "find (\<lambda>x. og_name x = og_name g) gs = Some g"
    and "list_ex (\<lambda>x. og_id x = i \<and> og_name x = og_name g) gs \<longleftrightarrow> i = og_id g"
  using assms find_key_unique [of og_name gs g]
  by (auto simp: orgs_ok_def list_ex_iff distinct_map inj_on_def)

text \<open>The two ways the code asks about a membership agree.\<close>

lemma member_role_iff:
  assumes "orgs_ok (db_orgs db)" "members_ok (db_members db)" "g \<in> set (db_orgs db)"
  shows "get_member_role (og_name g) u db = Some r \<longleftrightarrow>
    (\<exists>m \<in> set (db_members db). mr_organization_id m = og_id g \<and> mr_user_id m = u \<and> mr_role m = r)"
proof -
  let ?P = "\<lambda>m. mr_user_id m = u \<and> mr_organization_id m = og_id g"
  have "m = m'" if "m \<in> set (db_members db)" "m' \<in> set (db_members db)" "?P m" "?P m'" for m m'
    using assms(2) that by (auto simp: members_ok_def distinct_map inj_on_def)
  then have "find ?P (db_members db) = Some m \<longleftrightarrow> m \<in> set (db_members db) \<and> ?P m" for m
    by (rule find_unique_iff)
  then show ?thesis
    using assms by (auto simp: get_member_role_def org_by_name)
qed

lemma is_member_iff:
  assumes "orgs_ok (db_orgs db)" "members_ok (db_members db)" "g \<in> set (db_orgs db)"
  shows "is_member (og_id g) u db \<longleftrightarrow> get_member_role (og_name g) u db \<noteq> None"
  using member_role_iff [OF assms] by (auto simp: is_member_def list_ex_iff)

text \<open>Any sequence of statements over organizations, with fresh membership identifiers.\<close>

inductive org_step :: "core_db \<Rightarrow> core_db \<Rightarrow> bool" where
  create: "org_step db (snd (org_create new_id member_id now name owner_id readme db))"
| add: "new_id \<notin> mr_id ` set (db_members db) \<Longrightarrow>
    org_step db (snd (add_member new_id now org_name user_name role description db))"
| update: "org_step db (snd (org_update name location readme links display_name db))"
| update_member: "org_step db (snd (update_member org_name member_id description db))"
| touch: "org_step db (org_touch_image now i db)"

lemma org_create_wf:
  assumes "orgs_wf db"
  shows "orgs_wf (snd (org_create new_id member_id now name owner_id readme db))"
  using assms by (auto simp: org_create_def Let_def checked_def orgs_wf_def)

lemma org_create_admins:
  assumes "has_admins db"
  shows "has_admins (snd (org_create new_id member_id now name owner_id readme db))"
  using assms by (auto simp: org_create_def Let_def checked_def has_admins_def)

lemma add_member_keeps:
  assumes "orgs_wf db" "new_id \<notin> mr_id ` set (db_members db)"
  shows "orgs_wf (snd (add_member new_id now org_name user_name role description db))"
    and "has_admins db \<Longrightarrow> has_admins (snd (add_member new_id now org_name user_name role description db))"
  using assms
  by (auto simp: add_member_def Let_def orgs_wf_def members_ok_def is_member_def list_ex_iff has_admins_def
      split: option.splits dest!: find_SomeD)

lemma org_update_keeps:
  assumes "orgs_wf db"
  shows "orgs_wf (snd (org_update name location readme links display_name db))"
    and "has_admins db \<Longrightarrow> has_admins (snd (org_update name location readme links display_name db))"
  using assms
  by (simp_all add: org_update_def Let_def orgs_wf_def orgs_ok_def table_simps)
    (auto simp: has_admins_def set_update_where)

lemma update_member_keeps:
  assumes "orgs_wf db"
  shows "orgs_wf (snd (update_member org_name member_id description db))"
    and "has_admins db \<Longrightarrow> has_admins (snd (update_member org_name member_id description db))"
proof -
  let ?f = "\<lambda>m. m\<lparr>mr_role_description := keep_some description (mr_role_description m)\<rparr>"
  let ?hit = "\<lambda>m. mr_id m = member_id \<and>
      list_ex (\<lambda>g. og_id g = mr_organization_id m \<and> og_name g = org_name) (db_orgs db)"
  have db': "snd (update_member org_name member_id description db) =
      db\<lparr>db_members := update_where ?hit ?f (db_members db)\<rparr>"
    by (simp add: update_member_def Let_def split: option.splits)
  show "orgs_wf (snd (update_member org_name member_id description db))"
    using assms by (simp add: db' orgs_wf_def members_ok_def table_simps)
  assume "has_admins db"
  moreover have "(\<lambda>m. (mr_organization_id m, mr_role m)) ` set (update_where ?hit ?f (db_members db)) =
      (\<lambda>m. (mr_organization_id m, mr_role m)) ` set (db_members db)"
    by (rule keys_update_where) simp
  ultimately show "has_admins (snd (update_member org_name member_id description db))"
    by (simp add: db' has_admins_def)
qed

lemma touch_keeps:
  assumes "orgs_wf db"
  shows "orgs_wf (org_touch_image now i db)" and "has_admins db \<Longrightarrow> has_admins (org_touch_image now i db)"
  using assms
  by (simp_all add: org_touch_image_def orgs_wf_def orgs_ok_def table_simps)
    (auto simp: has_admins_def set_update_where)

lemmas org_keepers =
  org_create_wf org_create_admins add_member_keeps org_update_keeps update_member_keeps touch_keeps

lemma org_step_keeps: "org_step db db' \<Longrightarrow> orgs_wf db \<and> has_admins db \<Longrightarrow> orgs_wf db' \<and> has_admins db'"
  by (induction rule: org_step.induct) (simp_all add: org_keepers)

section \<open>Properties\<close>

text \<open>
  C40: an organization always has an admin: whatever sequence of statements runs, every
  organization keeps a member row with the admin role, and its member lookups agree
  (\<open>is_member\<close> holds exactly when \<open>get_member_role\<close> finds a role).
\<close>

theorem organizations_keep_an_admin:
  assumes "org_step\<^sup>*\<^sup>* db db'" and "orgs_wf db" and "has_admins db" and "g \<in> set (db_orgs db')"
  shows "(\<exists>u. get_member_role (og_name g) u db' = Some Admin) \<and>
    (\<forall>u. is_member (og_id g) u db' \<longleftrightarrow> get_member_role (og_name g) u db' \<noteq> None)"
proof -
  have inv: "orgs_wf db' \<and> has_admins db'"
    using assms(1-3) by (induction rule: rtranclp_induct) (auto dest: org_step_keeps)
  then obtain m where "m \<in> set (db_members db')" "mr_organization_id m = og_id g" "mr_role m = Admin"
    using assms(4) by (auto simp: has_admins_def)
  then show ?thesis
    using inv assms(4) member_role_iff is_member_iff by (metis orgs_wf_def)
qed

theorem organizations_keep_an_admin_witness:
  "\<exists>db g u. db_orgs db = [g] \<and> get_member_role (og_name g) u db = Some Admin"
proof -
  let ?db0 = "empty_core\<lparr>db_users := [demo_user 9 ''al'']\<rparr>"
  define db where "db = snd (org_create 1 2 0 ''org'' 9 None ?db0)"
  have "org_step\<^sup>*\<^sup>* ?db0 db" unfolding db_def by (rule r_into_rtranclp) (rule org_step.create)
  moreover have "orgs_wf ?db0" "has_admins ?db0"
    by (simp_all add: empty_core_def orgs_wf_def orgs_ok_def members_ok_def has_admins_def)
  moreover obtain g where g: "db_orgs db = [g]"
    by (simp add: db_def org_create_def empty_core_def orgs_ok_def members_ok_def checked_def Let_def
        find_user_def demo_user_def)
  ultimately show ?thesis using organizations_keep_an_admin [of ?db0 db g] by auto
qed

text \<open>
  Adding a user that is already a member changes nothing, so it never changes a role;
  adding another user gives that user the role and leaves the roles of the others.
\<close>

theorem membership_outcomes:
  assumes wf: "orgs_wf db" and g: "g \<in> set (db_orgs db)" and u: "u \<in> set (db_users db)"
    and users: "users_ok (db_users db)" and fresh: "new_id \<notin> mr_id ` set (db_members db)"
  shows "(case add_member new_id now (og_name g) (us_name u) role description db of
      (res, db') \<Rightarrow>
        (if is_member (og_id g) (us_id u) db then res = None \<and> db' = db
         else res \<noteq> None \<and> get_member_role (og_name g) (us_id u) db' = Some role \<and>
              (\<forall>v. v \<noteq> us_id u \<longrightarrow> get_member_role (og_name g) v db' = get_member_role (og_name g) v db)))"
proof -
  have "find (\<lambda>x. us_name x = us_name u) (db_users db) = Some u"
    using users u by (intro find_key_unique) (simp_all add: users_ok_def)
  moreover have "find (\<lambda>x. og_name x = og_name g) (db_orgs db) = Some g"
    using wf g by (intro org_by_name) (simp_all add: orgs_wf_def)
  ultimately have run: "add_member new_id now (og_name g) (us_name u) role description db =
      (if is_member (og_id g) (us_id u) db then (None, db)
       else (let m = \<lparr>mr_id = new_id, mr_user_id = us_id u, mr_organization_id = og_id g, mr_role = role,
                      mr_role_description = description, mr_created_at = now\<rparr>
             in (Some (member_view db m u), db\<lparr>db_members := db_members db @ [m]\<rparr>)))"
    by (simp add: add_member_def)
  show ?thesis
  proof (cases "is_member (og_id g) (us_id u) db")
    case False
    define m where "m = \<lparr>mr_id = new_id, mr_user_id = us_id u, mr_organization_id = og_id g, mr_role = role,
                      mr_role_description = description, mr_created_at = now\<rparr>"
    define db' where "db' = db\<lparr>db_members := db_members db @ [m]\<rparr>"
    have eq: "add_member new_id now (og_name g) (us_name u) role description db = (Some (member_view db m u), db')"
      using run False by (simp add: m_def db'_def Let_def)
    have wf': "orgs_wf db'" using add_member_keeps(1) [OF wf fresh] eq by (metis snd_conv)
    have old: "get_member_role (og_name g) v d = Some r \<longleftrightarrow>
        (\<exists>m \<in> set (db_members d). mr_organization_id m = og_id g \<and> mr_user_id m = v \<and> mr_role m = r)"
      if "orgs_wf d" "db_orgs d = db_orgs db" for v r d
      using member_role_iff [of d g v r] that g by (simp add: orgs_wf_def)
    have "get_member_role (og_name g) (us_id u) db' = Some role"
      using old [OF wf'] by (auto simp: db'_def m_def)
    moreover have "get_member_role (og_name g) v db' = get_member_role (og_name g) v db" if "v \<noteq> us_id u" for v
    proof -
      have "get_member_role (og_name g) v db' = Some r \<longleftrightarrow> get_member_role (og_name g) v db = Some r" for r
        using old [OF wf'] old [OF wf] that by (simp add: db'_def m_def)
      then show ?thesis by (metis not_None_eq)
    qed
    ultimately show ?thesis using False eq by simp
  qed (simp add: run)
qed

theorem membership_outcomes_witness:
  "\<exists>db. get_member_role ''org'' 8 (snd (add_member 3 1 ''org'' ''bo'' Member None db)) = Some Member"
proof -
  let ?db0 = "empty_core\<lparr>db_users := [demo_user 9 ''al'', demo_user 8 ''bo'']\<rparr>"
  define db where "db = snd (org_create 1 2 0 ''org'' 9 None ?db0)"
  obtain g m where db: "db_orgs db = [g]" "og_name g = ''org''" "og_id g = 1" "db_members db = [m]"
      "mr_id m = 2" "mr_organization_id m = 1" "mr_user_id m = 9" "db_users db = db_users ?db0"
    by (simp add: db_def org_create_def empty_core_def orgs_ok_def members_ok_def checked_def Let_def
        find_user_def demo_user_def)
  have "orgs_wf db" using db by (simp add: orgs_wf_def orgs_ok_def members_ok_def)
  moreover have "users_ok (db_users db)" using db by (simp add: users_ok_def demo_user_def)
  moreover have "\<not> is_member (og_id g) (us_id (demo_user 8 ''bo'')) db"
    using db by (simp add: is_member_def demo_user_def)
  ultimately show ?thesis
    using membership_outcomes [of db g "demo_user 8 ''bo''",
        where new_id = 3 and now = 1 and role = Member and description = None] db
    by (intro exI [of _ db]) (auto simp: demo_user_def case_prod_beta)
qed

end
