(* ===== verification/ReviewStore.thy ===== *)
theory ReviewStore
  imports UserStore
begin

text \<open>
  The tables of reviews, \<open>model/core/review.rs\<close> and \<open>repository/core/review.rs\<close>.

  The details query nests a user as a JSON object that \<open>serde\<close> decodes as \<open>User\<close>. The object
  has no member \<open>emails\<close>, which \<open>User\<close> requires, so the decoding of a row fails as soon as one
  of the nested users has a primary address; without one the subquery is NULL.
\<close>

section \<open>Structures (model/core/review.rs)\<close>

datatype review_status = ReviewDraft | ReviewOpen | ReviewClosed
datatype diff_status = DiffDraft | DiffOpen | DiffMerged
datatype review_verdict_kind = VerdictApproved | VerdictRejected
datatype comment_side = OldSide | NewSide

record verdict_row =
  vd_id :: uuid
  vd_diff_id :: uuid
  vd_revision_id :: uuid
  vd_reviewer_id :: uuid
  vd_verdict :: review_verdict_kind
  vd_created_at :: time

record revision_row =
  rv_id :: uuid
  rv_diff_id :: uuid
  rv_number :: int
  rv_commit_hash :: string
  rv_parent_hash :: string
  rv_created_at :: time

record revision = revision_row +
  rv_verdicts :: "verdict_row list option"

record diff_row =
  df_id :: uuid
  df_review_id :: uuid
  df_position :: int
  df_message :: string
  df_status :: diff_status
  df_created_at :: time
  df_updated_at :: time

record diff = diff_row +
  df_revisions :: "revision list option"

record reviewer_row =
  rr_id :: uuid
  rr_review_id :: uuid
  rr_reviewer_id :: uuid
  rr_created_at :: time

record reviewer = reviewer_row +
  rr_user :: "user option"

record review_comment_row =
  rc_id :: uuid
  rc_review_id :: uuid
  rc_diff_id :: uuid
  rc_revision_id :: uuid
  rc_author_id :: uuid
  rc_parent_id :: "uuid option"
  rc_body :: string
  rc_file_path :: "string option"
  rc_line_number_start :: "int option"
  rc_line_number_end :: "int option"
  rc_start_character :: "int option"
  rc_end_character :: "int option"
  rc_side :: "comment_side option"
  rc_resolved :: bool
  rc_created_at :: time
  rc_updated_at :: time

record review_comment = review_comment_row +
  rc_author :: "user option"

record review_row =
  re_id :: uuid
  re_repository_id :: uuid
  re_number :: int
  re_author_id :: uuid
  re_title :: string
  re_description :: string
  re_target_branch :: string
  re_status :: review_status
  re_created_at :: time
  re_updated_at :: time

record review = review_row +
  re_author :: "user option"
  re_diffs :: "diff list option"
  re_reviewers :: "reviewer list option"
  re_comments :: "review_comment list option"

record review_db =
  db_reviews :: "review_row list"
  db_diffs :: "diff_row list"
  db_revisions :: "revision_row list"
  db_reviewers :: "reviewer_row list"
  db_verdicts :: "verdict_row list"
  db_comments :: "review_comment_row list"

section \<open>Constraints\<close>

definition reviews_ok :: "review_row list \<Rightarrow> bool" where
  "reviews_ok rs \<longleftrightarrow> distinct (map re_id rs) \<and>
     distinct (map (\<lambda>r. (re_repository_id r, re_number r)) (filter (\<lambda>r. re_number r \<noteq> -1) rs))"

definition diffs_ok :: "diff_row list \<Rightarrow> bool" where
  "diffs_ok ds \<longleftrightarrow> distinct (map df_id ds) \<and> distinct (map (\<lambda>d. (df_review_id d, df_position d)) ds)"

definition revisions_ok :: "revision_row list \<Rightarrow> bool" where
  "revisions_ok rs \<longleftrightarrow> distinct (map rv_id rs) \<and> distinct (map (\<lambda>r. (rv_diff_id r, rv_number r)) rs)"

definition reviewers_ok :: "reviewer_row list \<Rightarrow> bool" where
  "reviewers_ok rs \<longleftrightarrow> distinct (map rr_id rs) \<and> distinct (map (\<lambda>r. (rr_review_id r, rr_reviewer_id r)) rs)"

lemmas review_ok_defs = reviews_ok_def diffs_ok_def revisions_ok_def reviewers_ok_def

definition MAX_I32 :: int where "MAX_I32 = 2147483647"

section \<open>Reading\<close>

definition user_json :: "core_db \<Rightarrow> uuid \<Rightarrow> database_error + user option" where
  "user_json core i =
     (if list_ex (\<lambda>u. us_id u = i) (db_users core) \<and>
         list_ex (\<lambda>e. em_user_id e = i \<and> em_is_primary e) (db_emails core)
      then Inl OtherDbError else Inr None)"

definition revisions_of :: "review_db \<Rightarrow> uuid \<Rightarrow> revision list" where
  "revisions_of db i =
     map (\<lambda>r. revision_row.extend r (revision.fields
            (Some (sort_key vd_created_at (filter (\<lambda>v. vd_revision_id v = rv_id r) (db_verdicts db))))))
       (sort_key (\<lambda>r. - rv_number r) (filter (\<lambda>r. rv_diff_id r = i) (db_revisions db)))"

definition diffs_of :: "review_db \<Rightarrow> uuid \<Rightarrow> diff list" where
  "diffs_of db i =
     map (\<lambda>d. diff_row.extend d (diff.fields (Some (revisions_of db (df_id d)))))
       (sort_key df_position (filter (\<lambda>d. df_review_id d = i) (db_diffs db)))"

definition reviewer_view :: "core_db \<Rightarrow> reviewer_row \<Rightarrow> database_error + reviewer" where
  "reviewer_view core r =
     and_then (user_json core (rr_reviewer_id r)) (\<lambda>u. Inr (reviewer_row.extend r (reviewer.fields u)))"

definition comment_view :: "core_db \<Rightarrow> review_comment_row \<Rightarrow> database_error + review_comment" where
  "comment_view core c =
     and_then (user_json core (rc_author_id c)) (\<lambda>u. Inr (review_comment_row.extend c (review_comment.fields u)))"

text \<open>\<open>REVIEW_DETAILS_QUERY\<close>.\<close>

definition review_details :: "core_db \<Rightarrow> review_db \<Rightarrow> review_row \<Rightarrow> database_error + review" where
  "review_details core db r =
     and_then (user_json core (re_author_id r)) (\<lambda>author.
     and_then (fetch_all (reviewer_view core) (filter (\<lambda>x. rr_review_id x = re_id r) (db_reviewers db))) (\<lambda>rs.
     and_then (fetch_all (comment_view core)
        (sort_key rc_created_at (filter (\<lambda>c. rc_review_id c = re_id r) (db_comments db)))) (\<lambda>cs.
     Inr (review_row.extend r (review.fields author (Some (diffs_of db (re_id r))) (Some rs) (Some cs))))))"

text \<open>The projection whose nested columns are NULL.\<close>

definition bare_review :: "review_row \<Rightarrow> review" where
  "bare_review r = review_row.extend r (review.fields None None None None)"

text \<open>The rows of the reviews of a repository, joined with the repository.\<close>

definition reviews_in :: "core_db \<Rightarrow> review_db \<Rightarrow> string \<Rightarrow> string \<Rightarrow> review_row list" where
  "reviews_in core db owner repo =
     filter (\<lambda>r. list_ex (\<lambda>p. rp_id p = re_repository_id r \<and> rp_name p = repo \<and>
                     rp_owner_id p \<in> set (owner_ids core owner)) (db_repos core)) (db_reviews db)"

definition get_review_by_number ::
  "core_db \<Rightarrow> review_db \<Rightarrow> string \<Rightarrow> string \<Rightarrow> int \<Rightarrow> database_error + review option"
where
  "get_review_by_number core db owner repo number =
     fetch_optional (review_details core db) (filter (\<lambda>r. re_number r = number) (reviews_in core db owner repo))"

definition review_key :: "'a review_row_scheme \<Rightarrow> time \<times> uuid" where
  "review_key r = (re_created_at r, re_id r)"

definition nil_uuid :: uuid where "nil_uuid = 0"

definition repo_list_reviews ::
  "core_db \<Rightarrow> review_db \<Rightarrow> string \<Rightarrow> string \<Rightarrow> uuid option \<Rightarrow> cursor option \<Rightarrow> nat
    \<Rightarrow> database_error + review list \<times> cursor option"
where
  "repo_list_reviews core db owner repo viewer cur limit =
     (let who = (case viewer of Some v \<Rightarrow> v | None \<Rightarrow> nil_uuid);
          rows = filter (\<lambda>r. re_status r \<noteq> ReviewDraft \<or> re_author_id r = who) (reviews_in core db owner repo)
      in (case fetch_all (review_details core db) (keyset_fetch review_key rows cur (limit + 1)) of
            Inl e \<Rightarrow> Inl e
          | Inr got \<Rightarrow> Inr (pop_extra review_key limit got)))"

definition review_status_sql :: "string \<Rightarrow> review_status option" where
  "review_status_sql s =
     (if s = ''draft'' then Some ReviewDraft else if s = ''open'' then Some ReviewOpen
      else if s = ''closed'' then Some ReviewClosed else None)"

definition list_reviews_by_user ::
  "core_db \<Rightarrow> review_db \<Rightarrow> string \<Rightarrow> uuid option \<Rightarrow> string option \<Rightarrow> string option \<Rightarrow> string option
    \<Rightarrow> cursor option \<Rightarrow> nat \<Rightarrow> database_error + review list \<times> cursor option"
where
  "list_reviews_by_user core db user_name viewer status owner repo cur limit =
     (if status \<noteq> None \<and> review_status_sql (the status) = None then Inl OtherDbError
      else
        (let repo_of = (\<lambda>r. find (\<lambda>p. rp_id p = re_repository_id r) (db_repos core));
             keep_row = (\<lambda>r. list_ex (\<lambda>u. us_id u = re_author_id r \<and> us_name u = user_name) (db_users core) \<and>
               (case repo_of r of None \<Rightarrow> False | Some p \<Rightarrow>
                  (Some (re_author_id r) = viewer \<or> re_status r \<noteq> ReviewDraft \<and> rp_visibility p = Public) \<and>
                  (\<forall>s \<in> set_option status. Some (re_status r) = review_status_sql s) \<and>
                  (\<forall>n \<in> set_option owner. rp_owner_id p \<in> set (owner_ids core n)) \<and>
                  (\<forall>n \<in> set_option repo. rp_name p = n)));
             got = keyset_fetch review_key (map bare_review (filter keep_row (db_reviews db))) cur (limit + 1)
         in Inr (pop_extra review_key limit got)))"

section \<open>Writing\<close>

definition repo_exists :: "core_db \<Rightarrow> uuid \<Rightarrow> bool" where
  "repo_exists core i \<longleftrightarrow> list_ex (\<lambda>r. rp_id r = i) (db_repos core)"

text \<open>\<open>COALESCE(MAX(number), 0) + 1\<close>, under the advisory lock of the repository.\<close>

definition next_review_number :: "review_db \<Rightarrow> uuid \<Rightarrow> int" where
  "next_review_number db i =
     (let ns = map re_number (filter (\<lambda>r. re_repository_id r = i) (db_reviews db))
      in if ns = [] then 1 else Max (set ns) + 1)"

definition repo_create_review ::
  "uuid \<Rightarrow> time \<Rightarrow> core_db \<Rightarrow> uuid \<Rightarrow> uuid \<Rightarrow> string \<Rightarrow> review_db \<Rightarrow> (database_error + review) \<times> review_db"
where
  "repo_create_review i now core repository_id author_id target_branch db =
     (let n = next_review_number db repository_id;
          r = \<lparr>re_id = i, re_repository_id = repository_id, re_number = n, re_author_id = author_id,
               re_title = [], re_description = [], re_target_branch = target_branch, re_status = ReviewDraft,
               re_created_at = now, re_updated_at = now\<rparr>
      in if MAX_I32 < n \<or> 255 < char_count target_branch then (Inl OtherDbError, db)
         else (case checked reviews_ok (db_reviews db @ [r]) of
                 Inl e \<Rightarrow> (Inl e, db)
               | Inr rs \<Rightarrow>
                   if repo_exists core repository_id \<and> list_ex (\<lambda>u. us_id u = author_id) (db_users core)
                   then (Inr (bare_review r), db\<lparr>db_reviews := rs\<rparr>) else (Inl OtherDbError, db)))"

definition coalesce :: "'a option \<Rightarrow> 'a \<Rightarrow> 'a" where
  "coalesce new old = (case new of Some v \<Rightarrow> v | None \<Rightarrow> old)"

definition repo_update_review ::
  "time \<Rightarrow> uuid \<Rightarrow> review_status option \<Rightarrow> string option \<Rightarrow> string option \<Rightarrow> review_db
    \<Rightarrow> (database_error + unit) \<times> review_db"
where
  "repo_update_review now i status title description db =
     (if list_ex (\<lambda>r. re_id r = i) (db_reviews db) \<and> 255 < char_count (coalesce title [])
      then (Inl OtherDbError, db)
      else (Inr (), db\<lparr>db_reviews := update_where (\<lambda>r. re_id r = i)
             (\<lambda>r. r\<lparr>re_status := coalesce status (re_status r), re_title := coalesce title (re_title r),
                    re_description := coalesce description (re_description r), re_updated_at := now\<rparr>)
             (db_reviews db)\<rparr>))"

definition create_diff ::
  "uuid \<Rightarrow> time \<Rightarrow> uuid \<Rightarrow> int \<Rightarrow> string \<Rightarrow> review_db \<Rightarrow> (database_error + diff) \<times> review_db"
where
  "create_diff i now review_id position message db =
     (let d = \<lparr>df_id = i, df_review_id = review_id, df_position = position, df_message = message,
               df_status = DiffDraft, df_created_at = now, df_updated_at = now\<rparr>
      in (case checked diffs_ok (db_diffs db @ [d]) of
            Inl e \<Rightarrow> (Inl e, db)
          | Inr ds \<Rightarrow>
              if list_ex (\<lambda>r. re_id r = review_id) (db_reviews db)
              then (Inr (diff_row.extend d (diff.fields None)), db\<lparr>db_diffs := ds\<rparr>) else (Inl OtherDbError, db)))"

definition update_diff ::
  "time \<Rightarrow> uuid \<Rightarrow> diff_status option \<Rightarrow> string option \<Rightarrow> review_db \<Rightarrow> review_db"
where
  "update_diff now i status message db =
     db\<lparr>db_diffs := update_where (\<lambda>d. df_id d = i)
          (\<lambda>d. d\<lparr>df_status := coalesce status (df_status d), df_message := coalesce message (df_message d),
                 df_updated_at := now\<rparr>) (db_diffs db)\<rparr>"

definition create_revision ::
  "uuid \<Rightarrow> time \<Rightarrow> uuid \<Rightarrow> int \<Rightarrow> string \<Rightarrow> string \<Rightarrow> review_db \<Rightarrow> (database_error + revision) \<times> review_db"
where
  "create_revision i now diff_id number commit_hash parent_hash db =
     (let r = \<lparr>rv_id = i, rv_diff_id = diff_id, rv_number = number, rv_commit_hash = commit_hash,
               rv_parent_hash = parent_hash, rv_created_at = now\<rparr>
      in if 40 < char_count commit_hash \<or> 40 < char_count parent_hash then (Inl OtherDbError, db)
         else (case checked revisions_ok (db_revisions db @ [r]) of
                 Inl e \<Rightarrow> (Inl e, db)
               | Inr rs \<Rightarrow>
                   if list_ex (\<lambda>d. df_id d = diff_id) (db_diffs db)
                   then (Inr (revision_row.extend r (revision.fields None)), db\<lparr>db_revisions := rs\<rparr>)
                   else (Inl OtherDbError, db)))"

definition update_revision_sha ::
  "uuid \<Rightarrow> string \<Rightarrow> string \<Rightarrow> review_db \<Rightarrow> (database_error + unit) \<times> review_db"
where
  "update_revision_sha i commit_hash parent_hash db =
     (if list_ex (\<lambda>r. rv_id r = i) (db_revisions db) \<and> (40 < char_count commit_hash \<or> 40 < char_count parent_hash)
      then (Inl OtherDbError, db)
      else (Inr (), db\<lparr>db_revisions := update_where (\<lambda>r. rv_id r = i)
             (\<lambda>r. r\<lparr>rv_commit_hash := commit_hash, rv_parent_hash := parent_hash\<rparr>) (db_revisions db)\<rparr>))"

text \<open>The statement has run when the decoding of the row that it returns fails.\<close>

definition add_reviewer ::
  "uuid \<Rightarrow> time \<Rightarrow> core_db \<Rightarrow> uuid \<Rightarrow> uuid \<Rightarrow> review_db \<Rightarrow> (database_error + reviewer option) \<times> review_db"
where
  "add_reviewer i now core review_id reviewer_id db =
     (if list_ex (\<lambda>r. rr_review_id r = review_id \<and> rr_reviewer_id r = reviewer_id) (db_reviewers db)
      then (Inr None, db)
      else
        (let r = \<lparr>rr_id = i, rr_review_id = review_id, rr_reviewer_id = reviewer_id, rr_created_at = now\<rparr>
         in (case checked reviewers_ok (db_reviewers db @ [r]) of
               Inl e \<Rightarrow> (Inl e, db)
             | Inr rs \<Rightarrow>
                 if list_ex (\<lambda>r. re_id r = review_id) (db_reviews db) \<and>
                    list_ex (\<lambda>u. us_id u = reviewer_id) (db_users core)
                 then (map_sum id Some (reviewer_view core r), db\<lparr>db_reviewers := rs\<rparr>)
                 else (Inl OtherDbError, db))))"

definition remove_reviewer :: "uuid \<Rightarrow> uuid \<Rightarrow> review_db \<Rightarrow> bool \<times> review_db" where
  "remove_reviewer review_id reviewer_id db =
     (let hit = (\<lambda>r. rr_review_id r = review_id \<and> rr_reviewer_id r = reviewer_id)
      in (list_ex hit (db_reviewers db), db\<lparr>db_reviewers := filter (\<lambda>r. \<not> hit r) (db_reviewers db)\<rparr>))"

definition create_verdict ::
  "uuid \<Rightarrow> time \<Rightarrow> core_db \<Rightarrow> uuid \<Rightarrow> uuid \<Rightarrow> uuid \<Rightarrow> review_verdict_kind \<Rightarrow> review_db
    \<Rightarrow> (database_error + unit) \<times> review_db"
where
  "create_verdict i now core diff_id revision_id reviewer_id verdict db =
     (if i \<in> set (map vd_id (db_verdicts db)) then (Inl UniqueViolation, db)
      else if \<not> (list_ex (\<lambda>d. df_id d = diff_id) (db_diffs db) \<and>
                 list_ex (\<lambda>r. rv_id r = revision_id) (db_revisions db) \<and>
                 list_ex (\<lambda>u. us_id u = reviewer_id) (db_users core))
      then (Inl OtherDbError, db)
      else (Inr (), db\<lparr>db_verdicts := db_verdicts db @
             [\<lparr>vd_id = i, vd_diff_id = diff_id, vd_revision_id = revision_id, vd_reviewer_id = reviewer_id,
               vd_verdict = verdict, vd_created_at = now\<rparr>]\<rparr>))"

text \<open>A new comment, but for its identifier and its times.\<close>

record new_comment =
  nc_body :: string
  nc_parent_id :: "uuid option"
  nc_file_path :: "string option"
  nc_line_number_start :: "int option"
  nc_line_number_end :: "int option"
  nc_start_character :: "int option"
  nc_end_character :: "int option"
  nc_side :: "comment_side option"

definition repo_create_comment ::
  "uuid \<Rightarrow> time \<Rightarrow> core_db \<Rightarrow> uuid \<Rightarrow> uuid \<Rightarrow> uuid \<Rightarrow> uuid \<Rightarrow> new_comment \<Rightarrow> review_db
    \<Rightarrow> (database_error + review_comment) \<times> review_db"
where
  "repo_create_comment i now core review_id diff_id revision_id author_id n db =
     (let c = \<lparr>rc_id = i, rc_review_id = review_id, rc_diff_id = diff_id, rc_revision_id = revision_id,
               rc_author_id = author_id, rc_parent_id = nc_parent_id n, rc_body = nc_body n,
               rc_file_path = nc_file_path n, rc_line_number_start = nc_line_number_start n,
               rc_line_number_end = nc_line_number_end n, rc_start_character = nc_start_character n,
               rc_end_character = nc_end_character n, rc_side = nc_side n, rc_resolved = False,
               rc_created_at = now, rc_updated_at = now\<rparr>
      in if i \<in> set (map rc_id (db_comments db)) then (Inl UniqueViolation, db)
         else if 1000 < char_count (coalesce (nc_file_path n) []) \<or>
            \<not> (list_ex (\<lambda>r. re_id r = review_id) (db_reviews db) \<and> list_ex (\<lambda>d. df_id d = diff_id) (db_diffs db) \<and>
               list_ex (\<lambda>r. rv_id r = revision_id) (db_revisions db) \<and>
               list_ex (\<lambda>u. us_id u = author_id) (db_users core) \<and>
               (\<forall>p \<in> set_option (nc_parent_id n). list_ex (\<lambda>c. rc_id c = p) (db_comments db)))
         then (Inl OtherDbError, db)
         else (comment_view core c, db\<lparr>db_comments := db_comments db @ [c]\<rparr>))"

definition get_comment :: "core_db \<Rightarrow> uuid \<Rightarrow> review_db \<Rightarrow> database_error + review_comment option" where
  "get_comment core i db = fetch_optional (comment_view core) (filter (\<lambda>c. rc_id c = i) (db_comments db))"

definition repo_update_comment ::
  "time \<Rightarrow> core_db \<Rightarrow> uuid \<Rightarrow> string \<Rightarrow> review_db \<Rightarrow> (database_error + review_comment) \<times> review_db"
where
  "repo_update_comment now core i body db =
     (let db' = db\<lparr>db_comments := update_where (\<lambda>c. rc_id c = i)
                  (\<lambda>c. c\<lparr>rc_body := body, rc_updated_at := now\<rparr>) (db_comments db)\<rparr>
      in ((case find (\<lambda>c. rc_id c = i) (db_comments db') of
             None \<Rightarrow> Inl RowNotFound | Some c \<Rightarrow> comment_view core c), db'))"

definition resolve_comment :: "time \<Rightarrow> uuid \<Rightarrow> bool \<Rightarrow> review_db \<Rightarrow> review_db" where
  "resolve_comment now i resolved db =
     db\<lparr>db_comments := update_where (\<lambda>c. rc_id c = i \<or> rc_parent_id c = Some i)
          (\<lambda>c. c\<lparr>rc_resolved := resolved, rc_updated_at := now\<rparr>) (db_comments db)\<rparr>"

end
