(* ===== verification/OneTimeCode.thy ===== *)
theory OneTimeCode
  imports Base
begin

text \<open>
  What a store of one-time codes promises. A key (a user, or a user with an address) has a
  slot: empty, or the hash of the code that was issued last with the number of wrong guesses
  made so far and the time it expires. The login codes and the address codes both provide this
  interface (\<open>AuthStore\<close>); what follows from it is proved once, here.
\<close>

datatype verdict = Accepted | Rejected | Exhausted | NoCode

type_synonym code_slot = "(string \<times> nat \<times> time) option"

fun try_code :: "nat \<Rightarrow> time \<Rightarrow> string \<Rightarrow> code_slot \<Rightarrow> verdict \<times> code_slot" where
  "try_code budget now h None = (NoCode, None)"
| "try_code budget now h (Some (g, n, e)) =
     (if e \<le> now then (NoCode, Some (g, n, e))
      else if g = h then (Accepted, None)
      else if budget \<le> n + 1 then (Exhausted, None)
      else (Rejected, Some (g, n + 1, e)))"

definition guesses_left :: "nat \<Rightarrow> code_slot \<Rightarrow> nat" where
  "guesses_left budget sl = (case sl of None \<Rightarrow> 0 | Some (g, n, e) \<Rightarrow> budget - n)"

definition within_budget :: "nat \<Rightarrow> code_slot \<Rightarrow> bool" where
  "within_budget budget sl \<longleftrightarrow> (case sl of None \<Rightarrow> True | Some (g, n, e) \<Rightarrow> n < budget)"

lemma try_code_within: "within_budget b sl \<Longrightarrow> within_budget b (snd (try_code b now h sl))"
  by (induction b now h sl rule: try_code.induct) (auto simp: within_budget_def)

text \<open>A success needs a code and consumes it; nothing else makes a code.\<close>

definition codes_held :: "code_slot \<Rightarrow> nat" where
  "codes_held sl = (if sl = None then 0 else 1)"

lemma try_code_consumes:
  "codes_held (snd (try_code b now h sl)) + (if fst (try_code b now h sl) = Accepted then 1 else 0) \<le> codes_held sl"
  by (induction b now h sl rule: try_code.induct) (auto simp: codes_held_def)

text \<open>Every answered guess costs one of the guesses that are left.\<close>

lemma try_code_cost:
  assumes "within_budget b sl" "fst (try_code b now h sl) \<noteq> NoCode"
  shows "guesses_left b (snd (try_code b now h sl)) < guesses_left b sl"
  using assms by (induction b now h sl rule: try_code.induct)
    (auto simp: guesses_left_def within_budget_def split: if_splits)

lemma try_code_no_cost:
  "guesses_left b (snd (try_code b now h sl)) \<le> guesses_left b sl"
  by (induction b now h sl rule: try_code.induct) (auto simp: guesses_left_def)

text \<open>The events on a store, and the guesses for a key that were answered.\<close>

datatype ('k, 'a) code_event = Issue 'a 'k string time | Guess time 'k string

fun run_codes ::
  "('a \<Rightarrow> 'k \<Rightarrow> string \<Rightarrow> time \<Rightarrow> 's \<Rightarrow> (database_error + 'r) \<times> 's)
    \<Rightarrow> (time \<Rightarrow> 'k \<Rightarrow> string \<Rightarrow> 's \<Rightarrow> (database_error + verdict) \<times> 's)
    \<Rightarrow> ('k, 'a) code_event list \<Rightarrow> 's \<Rightarrow> ('k \<times> verdict) list \<times> 's"
where
  "run_codes issue attempt [] s = ([], s)"
| "run_codes issue attempt (Issue a k h e # es) s = run_codes issue attempt es (snd (issue a k h e s))"
| "run_codes issue attempt (Guess now k h # es) s =
     (let (v, s1) = attempt now k h s; (vs, s2) = run_codes issue attempt es s1
      in ((case v of Inl err \<Rightarrow> vs | Inr x \<Rightarrow> (k, x) # vs), s2))"

definition answered :: "'k \<Rightarrow> ('k \<times> verdict) list \<Rightarrow> nat" where
  "answered k vs = length (filter (\<lambda>(k', v). k' = k \<and> v \<noteq> NoCode) vs)"

definition accepted :: "'k \<Rightarrow> ('k \<times> verdict) list \<Rightarrow> nat" where
  "accepted k vs = length (filter (\<lambda>(k', v). k' = k \<and> v = Accepted) vs)"

definition issued :: "'k \<Rightarrow> ('k, 'a) code_event list \<Rightarrow> nat" where
  "issued k es = length (filter (\<lambda>ev. case ev of Issue a k' h e \<Rightarrow> k' = k | Guess n k' h \<Rightarrow> False) es)"

locale one_time_codes =
  fixes budget :: nat
    and inv :: "'s \<Rightarrow> bool"
    and slot :: "'s \<Rightarrow> 'k \<Rightarrow> code_slot"
    and issue :: "'a \<Rightarrow> 'k \<Rightarrow> string \<Rightarrow> time \<Rightarrow> 's \<Rightarrow> (database_error + 'r) \<times> 's"
    and attempt :: "time \<Rightarrow> 'k \<Rightarrow> string \<Rightarrow> 's \<Rightarrow> (database_error + verdict) \<times> 's"
  assumes budget_pos: "0 < budget"
    and inv_issue: "inv s \<Longrightarrow> inv (snd (issue a k h e s))"
    and inv_attempt: "inv s \<Longrightarrow> inv (snd (attempt now k h s))"
    and issue_ok: "inv s \<Longrightarrow> issue a k h e s = (Inr r, s') \<Longrightarrow> slot s' = (slot s)(k := Some (h, 0, e))"
    and issue_failed: "inv s \<Longrightarrow> issue a k h e s = (Inl err, s') \<Longrightarrow> slot s' = (slot s)(k := None)"
    and attempt_ok: "inv s \<Longrightarrow> attempt now k h s = (Inr v, s') \<Longrightarrow>
      v = fst (try_code budget now h (slot s k)) \<and>
      slot s' = (slot s)(k := snd (try_code budget now h (slot s k)))"
    and attempt_failed: "inv s \<Longrightarrow> attempt now k h s = (Inl err, s') \<Longrightarrow>
      fst (try_code budget now h (slot s k)) = Accepted \<and> slot s' = slot s"
begin

lemma slot_issue:
  "inv s \<Longrightarrow> slot (snd (issue a k h e s)) = (slot s)(k := Some (h, 0, e)) \<or>
   slot (snd (issue a k h e s)) = (slot s)(k := None)"
  by (cases "issue a k h e s"; cases "fst (issue a k h e s)") (auto dest: issue_ok issue_failed)

lemma run_budget:
  assumes "inv s" "\<And>k. within_budget budget (slot s k)"
  shows "answered k (fst (run_codes issue attempt es s))
    \<le> guesses_left budget (slot s k) + budget * issued k es"
  using assms
proof (induction es arbitrary: s)
  case (Cons ev es)
  show ?case
  proof (cases ev)
    case (Issue a k' h e)
    from slot_issue [OF \<open>inv s\<close>, of a k' h e] Cons.prems(2) budget_pos
    have w: "\<And>j. within_budget budget (slot (snd (issue a k' h e s)) j)"
      by (auto simp: within_budget_def)
    from slot_issue [OF \<open>inv s\<close>, of a k' h e]
    have "guesses_left budget (slot (snd (issue a k' h e s)) k) \<le>
        (if k' = k then budget else guesses_left budget (slot s k))"
      by (auto simp: guesses_left_def)
    with Cons.IH [OF inv_issue [OF \<open>inv s\<close>] w] Issue show ?thesis
      by (fastforce simp: issued_def split: if_splits)
  next
    case (Guess now k' h)
    obtain v s1 where at: "attempt now k' h s = (v, s1)" by (cases "attempt now k' h s")
    have i: "inv s1" using inv_attempt [OF \<open>inv s\<close>, of now k' h] at by simp
    obtain vs s2 where r: "run_codes issue attempt es s1 = (vs, s2)"
      by (cases "run_codes issue attempt es s1")
    show ?thesis
    proof (cases v)
      case (Inl err)
      then have "slot s1 = slot s" using attempt_failed [OF \<open>inv s\<close>] at by blast
      with Cons.IH [OF i] Cons.prems at r Inl Guess show ?thesis by (simp add: issued_def)
    next
      case (Inr x)
      let ?t = "try_code budget now h (slot s k')"
      have x: "x = fst ?t" "slot s1 = (slot s)(k' := snd ?t)"
        using attempt_ok [OF \<open>inv s\<close>] at Inr by blast+
      have "\<And>j. within_budget budget (slot s1 j)"
        using Cons.prems(2) by (simp add: x try_code_within)
      with Cons.IH [OF i]
      have IH: "answered k vs \<le> guesses_left budget (slot s1 k) + budget * issued k es"
        using r by simp
      have "guesses_left budget (slot s1 k) + (if k' = k \<and> x \<noteq> NoCode then 1 else 0)
          \<le> guesses_left budget (slot s k)"
        using try_code_cost [OF Cons.prems(2) [of k'], of now h]
          try_code_no_cost [of budget now h "slot s k'"]
        by (auto simp: x)
      with IH at r Inr Guess show ?thesis by (auto simp: answered_def issued_def)
    qed
  qed
qed (simp add: answered_def)

text \<open>No code succeeds twice.\<close>

lemma run_accepted:
  assumes "inv s"
  shows "accepted k (fst (run_codes issue attempt es s)) \<le> codes_held (slot s k) + issued k es"
  using assms
proof (induction es arbitrary: s)
  case (Cons ev es)
  show ?case
  proof (cases ev)
    case (Issue a k' h e)
    have "codes_held (slot (snd (issue a k' h e s)) k) \<le> (if k' = k then 1 else codes_held (slot s k))"
      using slot_issue [OF \<open>inv s\<close>, of a k' h e] by (elim disjE) (simp_all add: codes_held_def)
    with Cons.IH [OF inv_issue [OF \<open>inv s\<close>], of a k' h e] Issue show ?thesis
      by (fastforce simp: issued_def split: if_splits)
  next
    case (Guess now k' h)
    obtain v s1 where at: "attempt now k' h s = (v, s1)" by (cases "attempt now k' h s")
    obtain vs s2 where r: "run_codes issue attempt es s1 = (vs, s2)"
      by (cases "run_codes issue attempt es s1")
    have IH: "accepted k vs \<le> codes_held (slot s1 k) + issued k es"
      using Cons.IH [of s1] inv_attempt [OF \<open>inv s\<close>, of now k' h] at r by simp
    show ?thesis
    proof (cases v)
      case (Inl err)
      then have "slot s1 = slot s" using attempt_failed [OF \<open>inv s\<close>] at by blast
      with IH at r Inl Guess show ?thesis by (simp add: issued_def)
    next
      case (Inr x)
      have "x = fst (try_code budget now h (slot s k'))"
        "slot s1 = (slot s)(k' := snd (try_code budget now h (slot s k')))"
        using attempt_ok [OF \<open>inv s\<close>] at Inr by blast+
      then have "codes_held (slot s1 k) + (if k' = k \<and> x = Accepted then 1 else 0) \<le> codes_held (slot s k)"
        using try_code_consumes [of budget now h "slot s k'"] by auto
      with IH at r Inr Guess show ?thesis by (auto simp: accepted_def issued_def)
    qed
  qed
qed (simp add: accepted_def)

text \<open>An accepted or an exhausted code is gone until the next one is issued.\<close>

lemma dead_code:
  assumes "inv s" "slot s k = None" "issued k es = 0"
  shows "answered k (fst (run_codes issue attempt es s)) = 0"
  using assms
proof (induction es arbitrary: s)
  case (Cons ev es)
  show ?case
  proof (cases ev)
    case (Issue a k' h e)
    with Cons.prems have "k' \<noteq> k" "issued k es = 0" by (auto simp: issued_def split: if_splits)
    with Cons Issue slot_issue [OF \<open>inv s\<close>, of a k' h e] show ?thesis by (auto simp: inv_issue)
  next
    case (Guess now k' h)
    obtain v s1 where at: "attempt now k' h s = (v, s1)" by (cases "attempt now k' h s")
    have i: "inv s1" using inv_attempt [OF \<open>inv s\<close>, of now k' h] at by simp
    have n: "issued k es = 0" using Cons.prems Guess by (simp add: issued_def)
    have "slot s1 k = None \<and> (\<forall>x. v = Inr x \<longrightarrow> k' = k \<longrightarrow> x = NoCode)"
      using attempt_ok [OF \<open>inv s\<close>] attempt_failed [OF \<open>inv s\<close>] at Cons.prems(2)
      by (cases v) fastforce+
    with Cons.IH [OF i] n at Guess show ?thesis
      by (cases "run_codes issue attempt es s1"; cases v) (auto simp: answered_def)
  qed
qed (simp add: answered_def)

end

text \<open>\<open>ORDER BY created_at DESC LIMIT 1\<close>.\<close>

definition latest :: "('r \<Rightarrow> time) \<Rightarrow> 'r list \<Rightarrow> 'r option" where
  "latest created rows = (case sort_key (\<lambda>r. - created r) rows of [] \<Rightarrow> None | r # _ \<Rightarrow> Some r)"

lemma latest_None [simp]: "latest f rows = None \<longleftrightarrow> rows = []"
proof -
  have "sort_key (\<lambda>r. - f r) rows = [] \<longleftrightarrow> rows = []"
    by (metis length_0_conv length_sort)
  then show ?thesis by (auto simp: latest_def split: list.splits)
qed

lemma latest_Some: "latest f rows = Some r \<Longrightarrow> r \<in> set rows"
  by (metis (no_types, lifting) latest_def list.set_intros(1) list.case(1) list.case(2) list.exhaust
      option.discI option.inject set_sort)

text \<open>A code that a unique condition finds is the latest one.\<close>

lemma latest_unique:
  assumes "\<And>x y. x \<in> set xs \<Longrightarrow> y \<in> set xs \<Longrightarrow> P x \<Longrightarrow> P y \<Longrightarrow> x = y"
  shows "latest f (filter (\<lambda>x. P x \<and> Q x) xs) =
    (case find P xs of None \<Rightarrow> None | Some x \<Rightarrow> if Q x then Some x else None)"
proof (cases "latest f (filter (\<lambda>x. P x \<and> Q x) xs)")
  case None
  then have "filter (\<lambda>x. P x \<and> Q x) xs = []" by simp
  then have "\<And>x. x \<in> set xs \<Longrightarrow> P x \<Longrightarrow> \<not> Q x" by (auto simp: filter_empty_conv)
  with None show ?thesis by (auto split: option.splits dest!: find_SomeD)
next
  case (Some c)
  then have c: "c \<in> set xs" "P c" "Q c" using latest_Some by fastforce+
  with assms have "find P xs = Some c" by (subst find_unique_iff) blast+
  with Some c show ?thesis by simp
qed

section \<open>Tables of codes\<close>

text \<open>
  A table whose rows have an identifier and belong to a key while they are unused. At most one
  row of a key is unused.
\<close>

definition single_code :: "('r \<Rightarrow> uuid) \<Rightarrow> ('k \<Rightarrow> 'r \<Rightarrow> bool) \<Rightarrow> 'r list \<Rightarrow> bool" where
  "single_code ident unused xs \<longleftrightarrow> distinct (map ident xs) \<and>
     (\<forall>c \<in> set xs. \<forall>d \<in> set xs. \<forall>u. unused u c \<longrightarrow> unused u d \<longrightarrow> c = d)"

locale code_table =
  fixes ident :: "'r \<Rightarrow> uuid"
    and unused :: "'k \<Rightarrow> 'r \<Rightarrow> bool"
    and mark :: "time \<Rightarrow> 'r \<Rightarrow> 'r"
  assumes ident_mark: "ident (mark now r) = ident r"
    and unused_mark: "\<not> unused u (mark now r)"
    and unused_key: "unused u r \<Longrightarrow> unused v r \<longleftrightarrow> v = u"
begin

lemma mark_find:
  "find (unused v) (update_where (unused u) (mark now) xs) = (if v = u then None else find (unused v) xs)"
  by (induction xs) (auto simp: unused_key unused_mark)

lemma mark_members:
  "c \<in> set (update_where (unused u) (mark now) xs) \<Longrightarrow> unused v c \<Longrightarrow> c \<in> set xs \<and> v \<noteq> u"
  by (auto simp: set_update_where unused_mark unused_key split: if_splits)

lemma mark_single:
  assumes "single_code ident unused xs"
  shows "single_code ident unused (update_where (unused u) (mark now) xs)"
proof -
  have "map ident (update_where (unused u) (mark now) xs) = map ident xs"
    by (rule map_key_update_where) (rule ident_mark)
  then show ?thesis
    using assms unfolding single_code_def by (metis mark_members)
qed

lemma issue_single:
  assumes "single_code ident unused xs" "\<And>v. unused v c \<longleftrightarrow> v = u"
    and "distinct (map ident (update_where (unused u) (mark now) xs @ [c]))"
  shows "single_code ident unused (update_where (unused u) (mark now) xs @ [c])"
proof -
  have "\<not> unused u d" if "d \<in> set (update_where (unused u) (mark now) xs)" for d
    using mark_members [OF that, of u] by blast
  with mark_single [OF assms(1), of u now] assms(2,3) show ?thesis
    by (auto simp: single_code_def)
qed

lemma update_code:
  assumes "single_code ident unused xs" "find (unused u) xs = Some c"
    and "\<And>d. ident (f d) = ident d" and "\<And>v. unused v (f c) \<Longrightarrow> v = u"
  shows "single_code ident unused (update_where (\<lambda>d. ident d = ident c) f xs)"
    and "find (unused v) (update_where (\<lambda>d. ident d = ident c) f xs) =
      (if v = u then (if unused u (f c) then Some (f c) else None) else find (unused v) xs)"
proof -
  have d: "distinct (map ident xs)" and
    one: "\<And>x y v. x \<in> set xs \<Longrightarrow> y \<in> set xs \<Longrightarrow> unused v x \<Longrightarrow> unused v y \<Longrightarrow> x = y"
    using assms(1) by (auto simp: single_code_def)
  have c: "c \<in> set xs" "unused u c" using find_SomeD [OF assms(2)] by auto
  note m = update_at_key_set [OF d c(1), where f = f]
  have k: "map ident (update_where (\<lambda>d. ident d = ident c) f xs) = map ident xs"
    by (rule map_key_update_where) (rule assms(3))
  have new: "x = f c" if "x = f c \<or> x \<in> set xs \<and> x \<noteq> c" "unused u x" for x
    using that one [OF _ c(1) _ c(2)] by blast
  have same: "x = y" if "x = f c \<or> x \<in> set xs \<and> x \<noteq> c" "y = f c \<or> y \<in> set xs \<and> y \<noteq> c"
    "unused v x" "unused v y" for x y v
  proof (cases "v = u")
    case True
    with new [of x] new [of y] that show ?thesis by blast
  next
    case False
    with assms(4) that have "x \<in> set xs" "y \<in> set xs" by blast+
    with one that show ?thesis by blast
  qed
  show "single_code ident unused (update_where (\<lambda>d. ident d = ident c) f xs)"
    unfolding single_code_def k
    by (intro conjI ballI allI impI) (rule d, rule same, (unfold m, assumption+))
  show "find (unused v) (update_where (\<lambda>d. ident d = ident c) f xs) =
      (if v = u then (if unused u (f c) then Some (f c) else None) else find (unused v) xs)"
  proof (cases "v = u")
    case True
    then show ?thesis using find_update_at [where P = "unused u", OF d c(1,2) one] by simp
  next
    case False
    then have "\<not> unused v c" "\<not> unused v (f c)" using c(2) assms(4) by (auto simp: unused_key)
    with False find_update_at_other [OF d c(1), of "unused v" f] show ?thesis by simp
  qed
qed

lemma latest_active:
  assumes "single_code ident unused xs"
  shows "latest created (filter (\<lambda>c. unused u c \<and> live c) xs) =
    (case find (unused u) xs of None \<Rightarrow> None | Some c \<Rightarrow> if live c then Some c else None)"
  by (rule latest_unique) (use assms in \<open>auto simp: single_code_def\<close>)

end

end
