(* ===== verification/AuthStore.thy ===== *)
theory AuthStore
  imports UserStore OneTimeCode
begin

text \<open>
  The tables of the \<open>auth\<close> schema, the structures of \<open>model/auth\<close> and the statements of
  \<open>repository/auth/session.rs\<close>, \<open>email_verification.rs\<close>, \<open>token.rs\<close> and \<open>device.rs\<close>.
  Foreign keys to \<open>core.users\<close> read the \<open>core\<close> tables.
\<close>

section \<open>Structures (model/auth)\<close>

record auth_code =
  ac_id :: uuid
  ac_user_id :: uuid
  ac_code_hash :: string
  ac_attempt_count :: nat
  ac_created_at :: time
  ac_expires_at :: time
  ac_used_at :: "time option"

record session =
  ss_id :: uuid
  ss_user_id :: uuid
  ss_refresh_token_hash :: string
  ss_refresh_token_family :: uuid
  ss_user_agent :: "string option"
  ss_ip_address :: "string option"
  ss_created_at :: time
  ss_expires_at :: time
  ss_revoked_at :: "time option"

record email_verification_code =
  ec_id :: uuid
  ec_user_id :: uuid
  ec_email :: string
  ec_code_hash :: string
  ec_attempt_count :: nat
  ec_created_at :: time
  ec_expires_at :: time
  ec_used_at :: "time option"

datatype token_type = PersonalToken | RunnerToken

fun token_prefix :: "token_type \<Rightarrow> string" where
  "token_prefix PersonalToken = ''gdp_''"
| "token_prefix RunnerToken = ''gdr_''"

definition token_type_try_from :: "string \<Rightarrow> input_error + token_type" where
  "token_type_try_from s =
     (if s = ''personal'' then Inr PersonalToken
      else if s = ''runner'' then Inr RunnerToken
      else Inl (InputError ''token_type'' (''Invalid token type: '' @ s)))"

fun token_type_into_string :: "token_type \<Rightarrow> string" where
  "token_type_into_string PersonalToken = ''personal''"
| "token_type_into_string RunnerToken = ''runner''"

record access_token =
  at_id :: uuid
  at_principal_id :: uuid
  at_client_id :: string
  at_token_hash :: string
  at_token_type :: token_type
  at_created_at :: time
  at_last_used_at :: "time option"

datatype device_status = DevicePending | DeviceAuthorized | DeviceExpired

record device_authorization =
  da_id :: uuid
  da_device_code_hash :: string
  da_user_code_hash :: string
  da_client_id :: string
  da_user_id :: "uuid option"
  da_status :: device_status
  da_created_at :: time
  da_expires_at :: time

record auth_db =
  db_auth_codes :: "auth_code list"
  db_sessions :: "session list"
  db_email_codes :: "email_verification_code list"
  db_tokens :: "access_token list"
  db_devices :: "device_authorization list"

definition auth_codes_ok :: "auth_code list \<Rightarrow> bool" where
  "auth_codes_ok cs \<longleftrightarrow> distinct (map ac_id cs) \<and> distinct (map ac_code_hash cs)"

definition sessions_ok :: "session list \<Rightarrow> bool" where
  "sessions_ok ss \<longleftrightarrow> distinct (map ss_id ss) \<and> distinct (map ss_refresh_token_hash ss)"

definition email_codes_ok :: "email_verification_code list \<Rightarrow> bool" where
  "email_codes_ok cs \<longleftrightarrow> distinct (map ec_id cs) \<and> distinct (map ec_code_hash cs)"

definition tokens_ok :: "access_token list \<Rightarrow> bool" where
  "tokens_ok ts \<longleftrightarrow> distinct (map at_id ts) \<and> distinct (map at_token_hash ts)"

definition devices_ok :: "device_authorization list \<Rightarrow> bool" where
  "devices_ok ds \<longleftrightarrow> distinct (map da_id ds) \<and> distinct (map da_device_code_hash ds)
     \<and> distinct (map da_user_code_hash ds)"

lemmas auth_ok_defs =
  auth_codes_ok_def sessions_ok_def email_codes_ok_def tokens_ok_def devices_ok_def

text \<open>\<open>REFERENCES core.users(id)\<close>.\<close>

definition user_exists :: "core_db \<Rightarrow> uuid \<Rightarrow> bool" where
  "user_exists db u \<longleftrightarrow> list_ex (\<lambda>r. us_id r = u) (db_users db)"

section \<open>Login codes and sessions (repository/auth/session.rs)\<close>

datatype auth_code_verification = AuthSuccess | AuthInvalid | AuthAttemptsExhausted | AuthNoActiveCode

definition create_auth_code ::
  "core_db \<Rightarrow> uuid \<Rightarrow> time \<Rightarrow> uuid \<Rightarrow> string \<Rightarrow> time \<Rightarrow> auth_db \<Rightarrow> (database_error + auth_code) \<times> auth_db"
where
  "create_auth_code core i now user_id code_hash expires_at db =
     (let c = \<lparr>ac_id = i, ac_user_id = user_id, ac_code_hash = code_hash, ac_attempt_count = 0,
               ac_created_at = now, ac_expires_at = expires_at, ac_used_at = None\<rparr>
      in (case checked auth_codes_ok (db_auth_codes db @ [c]) of
            Inl e \<Rightarrow> (Inl e, db)
          | Inr cs \<Rightarrow>
              if user_exists core user_id then (Inr c, db\<lparr>db_auth_codes := cs\<rparr>) else (Inl OtherDbError, db)))"

definition get_auth_code :: "uuid \<Rightarrow> string \<Rightarrow> auth_db \<Rightarrow> auth_code option" where
  "get_auth_code user_id code_hash db =
     find (\<lambda>c. ac_user_id c = user_id \<and> ac_code_hash c = code_hash) (db_auth_codes db)"

definition mark_auth_code_used :: "time \<Rightarrow> uuid \<Rightarrow> auth_db \<Rightarrow> auth_db" where
  "mark_auth_code_used now i db =
     db\<lparr>db_auth_codes := update_where (\<lambda>c. ac_id c = i) (\<lambda>c. c\<lparr>ac_used_at := Some now\<rparr>) (db_auth_codes db)\<rparr>"

definition invalidate_auth_codes :: "time \<Rightarrow> uuid \<Rightarrow> auth_db \<Rightarrow> auth_db" where
  "invalidate_auth_codes now user_id db =
     db\<lparr>db_auth_codes := update_where (\<lambda>c. ac_user_id c = user_id \<and> ac_used_at c = None)
          (\<lambda>c. c\<lparr>ac_used_at := Some now\<rparr>) (db_auth_codes db)\<rparr>"

definition active_code :: "time \<Rightarrow> uuid \<Rightarrow> auth_code \<Rightarrow> bool" where
  "active_code now user_id c \<longleftrightarrow> ac_user_id c = user_id \<and> ac_used_at c = None \<and> now < ac_expires_at c"

definition verify_and_consume_auth_code ::
  "time \<Rightarrow> uuid \<Rightarrow> string \<Rightarrow> nat \<Rightarrow> auth_db \<Rightarrow> auth_code_verification \<times> auth_db"
where
  "verify_and_consume_auth_code now user_id code_hash max_attempts db =
     (case latest ac_created_at (filter (active_code now user_id) (db_auth_codes db)) of
        None \<Rightarrow> (AuthNoActiveCode, db)
      | Some code \<Rightarrow>
          let set_row = (\<lambda>f. db\<lparr>db_auth_codes := update_where (\<lambda>c. ac_id c = ac_id code) f (db_auth_codes db)\<rparr>);
              next_count = ac_attempt_count code + 1
          in if ac_code_hash code = code_hash then (AuthSuccess, set_row (\<lambda>c. c\<lparr>ac_used_at := Some now\<rparr>))
             else if max_attempts \<le> next_count
             then (AuthAttemptsExhausted, set_row (\<lambda>c. c\<lparr>ac_attempt_count := next_count, ac_used_at := Some now\<rparr>))
             else (AuthInvalid, set_row (\<lambda>c. c\<lparr>ac_attempt_count := next_count\<rparr>)))"

definition create_session ::
  "core_db \<Rightarrow> uuid \<Rightarrow> time \<Rightarrow> uuid \<Rightarrow> string \<Rightarrow> uuid \<Rightarrow> string option \<Rightarrow> string option \<Rightarrow> time
    \<Rightarrow> auth_db \<Rightarrow> (database_error + session) \<times> auth_db"
where
  "create_session core i now user_id token_hash family agent ip expires_at db =
     (let s = \<lparr>ss_id = i, ss_user_id = user_id, ss_refresh_token_hash = token_hash,
               ss_refresh_token_family = family, ss_user_agent = agent, ss_ip_address = ip,
               ss_created_at = now, ss_expires_at = expires_at, ss_revoked_at = None\<rparr>
      in (case checked sessions_ok (db_sessions db @ [s]) of
            Inl e \<Rightarrow> (Inl e, db)
          | Inr ss \<Rightarrow>
              if user_exists core user_id then (Inr s, db\<lparr>db_sessions := ss\<rparr>) else (Inl OtherDbError, db)))"

definition get_session_by_refresh_hash :: "string \<Rightarrow> auth_db \<Rightarrow> session option" where
  "get_session_by_refresh_hash h db = find (\<lambda>s. ss_refresh_token_hash s = h) (db_sessions db)"

definition revoke_session :: "time \<Rightarrow> uuid \<Rightarrow> auth_db \<Rightarrow> auth_db" where
  "revoke_session now i db =
     db\<lparr>db_sessions := update_where (\<lambda>s. ss_id s = i) (\<lambda>s. s\<lparr>ss_revoked_at := Some now\<rparr>) (db_sessions db)\<rparr>"

definition revoke_sessions_by_family :: "time \<Rightarrow> uuid \<Rightarrow> auth_db \<Rightarrow> auth_db" where
  "revoke_sessions_by_family now family db =
     db\<lparr>db_sessions := update_where (\<lambda>s. ss_refresh_token_family s = family \<and> ss_revoked_at s = None)
          (\<lambda>s. s\<lparr>ss_revoked_at := Some now\<rparr>) (db_sessions db)\<rparr>"

definition revoke_sessions_by_user :: "time \<Rightarrow> uuid \<Rightarrow> auth_db \<Rightarrow> auth_db" where
  "revoke_sessions_by_user now user_id db =
     db\<lparr>db_sessions := update_where (\<lambda>s. ss_user_id s = user_id \<and> ss_revoked_at s = None)
          (\<lambda>s. s\<lparr>ss_revoked_at := Some now\<rparr>) (db_sessions db)\<rparr>"

section \<open>Address codes (repository/auth/email_verification.rs)\<close>

datatype email_code_verification =
  EmailSuccess user_email | EmailInvalid | EmailAttemptsExhausted | EmailNoActiveCode

definition create_code ::
  "core_db \<Rightarrow> uuid \<Rightarrow> time \<Rightarrow> uuid \<Rightarrow> string \<Rightarrow> string \<Rightarrow> time
    \<Rightarrow> auth_db \<Rightarrow> (database_error + email_verification_code) \<times> auth_db"
where
  "create_code core i now user_id email code_hash expires_at db =
     (let c = \<lparr>ec_id = i, ec_user_id = user_id, ec_email = email, ec_code_hash = code_hash,
               ec_attempt_count = 0, ec_created_at = now, ec_expires_at = expires_at, ec_used_at = None\<rparr>
      in (case checked email_codes_ok (db_email_codes db @ [c]) of
            Inl e \<Rightarrow> (Inl e, db)
          | Inr cs \<Rightarrow>
              if user_exists core user_id then (Inr c, db\<lparr>db_email_codes := cs\<rparr>) else (Inl OtherDbError, db)))"

definition get_code_by_hash :: "string \<Rightarrow> auth_db \<Rightarrow> email_verification_code option" where
  "get_code_by_hash h db = find (\<lambda>c. ec_code_hash c = h) (db_email_codes db)"

definition invalidate_codes_for_email :: "time \<Rightarrow> uuid \<Rightarrow> string \<Rightarrow> auth_db \<Rightarrow> auth_db" where
  "invalidate_codes_for_email now user_id email db =
     db\<lparr>db_email_codes :=
          update_where (\<lambda>c. ec_user_id c = user_id \<and> ec_email c = email \<and> ec_used_at c = None)
            (\<lambda>c. c\<lparr>ec_used_at := Some now\<rparr>) (db_email_codes db)\<rparr>"

definition active_email_code :: "time \<Rightarrow> uuid \<Rightarrow> string \<Rightarrow> email_verification_code \<Rightarrow> bool" where
  "active_email_code now user_id email c \<longleftrightarrow>
     ec_user_id c = user_id \<and> ec_email c = email \<and> ec_used_at c = None \<and> now < ec_expires_at c"

text \<open>
  The insert of the verified address: \<open>ON CONFLICT (user_id, email) DO UPDATE\<close>. Another user's
  verified row for the address is a unique violation.
\<close>

definition upsert_verified ::
  "uuid \<Rightarrow> time \<Rightarrow> uuid \<Rightarrow> string \<Rightarrow> core_db \<Rightarrow> (database_error + user_email) \<times> core_db"
where
  "upsert_verified k now user_id email core =
     (let mine = (\<lambda>e. em_user_id e = user_id \<and> em_email e = email);
          es = (if list_ex mine (db_emails core)
                then update_where mine (set_verified now) (db_emails core)
                else db_emails core @
                  [\<lparr>em_id = k, em_user_id = user_id, em_email = email, em_is_primary = False,
                    em_is_verified = True, em_created_at = now, em_verified_at = Some now\<rparr>])
      in (case checked emails_ok es of
            Inl e \<Rightarrow> (Inl e, core)
          | Inr es \<Rightarrow>
              if \<not> user_exists core user_id then (Inl OtherDbError, core)
              else (case find mine es of
                      None \<Rightarrow> (Inl RowNotFound, core)
                    | Some e \<Rightarrow> (Inr (user_email.truncate e), put_emails es core))))"

text \<open>One transaction: a failing insert also undoes the update of the code.\<close>

definition verify_and_consume_email_code ::
  "uuid \<Rightarrow> time \<Rightarrow> uuid \<Rightarrow> string \<Rightarrow> string \<Rightarrow> nat \<Rightarrow> core_db \<times> auth_db
    \<Rightarrow> (database_error + email_code_verification) \<times> core_db \<times> auth_db"
where
  "verify_and_consume_email_code k now user_id email code_hash max_attempts = (\<lambda>(core, db).
     (case latest ec_created_at (filter (active_email_code now user_id email) (db_email_codes db)) of
        None \<Rightarrow> (Inr EmailNoActiveCode, core, db)
      | Some code \<Rightarrow>
          let set_row = (\<lambda>f. db\<lparr>db_email_codes := update_where (\<lambda>c. ec_id c = ec_id code) f (db_email_codes db)\<rparr>);
              next_count = ec_attempt_count code + 1
          in if ec_code_hash code \<noteq> code_hash then
               (if max_attempts \<le> next_count
                then (Inr EmailAttemptsExhausted, core,
                      set_row (\<lambda>c. c\<lparr>ec_attempt_count := next_count, ec_used_at := Some now\<rparr>))
                else (Inr EmailInvalid, core, set_row (\<lambda>c. c\<lparr>ec_attempt_count := next_count\<rparr>)))
             else
               (case upsert_verified k now user_id email core of
                  (Inl e, _) \<Rightarrow> (Inl e, core, db)
                | (Inr row, core') \<Rightarrow>
                    (Inr (EmailSuccess row), core', set_row (\<lambda>c. c\<lparr>ec_used_at := Some now\<rparr>)))))"

section \<open>Access tokens (repository/auth/token.rs)\<close>

definition create_token ::
  "uuid \<Rightarrow> time \<Rightarrow> uuid \<Rightarrow> string \<Rightarrow> string \<Rightarrow> token_type \<Rightarrow> auth_db \<Rightarrow> (database_error + access_token) \<times> auth_db"
where
  "create_token i now principal_id client_id token_hash ty db =
     (let t = \<lparr>at_id = i, at_principal_id = principal_id, at_client_id = client_id,
               at_token_hash = token_hash, at_token_type = ty, at_created_at = now, at_last_used_at = None\<rparr>
      in (case checked tokens_ok (db_tokens db @ [t]) of
            Inl e \<Rightarrow> (Inl e, db) | Inr ts \<Rightarrow> (Inr t, db\<lparr>db_tokens := ts\<rparr>)))"

definition get_token_by_hash :: "string \<Rightarrow> auth_db \<Rightarrow> access_token option" where
  "get_token_by_hash h db = find (\<lambda>t. at_token_hash t = h) (db_tokens db)"

definition touch_token :: "time \<Rightarrow> uuid \<Rightarrow> auth_db \<Rightarrow> auth_db" where
  "touch_token now i db =
     db\<lparr>db_tokens := update_where (\<lambda>t. at_id t = i) (\<lambda>t. t\<lparr>at_last_used_at := Some now\<rparr>) (db_tokens db)\<rparr>"

definition delete_token :: "uuid \<Rightarrow> auth_db \<Rightarrow> auth_db" where
  "delete_token i db = db\<lparr>db_tokens := filter (\<lambda>t. at_id t \<noteq> i) (db_tokens db)\<rparr>"

definition delete_token_by_principal :: "uuid \<Rightarrow> auth_db \<Rightarrow> auth_db" where
  "delete_token_by_principal principal_id db =
     db\<lparr>db_tokens := filter (\<lambda>t. at_principal_id t \<noteq> principal_id) (db_tokens db)\<rparr>"

section \<open>Device authorizations (repository/auth/device.rs)\<close>

definition create_device_authorization ::
  "uuid \<Rightarrow> time \<Rightarrow> string \<Rightarrow> string \<Rightarrow> string \<Rightarrow> time \<Rightarrow> auth_db
    \<Rightarrow> (database_error + device_authorization) \<times> auth_db"
where
  "create_device_authorization i now device_hash user_hash client_id expires_at db =
     (let d = \<lparr>da_id = i, da_device_code_hash = device_hash, da_user_code_hash = user_hash,
               da_client_id = client_id, da_user_id = None, da_status = DevicePending,
               da_created_at = now, da_expires_at = expires_at\<rparr>
      in (case checked devices_ok (db_devices db @ [d]) of
            Inl e \<Rightarrow> (Inl e, db) | Inr ds \<Rightarrow> (Inr d, db\<lparr>db_devices := ds\<rparr>)))"

definition get_device_by_device_code_hash :: "string \<Rightarrow> auth_db \<Rightarrow> device_authorization option" where
  "get_device_by_device_code_hash h db = find (\<lambda>d. da_device_code_hash d = h) (db_devices db)"

definition get_device_by_user_code_hash :: "string \<Rightarrow> auth_db \<Rightarrow> device_authorization option" where
  "get_device_by_user_code_hash h db = find (\<lambda>d. da_user_code_hash d = h) (db_devices db)"

definition expire_device_authorization :: "uuid \<Rightarrow> auth_db \<Rightarrow> auth_db" where
  "expire_device_authorization i db =
     db\<lparr>db_devices := update_where (\<lambda>d. da_id d = i) (\<lambda>d. d\<lparr>da_status := DeviceExpired\<rparr>) (db_devices db)\<rparr>"

definition authorize_device_row ::
  "core_db \<Rightarrow> time \<Rightarrow> string \<Rightarrow> uuid \<Rightarrow> auth_db \<Rightarrow> (database_error + device_authorization option) \<times> auth_db"
where
  "authorize_device_row core now user_hash user_id db =
     (let hit = (\<lambda>d. da_user_code_hash d = user_hash \<and> da_status d = DevicePending \<and> now < da_expires_at d);
          set_user = (\<lambda>d. d\<lparr>da_status := DeviceAuthorized, da_user_id := Some user_id\<rparr>)
      in (case find hit (db_devices db) of
            None \<Rightarrow> (Inr None, db)
          | Some d \<Rightarrow>
              if user_exists core user_id
              then (Inr (Some (set_user d)), db\<lparr>db_devices := update_where hit set_user (db_devices db)\<rparr>)
              else (Inl OtherDbError, db)))"

text \<open>
  \<open>deny_device\<close> writes the literal \<open>'denied'\<close>, which is not a value of the enumeration
  \<open>auth.device_authorization_status\<close>: the database rejects the statement as it is parsed.
\<close>

definition sql_device_status :: "string \<Rightarrow> device_status option" where
  "sql_device_status s =
     (if s = ''pending'' then Some DevicePending
      else if s = ''authorized'' then Some DeviceAuthorized
      else if s = ''expired'' then Some DeviceExpired else None)"

definition deny_device ::
  "core_db \<Rightarrow> time \<Rightarrow> string \<Rightarrow> uuid \<Rightarrow> auth_db \<Rightarrow> (database_error + device_authorization option) \<times> auth_db"
where
  "deny_device core now user_hash user_id db =
     (case sql_device_status ''denied'' of
        None \<Rightarrow> (Inl OtherDbError, db)
      | Some st \<Rightarrow>
          let hit = (\<lambda>d. da_user_code_hash d = user_hash \<and> da_status d = DevicePending \<and> now < da_expires_at d);
              set_user = (\<lambda>d. d\<lparr>da_status := st, da_user_id := Some user_id\<rparr>)
          in (case find hit (db_devices db) of
                None \<Rightarrow> (Inr None, db)
              | Some d \<Rightarrow>
                  if user_exists core user_id
                  then (Inr (Some (set_user d)), db\<lparr>db_devices := update_where hit set_user (db_devices db)\<rparr>)
                  else (Inl OtherDbError, db)))"

end
