(* ===== verification/TokenClient.thy ===== *)
theory TokenClient
  imports AuthStore
begin

text \<open>
  \<open>client/token.rs\<close>: the opaque codes, the access tokens with their checksum, the signed OAuth
  state and the claims of the JWTs. Random bytes are arguments. The crates that encode, hash and
  sign (base62, base64, crc32fast, sha2, hmac, jsonwebtoken, serde\_json) are the fields of
  \<open>token_lib\<close>; \<open>token_lib_ok\<close> states what the code relies on.
\<close>

section \<open>Text slices of the standard library\<close>

definition strip_prefix :: "string \<Rightarrow> string \<Rightarrow> string option" where
  "strip_prefix p s = (if take (length p) s = p then Some (drop (length p) s) else None)"

definition starts_with :: "string \<Rightarrow> string \<Rightarrow> bool" where
  "starts_with p s \<longleftrightarrow> take (length p) s = p"

text \<open>
  \<open>split_at\<close> panics at an index that is not the start of a character: a byte between
  \<open>0x80\<close> and \<open>0xBF\<close> continues the character before it.
\<close>

definition is_char_boundary :: "string \<Rightarrow> nat \<Rightarrow> bool" where
  "is_char_boundary s i \<longleftrightarrow> i = 0 \<or> i = length s \<or>
     (i < length s \<and> \<not> (128 \<le> (of_char (s ! i) :: nat) \<and> (of_char (s ! i) :: nat) < 192))"

definition split_at :: "string \<Rightarrow> nat \<Rightarrow> (string \<times> string) option" where
  "split_at s i = (if is_char_boundary s i then Some (take i s, drop i s) else None)"

lemma strip_prefix_Some: "strip_prefix p s = Some r \<longleftrightarrow> s = p @ r"
  by (auto simp: strip_prefix_def) (metis append_take_drop_id)

lemma strip_prefix_append [simp]: "strip_prefix p (p @ r) = Some r"
  by (simp add: strip_prefix_Some)

lemma starts_with_append [simp]: "starts_with p (p @ r)"
  by (simp add: starts_with_def)

section \<open>The libraries\<close>

record token_lib =
  b62_encode :: "nat \<Rightarrow> string"
  b62_decode :: "string \<Rightarrow> unit + nat"
  crc32 :: "string \<Rightarrow> nat"
  b64_encode :: "string \<Rightarrow> string"
  b64_decode :: "string \<Rightarrow> unit + string"
  hash_string :: "string \<Rightarrow> string"
  hmac_sha256 :: "string \<Rightarrow> string \<Rightarrow> string"
  show_uuid :: "uuid \<Rightarrow> string"
  state_to_json :: "string \<times> int \<Rightarrow> string"
  state_from_json :: "string \<Rightarrow> unit + string \<times> int"
  sign_jwt :: "string \<Rightarrow> string \<times> string list \<times> string \<times> int \<times> int \<times> string option \<Rightarrow> string + string"

definition token_lib_ok :: "token_lib \<Rightarrow> bool" where
  "token_lib_ok l \<longleftrightarrow>
     (\<forall>n v. v < 2 ^ 128 \<longrightarrow> b62_decode l (replicate n (CHR ''0'') @ b62_encode l v) = Inr v) \<and>
     (\<forall>v. v < 2 ^ 128 \<longrightarrow> length (b62_encode l v) \<le> 22) \<and>
     (\<forall>v. v < 2 ^ 32 \<longrightarrow> length (b62_encode l v) \<le> 6) \<and>
     (\<forall>v c. c \<in> set (b62_encode l v) \<longrightarrow> (of_char c :: nat) < 128) \<and>
     (\<forall>s. crc32 l s < 2 ^ 32)"

definition state_lib_ok :: "token_lib \<Rightarrow> bool" where
  "state_lib_ok l \<longleftrightarrow> (\<forall>s. b64_decode l (b64_encode l s) = Inr s) \<and>
     (\<forall>s. CHR ''.'' \<notin> set (b64_encode l s)) \<and> (\<forall>p. state_from_json l (state_to_json l p) = Inr p)"

section \<open>Constants and opaque codes\<close>

definition AUTH_CODE_EXPIRY_MINUTES :: int where "AUTH_CODE_EXPIRY_MINUTES = 10"
definition ACCESS_TOKEN_EXPIRY_SECONDS :: int where "ACCESS_TOKEN_EXPIRY_SECONDS = 3600"
definition REFRESH_TOKEN_EXPIRY_SECONDS :: int where "REFRESH_TOKEN_EXPIRY_SECONDS = 30 * 24 * 3600"
definition OAUTH_STATE_EXPIRY_SECONDS :: int where "OAUTH_STATE_EXPIRY_SECONDS = 600"
definition DEVICE_CODE_EXPIRY_MINUTES :: int where "DEVICE_CODE_EXPIRY_MINUTES = 10"
definition POLLING_INTERVAL_SECONDS :: int where "POLLING_INTERVAL_SECONDS = 1"

definition BODY_HALF_LEN :: nat where "BODY_HALF_LEN = 22"
definition BODY_LEN :: nat where "BODY_LEN = BODY_HALF_LEN * 2"
definition CHECKSUM_LEN :: nat where "CHECKSUM_LEN = 6"

text \<open>\<open>Utc::now().timestamp()\<close> and \<open>Duration::seconds\<close>.\<close>

definition seconds :: "int \<Rightarrow> time" where "seconds n = n * 1000000"
definition timestamp :: "time \<Rightarrow> int" where "timestamp t = t div 1000000"

definition get_auth_code_expiry_in_seconds :: int where
  "get_auth_code_expiry_in_seconds = AUTH_CODE_EXPIRY_MINUTES * 60"

definition get_device_code_expiry_in_seconds :: int where
  "get_device_code_expiry_in_seconds = DEVICE_CODE_EXPIRY_MINUTES * 60"

definition generate_high_entropic_code :: "token_lib \<Rightarrow> string \<Rightarrow> string \<times> string" where
  "generate_high_entropic_code l bytes = (let raw = b64_encode l bytes in (raw, hash_string l raw))"

definition readable_alphabet :: string where
  "readable_alphabet = ''ABCDEFGHJKLMNPQRSTUVWXYZ23456789''"

text \<open>Six random indices below the length of the alphabet.\<close>

definition generate_readable_code :: "token_lib \<Rightarrow> nat list \<Rightarrow> string \<times> string" where
  "generate_readable_code l idx =
     (let raw = map (\<lambda>i. readable_alphabet ! i) idx in (raw, hash_string l raw))"

section \<open>Access tokens\<close>

text \<open>\<open>u128::from_be_bytes\<close> and \<open>to_be_bytes\<close>.\<close>

definition from_be :: "string \<Rightarrow> nat" where
  "from_be s = foldl (\<lambda>a c. a * 256 + of_char c) 0 s"

fun to_be :: "nat \<Rightarrow> nat \<Rightarrow> string" where
  "to_be 0 v = []"
| "to_be (Suc n) v = to_be n (v div 256) @ [char_of (v mod 256)]"

definition base62_encode_padded :: "token_lib \<Rightarrow> nat \<Rightarrow> nat \<Rightarrow> string" where
  "base62_encode_padded l v width =
     (let encoded = b62_encode l v in replicate (width - length encoded) (CHR ''0'') @ encoded)"

definition generate_access_token :: "token_lib \<Rightarrow> token_type \<Rightarrow> string \<Rightarrow> string \<times> string" where
  "generate_access_token l ty bytes =
     (let hi = from_be (take 16 bytes); lo = from_be (drop 16 bytes);
          body = base62_encode_padded l hi BODY_HALF_LEN @ base62_encode_padded l lo BODY_HALF_LEN;
          checksum = base62_encode_padded l (crc32 l bytes) CHECKSUM_LEN;
          raw = token_prefix ty @ body @ checksum
      in (raw, hash_string l raw))"

text \<open>\<open>None\<close> is a panic.\<close>

definition validate_token_format :: "token_lib \<Rightarrow> string \<Rightarrow> bool option" where
  "validate_token_format l token =
     (case (case strip_prefix (token_prefix PersonalToken) token of
              Some rest \<Rightarrow> Some rest
            | None \<Rightarrow> strip_prefix (token_prefix RunnerToken) token) of
        None \<Rightarrow> Some False
      | Some rest \<Rightarrow>
          if length rest \<noteq> BODY_LEN + CHECKSUM_LEN then Some False
          else
            (case split_at rest BODY_LEN of
               None \<Rightarrow> None
             | Some (body, checksum_str) \<Rightarrow>
                 (case split_at body BODY_HALF_LEN of
                    None \<Rightarrow> None
                  | Some (hi_str, lo_str) \<Rightarrow>
                      (case (b62_decode l hi_str, b62_decode l lo_str, b62_decode l checksum_str) of
                         (Inr hi, Inr lo, Inr crc_val) \<Rightarrow>
                           Some (crc32 l (to_be 16 hi @ to_be 16 lo) = crc_val)
                       | _ \<Rightarrow> Some False))))"

section \<open>OAuth state and JWTs\<close>

definition GITDOT_SERVER_ID :: string where "GITDOT_SERVER_ID = ''gitdot-server''"
definition S2_SERVER_ID :: string where "S2_SERVER_ID = ''s2-server''"

definition generate_oauth_state :: "token_lib \<Rightarrow> string \<Rightarrow> time \<Rightarrow> string \<Rightarrow> string" where
  "generate_oauth_state l key now nonce =
     (let payload = b64_encode l (state_to_json l (nonce, timestamp now + OAUTH_STATE_EXPIRY_SECONDS))
      in payload @ ''.'' @ b64_encode l (hmac_sha256 l key payload))"

definition verify_oauth_state :: "token_lib \<Rightarrow> string \<Rightarrow> time \<Rightarrow> string \<Rightarrow> string + unit" where
  "verify_oauth_state l key now state =
     (if CHR ''.'' \<notin> set state then Inl ''Invalid state format''
      else
        (let payload_b64 = takeWhile (\<lambda>c. c \<noteq> CHR ''.'') state;
             sig_b64 = tl (dropWhile (\<lambda>c. c \<noteq> CHR ''.'') state)
         in (case b64_decode l sig_b64 of
               Inl _ \<Rightarrow> Inl ''Invalid signature encoding''
             | Inr sig \<Rightarrow>
                 if sig \<noteq> hmac_sha256 l key payload_b64 then Inl ''Invalid signature''
                 else
                   (case b64_decode l payload_b64 of
                      Inl _ \<Rightarrow> Inl ''Invalid payload encoding''
                    | Inr json \<Rightarrow>
                        (case state_from_json l json of
                           Inl _ \<Rightarrow> Inl ''Invalid payload''
                         | Inr (nonce, expires) \<Rightarrow>
                             if expires < timestamp now then Inl ''State expired'' else Inr ())))))"

datatype token_error = SigningError string

text \<open>Claims: issuer, audience, subject, issued at, expiry, and the user name of a session.\<close>

definition generate_jwt ::
  "token_lib \<Rightarrow> string \<Rightarrow> string \<times> string list \<times> string \<times> int \<times> int \<times> string option \<Rightarrow> token_error + string"
where
  "generate_jwt l key claims = map_sum SigningError id (sign_jwt l key claims)"

definition generate_gitdot_jwt ::
  "token_lib \<Rightarrow> string \<Rightarrow> time \<Rightarrow> uuid \<Rightarrow> string \<Rightarrow> token_error + string"
where
  "generate_gitdot_jwt l key now user_id username =
     generate_jwt l key (GITDOT_SERVER_ID, [GITDOT_SERVER_ID], show_uuid l user_id,
       timestamp now, timestamp now + ACCESS_TOKEN_EXPIRY_SECONDS, Some username)"

section \<open>Codes of users (dto/common/user\_code.rs)\<close>

definition user_code_parse :: "string \<Rightarrow> string \<Rightarrow> input_error + string" where
  "user_code_parse value field =
     (if length value \<noteq> 6 then Inl (InputError field ''must be 6 characters'')
      else if \<not> list_all (\<lambda>c. (65 \<le> (of_char c :: nat) \<and> (of_char c :: nat) \<le> 90) \<or>
                              (50 \<le> (of_char c :: nat) \<and> (of_char c :: nat) \<le> 57)) value
      then Inl (InputError field ''can only contain uppercase letters and the digits 2-9'')
      else Inr value)"

end
