(* ===== verification/CommitStore.thy ===== *)
theory CommitStore
  imports ReviewStore TokenClient
begin

text \<open>
  \<open>repository/core/commit.rs\<close> and \<open>model/core/commit.rs\<close>: the commits of a push, as rows beside
  the repository they belong to. The joins give the names of the author and of the owner.
\<close>

section \<open>Structures\<close>

record commit_repository =
  cr_id :: uuid
  cr_owner_name :: string
  cr_name :: string
  cr_visibility :: string

record commit = commit_row +
  cm_author_name :: "string option"
  cm_author_image_updated_at :: "time option"
  cm_repository :: commit_repository

text \<open>\<open>COMMIT_JOINS_QUERY\<close>: the repository of the row, if any.\<close>

definition repo_of_commit :: "core_db \<Rightarrow> commit_row \<Rightarrow> repo_row option" where
  "repo_of_commit core c = find (\<lambda>r. rp_id r = cm_repo_id c) (db_repos core)"

text \<open>
  \<open>COMMIT_PROJECTION_QUERY\<close>. The nested repository is decoded from JSON, where the name of the
  owner may not be null.
\<close>

definition commit_view :: "core_db \<Rightarrow> commit_row \<Rightarrow> database_error + commit" where
  "commit_view core c =
     (case repo_of_commit core c of
        None \<Rightarrow> Inl OtherDbError
      | Some r \<Rightarrow>
          (case owner_name_of core r of
             None \<Rightarrow> Inl OtherDbError
           | Some owner \<Rightarrow>
               (let author = (case cm_author_id c of None \<Rightarrow> None | Some i \<Rightarrow> find_user core i)
                in Inr (commit_row.extend c (commit.fields (map_option us_name author) (map_option us_image_updated_at author)
                     \<lparr>cr_id = rp_id r, cr_owner_name = owner, cr_name = rp_name r,
                      cr_visibility = visibility_into_string (rp_visibility r)\<rparr>)))))"

text \<open>The rows that the inner join keeps.\<close>

definition joined :: "core_db \<Rightarrow> (commit_row \<Rightarrow> bool) \<Rightarrow> commit_row list" where
  "joined core p = filter (\<lambda>c. repo_of_commit core c \<noteq> None \<and> p c) (db_commits core)"

definition commit_key :: "'a commit_row_scheme \<Rightarrow> time \<times> uuid" where
  "commit_key c = (cm_created_at c, cm_id c)"

section \<open>Statements\<close>

definition sha_short :: "string \<Rightarrow> string" where
  "sha_short sha = take 7 sha"

text \<open>
  \<open>&sha[..7]\<close> panics inside a character: the result is then \<open>None\<close>. A stored \<open>sha\<close> is written by
  git and plain ASCII, so that its first seven characters are its first seven bytes.
\<close>

definition get_commit :: "core_db \<Rightarrow> uuid \<Rightarrow> string \<Rightarrow> (database_error + commit option) option" where
  "get_commit core repo_id sha =
     (if 7 \<le> length sha \<and> \<not> is_char_boundary sha 7 then None
      else
        (let short = (if 7 \<le> length sha then take 7 sha else sha)
         in Some (fetch_optional (commit_view core)
              (joined core (\<lambda>c. cm_repo_id c = repo_id \<and> sha_short (cm_sha c) = short)))))"

definition list_by_repository ::
  "core_db \<Rightarrow> uuid \<Rightarrow> string \<Rightarrow> time \<Rightarrow> time \<Rightarrow> cursor option \<Rightarrow> nat
    \<Rightarrow> database_error + commit list \<times> cursor option"
where
  "list_by_repository core repo_id ref_name from to cur limit =
     (let rows = joined core (\<lambda>c. cm_repo_id c = repo_id \<and> cm_ref_name c = ref_name
                   \<and> from \<le> cm_created_at c \<and> cm_created_at c \<le> to)
      in (case fetch_all (commit_view core) (keyset_fetch commit_key rows cur (limit + 1)) of
            Inl e \<Rightarrow> Inl e
          | Inr got \<Rightarrow> Inr (pop_extra commit_key limit got)))"

text \<open>The column \<open>viewer_has_access\<close> repeats the visibility clause of the listings of repositories.\<close>

definition viewer_has_access :: "core_db \<Rightarrow> uuid option \<Rightarrow> commit_row \<Rightarrow> bool" where
  "viewer_has_access core viewer c =
     (case repo_of_commit core c of
        None \<Rightarrow> False
      | Some r \<Rightarrow>
          rp_visibility r = Public
          \<or> rp_owner_type r = UserOwner \<and> Some (rp_owner_id r) = viewer
          \<or> rp_owner_type r = OrganizationOwner \<and> rp_owner_id r \<in> set (viewer_orgs core viewer))"

definition user_commit_row :: "core_db \<Rightarrow> uuid option \<Rightarrow> commit_row \<Rightarrow> database_error + commit \<times> bool" where
  "user_commit_row core viewer c =
     map_sum id (\<lambda>v. (v, viewer_has_access core viewer c)) (commit_view core c)"

definition list_by_user ::
  "core_db \<Rightarrow> uuid \<Rightarrow> uuid option \<Rightarrow> time \<Rightarrow> time \<Rightarrow> cursor option \<Rightarrow> nat
    \<Rightarrow> database_error + (commit \<times> bool) list \<times> cursor option"
where
  "list_by_user core author_id viewer from to cur limit =
     (let rows = joined core (\<lambda>c. cm_author_id c = Some author_id
                   \<and> from \<le> cm_created_at c \<and> cm_created_at c \<le> to)
      in (case fetch_all (user_commit_row core viewer) (keyset_fetch commit_key rows cur (limit + 1)) of
            Inl e \<Rightarrow> Inl e
          | Inr got \<Rightarrow> Inr (pop_extra (\<lambda>(v, _). commit_key v) limit got)))"

text \<open>
  \<open>ON CONFLICT (repo_id, sha) DO NOTHING\<close>, row by row: the table and the rows inserted.
\<close>

fun insert_commits :: "commit_row list \<Rightarrow> commit_row list \<Rightarrow> commit_row list" where
  "insert_commits table [] = []"
| "insert_commits table (c # cs) =
     (if list_ex (\<lambda>d. cm_repo_id d = cm_repo_id c \<and> cm_sha d = cm_sha c) table
      then insert_commits table cs
      else c # insert_commits (table @ [c]) cs)"

definition commit_row_ok :: "core_db \<Rightarrow> commit_row \<Rightarrow> bool" where
  "commit_row_ok core c \<longleftrightarrow>
     (case cm_author_id c of None \<Rightarrow> True | Some i \<Rightarrow> find_user core i \<noteq> None)
     \<and> repo_of_commit core c \<noteq> None"

definition commit_fits :: "commit_row \<Rightarrow> bool" where
  "commit_fits c \<longleftrightarrow> char_count (cm_sha c) \<le> 40 \<and> char_count (cm_parent_sha c) \<le> 40 \<and> char_count (cm_ref_name c) \<le> 256"

text \<open>
  \<open>create_bulk\<close>: the parallel arrays as rows. The answer is what the projection reads of the
  inserted rows; a failure to decode it comes after the statement has committed.
\<close>

definition create_bulk :: "commit_row list \<Rightarrow> core_db \<Rightarrow> (database_error + commit list) \<times> core_db" where
  "create_bulk rows core =
     (if rows = [] then (Inr [], core)
      else if \<not> list_all commit_fits rows then (Inl OtherDbError, core)
      else
        (let new = insert_commits (db_commits core) rows
         in if \<not> distinct (map cm_id (db_commits core @ new)) then (Inl UniqueViolation, core)
            else if \<not> list_all (commit_row_ok core) new then (Inl OtherDbError, core)
            else (fetch_all (commit_view core) new, core\<lparr>db_commits := db_commits core @ new\<rparr>)))"

section \<open>Lemmas\<close>

lemma viewer_access_visible:
  "viewer_has_access core viewer c \<longleftrightarrow> (\<exists>r. repo_of_commit core c = Some r \<and> visible_to core viewer r)"
  by (auto simp: viewer_has_access_def visible_to_def split: option.split)

lemma commit_view_row:
  assumes "commit_view core c = Inr v"
  shows "commit_row.truncate v = c" "commit_key v = commit_key c"
  using assms
  by (auto simp: commit_view_def commit_row.truncate_def commit_row.extend_def commit.fields_def commit_key_def Let_def
      split: option.splits)

lemma insert_commits_new:
  "set (insert_commits table cs) \<subseteq> set cs"
  "c \<in> set cs \<Longrightarrow> \<exists>d \<in> set table \<union> set (insert_commits table cs). cm_repo_id d = cm_repo_id c \<and> cm_sha d = cm_sha c"
  by (induction table cs rule: insert_commits.induct) (auto simp: list_ex_iff)

lemma insert_commits_unique:
  "distinct (map (\<lambda>c. (cm_repo_id c, cm_sha c)) table) \<Longrightarrow>
   distinct (map (\<lambda>c. (cm_repo_id c, cm_sha c)) (table @ insert_commits table cs))"
proof (induction table cs rule: insert_commits.induct)
  case (2 table c cs)
  show ?case
  proof (cases "list_ex (\<lambda>d. cm_repo_id d = cm_repo_id c \<and> cm_sha d = cm_sha c) table")
    case False
    then have "distinct (map (\<lambda>c. (cm_repo_id c, cm_sha c)) (table @ [c]))"
      using 2(3) by (auto simp: list_ex_iff)
    from 2(2) [OF False this] False show ?thesis by simp
  qed (use 2 in simp)
qed simp

end
