(* ===== verification/Names.thy ===== *)
theory Names
  imports TokenClient
begin

text \<open>
  The validated names of \<open>dto/common\<close> and \<open>util/auth.rs\<close>, and the names of the S2 basins and
  streams that \<open>client/s2.rs\<close> derives from them (checked by \<open>s2-common\<close>).

  \<open>str::to_lowercase\<close> follows the Unicode tables; it is the parameter \<open>lower\<close>, and
  \<open>lower_ok\<close> says what it does to ASCII text. The crates that recognise e-mail addresses,
  URLs and offensive words are parameters.
\<close>

section \<open>Characters and slugs\<close>

definition is_lower :: "char \<Rightarrow> bool" where
  "is_lower c \<longleftrightarrow> 97 \<le> (of_char c :: nat) \<and> (of_char c :: nat) \<le> 122"

definition ascii_lower :: "char \<Rightarrow> char" where
  "ascii_lower c = (if 65 \<le> (of_char c :: nat) \<and> (of_char c :: nat) \<le> 90 then char_of ((of_char c :: nat) + 32) else c)"

definition lower_ok :: "(string \<Rightarrow> string) \<Rightarrow> bool" where
  "lower_ok lower \<longleftrightarrow> (\<forall>s. (\<forall>c \<in> set s. (of_char c :: nat) < 128) \<longrightarrow> lower s = map ascii_lower s)"

definition is_sep :: "bool \<Rightarrow> char \<Rightarrow> bool" where
  "is_sep allow_underscore c \<longleftrightarrow> c = CHR ''-'' \<or> (allow_underscore \<and> c = CHR ''_'')"

definition validate_slug :: "string \<Rightarrow> bool \<Rightarrow> string + unit" where
  "validate_slug s allow_underscore =
     (if length s < 2 then Inl ''must be at least 2 characters''
      else if 32 < length s then Inl ''must be at most 32 characters''
      else if list_ex (\<lambda>c. \<not> (is_lower c \<or> is_digit c \<or> is_sep allow_underscore c)) s then
        Inl (if allow_underscore then ''can only contain lowercase letters, numbers, hyphens, and underscores''
             else ''can only contain lowercase letters, numbers, and hyphens'')
      else if is_sep allow_underscore (hd s) \<or> is_sep allow_underscore (last s) then
        Inl (if allow_underscore then ''cannot start or end with a hyphen or underscore''
             else ''cannot start or end with a hyphen'')
      else if list_ex (\<lambda>(a, b). is_sep allow_underscore a \<and> is_sep allow_underscore b) (zip s (tl s)) then
        Inl (if allow_underscore then ''cannot contain consecutive hyphens or underscores''
             else ''cannot contain consecutive hyphens'')
      else Inr ())"

section \<open>Validated values\<close>

definition owner_name_parse :: "(string \<Rightarrow> string) \<Rightarrow> string \<Rightarrow> string \<Rightarrow> input_error + string" where
  "owner_name_parse lower value field =
     (let name = lower (trim value)
      in and_then (map_err (InputError field) (validate_slug name False)) (\<lambda>_. Inr name))"

definition strip_git_suffix :: "string \<Rightarrow> string" where
  "strip_git_suffix s =
     (if 4 \<le> length s \<and> drop (length s - 4) s = ''.git'' then take (length s - 4) s else s)"

definition repository_name_parse :: "(string \<Rightarrow> string) \<Rightarrow> string \<Rightarrow> string \<Rightarrow> input_error + string" where
  "repository_name_parse lower value field =
     (let name = strip_git_suffix (lower (trim value))
      in and_then (map_err (InputError field) (validate_slug name True)) (\<lambda>_. Inr name))"

definition runner_name_parse :: "(string \<Rightarrow> string) \<Rightarrow> string \<Rightarrow> string \<Rightarrow> input_error + string" where
  "runner_name_parse lower value field =
     (let name = lower (trim value)
      in and_then (map_err (InputError field) (validate_slug name True)) (\<lambda>_. Inr name))"

definition filter_name_parse :: "string \<Rightarrow> string \<Rightarrow> input_error + string" where
  "filter_name_parse value field =
     (let name = trim value
      in if name = [] then Inl (InputError field ''cannot be empty'')
         else if 100 < length name then Inl (InputError field ''must be at most 100 characters'')
         else Inr name)"

definition git_service_parse :: "string \<Rightarrow> string \<Rightarrow> input_error + string" where
  "git_service_parse value field =
     (if value \<noteq> ''git-upload-pack'' \<and> value \<noteq> ''git-receive-pack''
      then Inl (InputError field ''must be git-upload-pack or git-receive-pack'') else Inr value)"

definition git_content_type_parse :: "string \<Rightarrow> string \<Rightarrow> input_error + string" where
  "git_content_type_parse value field =
     (if value \<noteq> ''application/x-git-upload-pack-request'' \<and> value \<noteq> ''application/x-git-receive-pack-request''
      then Inl (InputError field ''must be a git upload-pack or receive-pack request content type'') else Inr value)"

definition email_parse ::
  "(string \<Rightarrow> string) \<Rightarrow> (string \<Rightarrow> bool) \<Rightarrow> string \<Rightarrow> string \<Rightarrow> input_error + string"
where
  "email_parse lower valid_email value field =
     (let email = lower (trim value)
      in if \<not> valid_email email then Inl (InputError field ''must be a valid email address'') else Inr email)"

definition url_parse :: "(string \<Rightarrow> bool) \<Rightarrow> string \<Rightarrow> string \<Rightarrow> input_error + string" where
  "url_parse valid_url value field =
     (let url = trim value
      in if \<not> valid_url url then Inl (InputError field ''must be a valid URL'') else Inr url)"

definition normalize_string_list :: "string list option \<Rightarrow> string list option" where
  "normalize_string_list values = map_option (\<lambda>v. filter (\<lambda>s. s \<noteq> []) (map trim v)) values"

section \<open>Names of accounts (util/auth.rs)\<close>

definition RESERVED_NAMES :: "string list" where
  "RESERVED_NAMES =
     [''api'', ''company'', ''designs'', ''faq'', ''home'', ''login'', ''oauth'', ''onboarding'', ''privacy'',
      ''releases'', ''terms'', ''weeks'', ''beta'', ''signup'', ''admin'', ''async'', ''gitdot'']"

definition is_reserved_name :: "(string \<Rightarrow> string) \<Rightarrow> string \<Rightarrow> bool" where
  "is_reserved_name lower name \<longleftrightarrow> lower name \<in> set RESERVED_NAMES"

definition validate_name ::
  "(string \<Rightarrow> string) \<Rightarrow> (string \<Rightarrow> bool) \<Rightarrow> string \<Rightarrow> string \<Rightarrow> conflict_error + unit"
where
  "validate_name lower offensive entity name =
     (if is_reserved_name lower name then Inl (ConflictError entity (IdStr (name @ '' is reserved'')))
      else if offensive name then Inl (ConflictError entity (IdStr (name @ '' is not allowed'')))
      else Inr ())"

section \<open>Basins and streams (client/s2.rs, s2-common)\<close>

definition MIN_BASIN_NAME_LEN :: nat where "MIN_BASIN_NAME_LEN = 8"
definition MAX_BASIN_NAME_LEN :: nat where "MAX_BASIN_NAME_LEN = 48"
definition MAX_STREAM_NAME_LEN :: nat where "MAX_STREAM_NAME_LEN = 512"

definition basin_edge :: "char \<Rightarrow> bool" where
  "basin_edge c \<longleftrightarrow> is_lower c \<or> is_digit c \<or> c = CHR ''_'' \<or> c = CHR ''.''"

text \<open>
  \<open>BasinNameStr::validate_str\<close>, for a name or for a prefix. The iterator of characters is
  consumed at both ends, so the last check sees what is left between them; a prefix keeps its
  last character.
\<close>

definition validate_basin_str :: "bool \<Rightarrow> string \<Rightarrow> string \<Rightarrow> string + unit" where
  "validate_basin_str is_prefix field name =
     (if MAX_BASIN_NAME_LEN < length name
      then Inl (''basin '' @ field @ '' must not exceed '' @ show_nat MAX_BASIN_NAME_LEN @ '' bytes in length'')
      else if \<not> is_prefix \<and> length name < MIN_BASIN_NAME_LEN
      then Inl (''basin '' @ field @ '' should be at least '' @ show_nat MIN_BASIN_NAME_LEN @ '' bytes in length'')
      else
        (case name of
           [] \<Rightarrow> Inr ()
         | first # rest \<Rightarrow>
             if \<not> basin_edge first
             then Inl (''basin '' @ field @ '' must begin with a lowercase letter, number, underscore, or period'')
             else if \<not> is_prefix \<and> rest \<noteq> [] \<and> \<not> basin_edge (last rest)
             then Inl (''basin '' @ field @ '' must end with a lowercase letter, number, underscore, or period'')
             else if list_ex (\<lambda>c. \<not> (basin_edge c \<or> c = CHR ''-'')) (if is_prefix then rest else butlast rest)
             then Inl (''basin '' @ field
                    @ '' must comprise lowercase letters, numbers, hyphens, underscores, and periods'')
             else Inr ()))"

definition validate_stream_str :: "bool \<Rightarrow> string \<Rightarrow> string \<Rightarrow> string + unit" where
  "validate_stream_str is_prefix field name =
     (if \<not> is_prefix \<and> name = [] then Inl (''stream '' @ field @ '' must not be empty'')
      else if MAX_STREAM_NAME_LEN < length name
      then Inl (''stream '' @ field @ '' must not exceed '' @ show_nat MAX_STREAM_NAME_LEN @ '' bytes in length'')
      else Inr ())"

definition basin_name :: "(string \<Rightarrow> string) \<Rightarrow> string \<Rightarrow> string \<Rightarrow> string" where
  "basin_name lower owner repo = lower owner @ ''-'' @ lower repo"

text \<open>The answers of the S2 server are the arguments \<open>create_basin\<close> and \<open>create_stream\<close>.\<close>

datatype s2_error = S2Server string string | S2Other string

definition issue_internal_jwt :: "token_lib \<Rightarrow> string \<Rightarrow> time \<Rightarrow> string + string" where
  "issue_internal_jwt l key now =
     sign_jwt l key (GITDOT_SERVER_ID, [S2_SERVER_ID], GITDOT_SERVER_ID, timestamp now, timestamp now + 15, None)"

definition s2_create_stream ::
  "(string \<Rightarrow> string) \<Rightarrow> token_lib \<Rightarrow> string \<Rightarrow> time \<Rightarrow> (string \<Rightarrow> s2_error + unit) \<Rightarrow> (string \<Rightarrow> string \<Rightarrow> s2_error + unit)
    \<Rightarrow> (s2_error \<Rightarrow> string) \<Rightarrow> string \<Rightarrow> string \<Rightarrow> uuid \<Rightarrow> string + string"
where
  "s2_create_stream lower l key now create_basin create_stream show_error owner repo task_id =
     and_then (issue_internal_jwt l key now) (\<lambda>_.
       let basin = basin_name lower owner repo;
           stream = ''task/'' @ show_uuid l task_id
       in and_then (map_err (\<lambda>_. ''invalid basin name: '' @ basin) (validate_basin_str False ''name'' basin)) (\<lambda>_.
          and_then
            (case create_basin basin of
               Inr _ \<Rightarrow> Inr ()
             | Inl (S2Server code m) \<Rightarrow>
                 if code = ''resource_already_exists'' then Inr () else Inl (show_error (S2Server code m))
             | Inl e \<Rightarrow> Inl (show_error e)) (\<lambda>_.
          and_then (map_err (\<lambda>_. ''invalid stream name: '' @ stream) (validate_stream_str False ''name'' stream)) (\<lambda>_.
          and_then (map_err show_error (create_stream basin stream)) (\<lambda>_.
          Inr (''s2://'' @ lower owner @ ''-'' @ lower repo @ ''/task/'' @ show_uuid l task_id))))))"

end
