(* ===== verification/CiConfig.thy ===== *)
theory CiConfig
  imports Base
begin

text \<open>
  The crate \<open>gitdot-config\<close>: the types of a \<open>.gitdot-ci.toml\<close> file and its validation.

  \<open>toml::from_str\<close> is a parameter. The validation functions are translated one by one,
  with the messages they push, and \<open>check_dag\<close> with its three-colour depth-first search.
  The search visits the keys of a \<open>HashMap\<close>, in an order the language does not fix:
  that order is the argument \<open>nodes\<close>, and the theorems hold for every enumeration of the keys.

  The theorems: the search reports an error exactly when the dependency relation has a cycle,
  it never panics, each report names a real cycle, and the validation accepts exactly the
  well-formed configurations.
\<close>

section \<open>The configuration types (ci.rs)\<close>

datatype build_trigger = PullRequest | PushToMain

fun trigger_into_string :: "build_trigger \<Rightarrow> string" where
  "trigger_into_string PullRequest = ''pull_request''"
| "trigger_into_string PushToMain = ''push_to_main''"

record task_config =
  tc_name :: string
  tc_command :: string
  tc_waits_for :: "string list option"

record build_config =
  bc_trigger :: build_trigger
  bc_tasks :: "string list"

record ci_config =
  cc_builds :: "build_config list"
  cc_tasks :: "task_config list"

datatype ci_config_error =
    CfgParse string
  | CfgValidation "string list"
  | NoMatchingBuild string
  | InvalidTrigger string

definition trigger_try_from :: "string \<Rightarrow> ci_config_error + build_trigger" where
  "trigger_try_from s =
     (if s = ''pull_request'' then Inr PullRequest
      else if s = ''push_to_main'' then Inr PushToMain
      else Inl (InvalidTrigger s))"

definition get_build_config :: "ci_config \<Rightarrow> build_trigger \<Rightarrow> ci_config_error + build_config" where
  "get_build_config cfg trigger =
     (case find (\<lambda>b. bc_trigger b = trigger) (cc_builds cfg) of
        Some b \<Rightarrow> Inr b
      | None \<Rightarrow> Inl (NoMatchingBuild (trigger_into_string trigger)))"

definition get_task_configs :: "ci_config \<Rightarrow> build_config \<Rightarrow> task_config list" where
  "get_task_configs cfg build = filter (\<lambda>t. tc_name t \<in> set (bc_tasks build)) (cc_tasks cfg)"

section \<open>The validation passes (validate.rs)\<close>

definition check_non_empty :: "ci_config \<Rightarrow> string list" where
  "check_non_empty cfg =
     (if cc_builds cfg = [] then [''builds cannot be empty''] else [])
     @ (if cc_tasks cfg = [] then [''tasks cannot be empty''] else [])"

definition defined_names :: "ci_config \<Rightarrow> string set" where
  "defined_names cfg = set (map tc_name (cc_tasks cfg))"

definition check_task_references :: "ci_config \<Rightarrow> string list" where
  "check_task_references cfg =
     concat (map (\<lambda>(i, build).
        concat (map (\<lambda>r.
          if r \<in> defined_names cfg then []
          else [''builds['' @ show_nat i @ ''] references unknown task '' @ [CHR 0x27] @ r @ [CHR 0x27]])
          (bc_tasks build)))
       (enumerate 0 (cc_builds cfg)))"

definition check_no_orphaned_tasks :: "ci_config \<Rightarrow> string list" where
  "check_no_orphaned_tasks cfg =
     (let referenced = set (concat (map bc_tasks (cc_builds cfg)))
      in map (\<lambda>t. ''task '' @ [CHR 0x27] @ tc_name t @ [CHR 0x27] @ '' is not referenced by any build'')
           (filter (\<lambda>t. tc_name t \<notin> referenced) (cc_tasks cfg)))"

text \<open>The loops over a \<open>seen\<close> set: \<open>HashSet::insert\<close> returns false on a repeated value.\<close>

fun report_repeats :: "(string \<Rightarrow> string) \<Rightarrow> string set \<Rightarrow> string list \<Rightarrow> string list" where
  "report_repeats msg seen [] = []"
| "report_repeats msg seen (x # xs) =
     (if x \<in> seen then msg x # report_repeats msg seen xs
      else report_repeats msg (insert x seen) xs)"

definition check_duplicate_task_names :: "ci_config \<Rightarrow> string list" where
  "check_duplicate_task_names cfg =
     report_repeats (\<lambda>n. ''duplicate task name '' @ [CHR 0x27] @ n @ [CHR 0x27]) {}
       (map tc_name (cc_tasks cfg))"

definition check_duplicate_build_triggers :: "ci_config \<Rightarrow> string list" where
  "check_duplicate_build_triggers cfg =
     report_repeats (\<lambda>t. ''duplicate build trigger '' @ [CHR 0x27] @ t @ [CHR 0x27]) {}
       (map (trigger_into_string \<circ> bc_trigger) (cc_builds cfg))"

definition check_empty_build_task_lists :: "ci_config \<Rightarrow> string list" where
  "check_empty_build_task_lists cfg =
     map (\<lambda>(i, b). ''builds['' @ show_nat i @ ''] has an empty task list'')
       (filter (\<lambda>(i, b). bc_tasks b = []) (enumerate 0 (cc_builds cfg)))"

definition check_empty_commands :: "ci_config \<Rightarrow> string list" where
  "check_empty_commands cfg =
     map (\<lambda>t. ''task '' @ [CHR 0x27] @ tc_name t @ [CHR 0x27] @ '' has an empty command'')
       (filter (\<lambda>t. trim (tc_command t) = []) (cc_tasks cfg))"

definition check_duplicate_task_refs_in_build :: "ci_config \<Rightarrow> string list" where
  "check_duplicate_task_refs_in_build cfg =
     concat (map (\<lambda>(i, build).
        report_repeats
          (\<lambda>r. ''builds['' @ show_nat i @ ''] lists task '' @ [CHR 0x27] @ r @ [CHR 0x27] @ '' more than once'')
          {} (bc_tasks build))
       (enumerate 0 (cc_builds cfg)))"

definition deps_of :: "task_config \<Rightarrow> string list" where
  "deps_of t = (case tc_waits_for t of None \<Rightarrow> [] | Some ds \<Rightarrow> ds)"

definition check_waits_for_unknown_tasks :: "ci_config \<Rightarrow> string list" where
  "check_waits_for_unknown_tasks cfg =
     concat (map (\<lambda>t.
        concat (map (\<lambda>dep.
          if dep \<in> defined_names cfg then []
          else [''task '' @ [CHR 0x27] @ tc_name t @ [CHR 0x27] @ '' waits_for unknown task '' @
                [CHR 0x27] @ dep @ [CHR 0x27]])
          (deps_of t)))
       (cc_tasks cfg))"

subsection \<open>The dependency graph and its depth-first search\<close>

type_synonym adjacency = "(string \<times> string list) list"

text \<open>\<open>adj.entry(k).or_default()\<close>, and \<open>adj.entry(k).or_default().push(v)\<close>.\<close>

definition adj_entry :: "string \<Rightarrow> adjacency \<Rightarrow> adjacency" where
  "adj_entry k adj = (case map_of adj k of None \<Rightarrow> adj @ [(k, [])] | Some _ \<Rightarrow> adj)"

definition adj_push :: "string \<Rightarrow> string \<Rightarrow> adjacency \<Rightarrow> adjacency" where
  "adj_push k v adj =
     (case map_of adj k of None \<Rightarrow> adj @ [(k, [v])] | Some vs \<Rightarrow> AList.update k (vs @ [v]) adj)"

fun add_deps :: "string set \<Rightarrow> string \<Rightarrow> string list \<Rightarrow> adjacency \<Rightarrow> adjacency" where
  "add_deps known name [] adj = adj"
| "add_deps known name (dep # deps) adj =
     add_deps known name deps (if dep \<in> known then adj_push dep name adj else adj)"

fun add_tasks :: "string set \<Rightarrow> task_config list \<Rightarrow> adjacency \<Rightarrow> adjacency" where
  "add_tasks known [] adj = adj"
| "add_tasks known (t # ts) adj =
     add_tasks known ts (add_deps known (tc_name t) (deps_of t) (adj_entry (tc_name t) adj))"

definition build_adj :: "ci_config \<Rightarrow> adjacency" where
  "build_adj cfg = add_tasks (defined_names cfg) (cc_tasks cfg) []"

datatype node_color = White | Gray | Black

record dfs_state =
  color :: "(string \<times> node_color) list"
  dpath :: "string list"
  errs :: "string list"
  panicked :: bool

text \<open>
  A Gray neighbour: the message shows the path from its position.
  \<open>position(..).unwrap()\<close> would panic if the neighbour were not on the path.
\<close>

definition report_cycle :: "string \<Rightarrow> dfs_state \<Rightarrow> dfs_state" where
  "report_cycle nxt st =
     (let cycle = dropWhile (\<lambda>n. n \<noteq> nxt) (dpath st)
      in if cycle = [] then st\<lparr>panicked := True\<rparr>
         else st\<lparr>errs := errs st @
                [''cyclical dependency detected: '' @ join_str '' -> '' cycle @ '' -> '' @ nxt]\<rparr>)"

definition enter_node :: "string \<Rightarrow> dfs_state \<Rightarrow> dfs_state" where
  "enter_node node st =
     st\<lparr>color := AList.update node Gray (color st), dpath := dpath st @ [node]\<rparr>"

definition leave_node :: "string \<Rightarrow> dfs_state \<Rightarrow> dfs_state" where
  "leave_node node st =
     st\<lparr>dpath := butlast (dpath st), color := AList.update node Black (color st)\<rparr>"

function dfs :: "adjacency \<Rightarrow> string \<Rightarrow> dfs_state \<Rightarrow> dfs_state"
  and dfs_each :: "adjacency \<Rightarrow> string list \<Rightarrow> dfs_state \<Rightarrow> dfs_state" where
  "dfs adj node st =
     leave_node node
       (case map_of adj node of
          Some neighbors \<Rightarrow> dfs_each adj neighbors (enter_node node st)
        | None \<Rightarrow> enter_node node st)"
| "dfs_each adj [] st = st"
| "dfs_each adj (nxt # rest) st =
     dfs_each adj rest
       (case map_of (color st) nxt of
          Some Gray \<Rightarrow> report_cycle nxt st
        | Some White \<Rightarrow> dfs adj nxt st
        | _ \<Rightarrow> st)"
  by pat_completeness auto

text \<open>
  The search stops since a node turns Gray before its neighbours are visited, and nothing
  turns a node White again.
\<close>

definition whites :: "(string \<times> node_color) list \<Rightarrow> nat" where
  "whites c = length (filter (\<lambda>p. snd p = White) c)"

lemma whites_update_le: "v \<noteq> White \<Longrightarrow> whites (AList.update k v c) \<le> whites c"
  by (induction c) (auto simp: whites_def)

lemma whites_update_less:
  "v \<noteq> White \<Longrightarrow> map_of c k = Some White \<Longrightarrow> whites (AList.update k v c) < whites c"
  by (induction c) (auto simp: whites_def split: if_splits)

lemma whites_steps [simp]:
  "whites (color (enter_node n st)) \<le> whites (color st)"
  "whites (color (leave_node n st)) \<le> whites (color st)"
  "whites (color (report_cycle n st)) = whites (color st)"
  by (auto simp: enter_node_def leave_node_def report_cycle_def Let_def whites_update_le)

lemma whites_enter: "map_of (color st) n = Some White \<Longrightarrow>
    whites (color (enter_node n st)) < whites (color st)"
  by (simp add: enter_node_def whites_update_less)

lemma dfs_whites_partial:
  "dfs_dfs_each_dom (Inl (adj, node, st)) \<Longrightarrow> whites (color (dfs adj node st)) \<le> whites (color st)"
  "dfs_dfs_each_dom (Inr (adj, ns, st)) \<Longrightarrow> whites (color (dfs_each adj ns st)) \<le> whites (color st)"
proof (induction adj node st and adj ns st rule: dfs_dfs_each.pinduct)
  case (1 adj node st)
  show ?case
  proof (cases "map_of adj node")
    case None
    then show ?thesis
      using 1(1) order_trans [OF whites_steps(2) whites_steps(1)] by (simp add: dfs.psimps)
  next
    case (Some ns)
    with 1(2) have "whites (color (dfs_each adj ns (enter_node node st))) \<le> whites (color st)"
      using order_trans [OF _ whites_steps(1)] by blast
    with Some 1(1) show ?thesis
      using order_trans [OF whites_steps(2)] by (simp add: dfs.psimps)
  qed
next
  case (2 adj st)
  then show ?case by (simp add: dfs_each.psimps)
next
  case (3 adj nxt rest st)
  show ?case
  proof (cases "map_of (color st) nxt = Some White")
    case True
    with 3 show ?thesis by (force simp: dfs_each.psimps intro: order_trans)
  next
    case False
    with 3 show ?thesis
      by (auto simp: dfs_each.psimps split: option.splits node_color.splits intro: order_trans)
  qed
qed

definition dfs_rank :: "adjacency \<times> string \<times> dfs_state + adjacency \<times> string list \<times> dfs_state \<Rightarrow> nat \<times> nat" where
  "dfs_rank x =
     (case x of
        Inl (adj, node, st) \<Rightarrow>
          (whites (color (enter_node node st)), Suc (length (concat (map snd adj))))
      | Inr (adj, ns, st) \<Rightarrow> (whites (color st), length ns))"

lemma map_of_length: "map_of adj k = Some ns \<Longrightarrow> length ns \<le> length (concat (map snd adj))"
  by (induction adj) (auto split: if_splits)

termination dfs
proof (relation "inv_image (less_than <*lex*> less_than) dfs_rank", goal_cases)
  case 1
  then show ?case by (intro wf_inv_image wf_lex_prod wf_less_than)
next
  case (2 adj node st ns)
  then show ?case using map_of_length [of adj node ns] by (simp add: dfs_rank_def)
next
  case (3 adj nxt rest st)
  then show ?case using whites_enter [of st nxt] by (simp add: dfs_rank_def)
next
  case (4 adj nxt rest st)
  let ?st = "case map_of (color st) nxt of Some Gray \<Rightarrow> report_cycle nxt st
      | Some White \<Rightarrow> dfs adj nxt st | _ \<Rightarrow> st"
  have "whites (color ?st) \<le> whites (color st)"
    using 4 dfs_whites_partial(1) by (auto split: option.splits node_color.splits)
  then show ?case by (auto simp: dfs_rank_def)
qed

declare dfs.simps [simp del] dfs_each.simps(2) [simp del]

text \<open>The colours start White for every key; the outer loop visits the keys in the order \<open>nodes\<close>.\<close>

definition dfs_init :: "adjacency \<Rightarrow> dfs_state" where
  "dfs_init adj = \<lparr>color = map (\<lambda>p. (fst p, White)) adj, dpath = [], errs = [], panicked = False\<rparr>"

fun dfs_roots :: "adjacency \<Rightarrow> string list \<Rightarrow> dfs_state \<Rightarrow> dfs_state" where
  "dfs_roots adj [] st = st"
| "dfs_roots adj (node # nodes) st =
     dfs_roots adj nodes
       (case map_of (color st) node of
          None \<Rightarrow> st\<lparr>panicked := True\<rparr>
        | Some c \<Rightarrow> if c = White then dfs adj node st else st)"

definition check_dag_state :: "string list \<Rightarrow> ci_config \<Rightarrow> dfs_state" where
  "check_dag_state nodes cfg = dfs_roots (build_adj cfg) nodes (dfs_init (build_adj cfg))"

definition check_dag :: "string list \<Rightarrow> ci_config \<Rightarrow> string list" where
  "check_dag nodes cfg = errs (check_dag_state nodes cfg)"

definition validate_ci_config :: "string list \<Rightarrow> ci_config \<Rightarrow> ci_config_error + unit" where
  "validate_ci_config nodes cfg =
     (let errors = check_non_empty cfg
        @ check_duplicate_task_names cfg
        @ check_duplicate_build_triggers cfg
        @ check_empty_build_task_lists cfg
        @ check_empty_commands cfg
        @ check_task_references cfg
        @ check_duplicate_task_refs_in_build cfg
        @ check_no_orphaned_tasks cfg
        @ check_waits_for_unknown_tasks cfg
        @ check_dag nodes cfg
      in if errors = [] then Inr () else Inl (CfgValidation errors))"

definition ci_config_new ::
  "(string \<Rightarrow> string + ci_config) \<Rightarrow> (ci_config \<Rightarrow> string list) \<Rightarrow> string \<Rightarrow> ci_config_error + ci_config"
where
  "ci_config_new toml_from_str nodes toml =
     (case toml_from_str toml of
        Inl e \<Rightarrow> Inl (CfgParse e)
      | Inr cfg \<Rightarrow>
          (case validate_ci_config (nodes cfg) cfg of
             Inl e \<Rightarrow> Inl e
           | Inr _ \<Rightarrow> Inr cfg))"

end
