(* ===== verification/CiStore.thy ===== *)
theory CiStore
  imports CoreRows CiConfig
begin

text \<open>
  \<open>model/ci\<close> and \<open>repository/ci\<close>: builds, tasks and runners, with the statements over them.

  \<open>claim_task\<close> takes the identifiers of the rows that concurrent claimers hold locked
  (\<open>FOR UPDATE SKIP LOCKED\<close>); the theorems hold for every such set.

  The lemmas: what each statement does to the status of each task, build numbers never repeat
  within a repository, and the paged listings follow the \<open>listing\<close> contract.
\<close>

section \<open>Structures (model/ci)\<close>

datatype build_status = BuildRunning | BuildSuccess | BuildFailure
datatype task_status = Blocked | Pending | Assigned | Running | Success | Failure
datatype runner_owner_type = UserRunner | OrganizationRunner

definition build_status_try_from :: "string \<Rightarrow> input_error + build_status" where
  "build_status_try_from s =
     (if s = ''running'' then Inr BuildRunning
      else if s = ''success'' then Inr BuildSuccess
      else if s = ''failure'' then Inr BuildFailure
      else Inl (InputError ''build status'' s))"

fun build_status_into_string :: "build_status \<Rightarrow> string" where
  "build_status_into_string BuildRunning = ''running''"
| "build_status_into_string BuildSuccess = ''success''"
| "build_status_into_string BuildFailure = ''failure''"

definition task_status_try_from :: "string \<Rightarrow> input_error + task_status" where
  "task_status_try_from s =
     (if s = ''blocked'' then Inr Blocked
      else if s = ''pending'' then Inr Pending
      else if s = ''assigned'' then Inr Assigned
      else if s = ''running'' then Inr Running
      else if s = ''success'' then Inr Success
      else if s = ''failure'' then Inr Failure
      else Inl (InputError ''task status'' s))"

fun task_status_into_string :: "task_status \<Rightarrow> string" where
  "task_status_into_string Blocked = ''blocked''"
| "task_status_into_string Pending = ''pending''"
| "task_status_into_string Assigned = ''assigned''"
| "task_status_into_string Running = ''running''"
| "task_status_into_string Success = ''success''"
| "task_status_into_string Failure = ''failure''"

definition runner_owner_type_try_from :: "string \<Rightarrow> input_error + runner_owner_type" where
  "runner_owner_type_try_from s =
     (if s = ''user'' then Inr UserRunner
      else if s = ''organization'' then Inr OrganizationRunner
      else Inl (InputError ''owner type'' s))"

fun runner_owner_type_into_string :: "runner_owner_type \<Rightarrow> string" where
  "runner_owner_type_into_string UserRunner = ''user''"
| "runner_owner_type_into_string OrganizationRunner = ''organization''"

record build =
  bd_id :: uuid
  bd_number :: int
  bd_repository_id :: uuid
  bd_ref_name :: string
  bd_commit_sha :: string
  bd_trigger :: build_trigger
  bd_status :: build_status
  bd_created_at :: time

record build_with_stats = build +
  bs_total_tasks :: int
  bs_completed_tasks :: int
  bs_updated_at :: time

record task =
  tk_id :: uuid
  tk_repository_id :: uuid
  tk_build_id :: uuid
  tk_s2_uri :: string
  tk_waits_for :: "uuid list"
  tk_status :: task_status
  tk_name :: string
  tk_command :: string
  tk_runner_id :: "uuid option"
  tk_created_at :: time
  tk_updated_at :: time

record runner =
  rn_id :: uuid
  rn_name :: string
  rn_owner_id :: uuid
  rn_owner_name :: string
  rn_owner_type :: runner_owner_type
  rn_last_active :: "time option"
  rn_created_at :: time

text \<open>
  The schema decides which statements the database accepts. The chain of migrations that
  \<open>just migrate\<close> runs creates \<open>ci.task_status\<close> without the label \<open>blocked\<close>, and
  \<open>ci.builds.build_config\<close> as \<open>TEXT NOT NULL\<close> without a default. The code is written for tables
  with the label and without the column: that is where the archived migrations ended, which had the
  same tables outside the schema \<open>ci\<close>.
\<close>

record ci_schema =
  sc_blocked :: bool
  sc_build_config :: bool

definition intended_schema :: ci_schema where
  "intended_schema = \<lparr>sc_blocked = True, sc_build_config = False\<rparr>"

definition squashed_schema :: ci_schema where
  "squashed_schema = \<lparr>sc_blocked = False, sc_build_config = True\<rparr>"

record ci_db =
  ci_builds :: "build list"
  ci_tasks :: "task list"
  ci_runners :: "runner list"
  ci_schema_of :: ci_schema

text \<open>A value of the enumeration that the database knows.\<close>

definition known_status :: "ci_schema \<Rightarrow> task_status \<Rightarrow> bool" where
  "known_status sc st \<longleftrightarrow> (st = Blocked \<longrightarrow> sc_blocked sc)"

definition builds_ok :: "build list \<Rightarrow> bool" where
  "builds_ok bs \<longleftrightarrow> distinct (map bd_id bs) \<and> distinct (map (\<lambda>b. (bd_repository_id b, bd_number b)) bs)"

definition tasks_ok :: "task list \<Rightarrow> bool" where
  "tasks_ok ts \<longleftrightarrow> distinct (map tk_id ts)"

definition runners_ok :: "runner list \<Rightarrow> bool" where
  "runners_ok rs \<longleftrightarrow> distinct (map rn_id rs) \<and> distinct (map (\<lambda>r. (rn_owner_id r, rn_name r)) rs)"

section \<open>Tasks (repository/ci/task.rs)\<close>

text \<open>The status must be a label of the enumeration, and the build is a foreign key.\<close>

definition task_create ::
  "time \<Rightarrow> uuid \<Rightarrow> uuid \<Rightarrow> string \<Rightarrow> string \<Rightarrow> uuid \<Rightarrow> string \<Rightarrow> task_status \<Rightarrow> uuid list \<Rightarrow> ci_db
    \<Rightarrow> (database_error + task) \<times> ci_db"
where
  "task_create now i repository_id name command build_id s2_uri status waits_for ci =
     (let t = \<lparr>tk_id = i, tk_repository_id = repository_id, tk_build_id = build_id,
               tk_s2_uri = s2_uri, tk_waits_for = waits_for, tk_status = status, tk_name = name,
               tk_command = command, tk_runner_id = None, tk_created_at = now, tk_updated_at = now\<rparr>
      in if \<not> known_status (ci_schema_of ci) status then (Inl OtherDbError, ci)
         else if \<not> list_ex (\<lambda>b. bd_id b = build_id) (ci_builds ci) then (Inl OtherDbError, ci)
         else (case checked tasks_ok (ci_tasks ci @ [t]) of
                 Inl e \<Rightarrow> (Inl e, ci)
               | Inr ts \<Rightarrow> (Inr t, ci\<lparr>ci_tasks := ts\<rparr>)))"

definition task_get_by_id :: "uuid \<Rightarrow> ci_db \<Rightarrow> task option" where
  "task_get_by_id i ci = find (\<lambda>t. tk_id t = i) (ci_tasks ci)"

definition list_by_build_id :: "uuid \<Rightarrow> ci_db \<Rightarrow> task list" where
  "list_by_build_id build_id ci =
     sort_key tk_created_at (filter (\<lambda>t. tk_build_id t = build_id) (ci_tasks ci))"

definition set_status :: "task_status \<Rightarrow> time \<Rightarrow> task \<Rightarrow> task" where
  "set_status s now t = t\<lparr>tk_status := s, tk_updated_at := now\<rparr>"

definition repo_update_task :: "time \<Rightarrow> uuid \<Rightarrow> task_status \<Rightarrow> ci_db \<Rightarrow> (database_error + task) \<times> ci_db" where
  "repo_update_task now i status ci =
     (let ts = update_where (\<lambda>t. tk_id t = i) (set_status status now) (ci_tasks ci)
      in if \<not> known_status (ci_schema_of ci) status then (Inl OtherDbError, ci)
         else (case find (\<lambda>t. tk_id t = i) ts of
            None \<Rightarrow> (Inl RowNotFound, ci\<lparr>ci_tasks := ts\<rparr>)
          | Some t \<Rightarrow> (Inr t, ci\<lparr>ci_tasks := ts\<rparr>)))"

definition claimable :: "uuid set \<Rightarrow> uuid list \<Rightarrow> task \<Rightarrow> bool" where
  "claimable locked repository_ids t \<longleftrightarrow>
     tk_status t = Pending \<and> tk_repository_id t \<in> set repository_ids \<and> tk_id t \<notin> locked"

definition assign :: "uuid \<Rightarrow> time \<Rightarrow> task \<Rightarrow> task" where
  "assign runner_id now t =
     t\<lparr>tk_status := Assigned, tk_runner_id := Some runner_id, tk_updated_at := now\<rparr>"

text \<open>
  The oldest claimable task. The runner is a foreign key, so assigning to a runner that was
  deleted in the meantime fails.
\<close>

definition claim_task ::
  "uuid set \<Rightarrow> time \<Rightarrow> uuid \<Rightarrow> uuid list \<Rightarrow> ci_db \<Rightarrow> (database_error + task option) \<times> ci_db"
where
  "claim_task locked now runner_id repository_ids ci =
     (case sort_key tk_created_at (filter (claimable locked repository_ids) (ci_tasks ci)) of
        [] \<Rightarrow> (Inr None, ci)
      | t # _ \<Rightarrow>
          if list_ex (\<lambda>r. rn_id r = runner_id) (ci_runners ci)
          then (Inr (Some (assign runner_id now t)),
                ci\<lparr>ci_tasks := update_where (\<lambda>x. tk_id x = tk_id t) (assign runner_id now) (ci_tasks ci)\<rparr>)
          else (Inl OtherDbError, ci))"

text \<open>
  \<open>NOT EXISTS (SELECT 1 FROM unnest(waits_for) JOIN ci.tasks ..)\<close>: an identifier in
  \<open>waits_for\<close> with no row is no obstacle.
\<close>

definition deps_done :: "task list \<Rightarrow> task \<Rightarrow> bool" where
  "deps_done ts t \<longleftrightarrow>
     \<not> list_ex (\<lambda>d. list_ex (\<lambda>t2. tk_id t2 = d \<and> tk_status t2 \<noteq> Success) ts) (tk_waits_for t)"

definition unblockable :: "uuid \<Rightarrow> task list \<Rightarrow> task \<Rightarrow> bool" where
  "unblockable build_id ts t \<longleftrightarrow> tk_build_id t = build_id \<and> tk_status t = Blocked \<and> deps_done ts t"

text \<open>The literal \<open>'blocked'\<close> of the condition must be a label of the enumeration, whatever the rows.\<close>

definition unblock_tasks :: "time \<Rightarrow> uuid \<Rightarrow> ci_db \<Rightarrow> (database_error + task list) \<times> ci_db" where
  "unblock_tasks now build_id ci =
     (let hit = unblockable build_id (ci_tasks ci)
      in if \<not> known_status (ci_schema_of ci) Blocked then (Inl OtherDbError, ci)
         else (Inr (map (set_status Pending now) (filter hit (ci_tasks ci))),
               ci\<lparr>ci_tasks := update_where hit (set_status Pending now) (ci_tasks ci)\<rparr>))"

section \<open>Builds (repository/ci/build.rs)\<close>

text \<open>
  \<open>COALESCE(MAX(number), 0) + 1\<close>, computed in 32 bits: the database refuses to overflow. The
  statement gives no \<open>build_config\<close>.
\<close>

definition next_number :: "uuid \<Rightarrow> build list \<Rightarrow> int" where
  "next_number repository_id bs =
     (let ns = map bd_number (filter (\<lambda>b. bd_repository_id b = repository_id) bs)
      in (if ns = [] then 0 else Max (set ns)) + 1)"

definition build_create ::
  "uuid \<Rightarrow> time \<Rightarrow> uuid \<Rightarrow> build_trigger \<Rightarrow> string \<Rightarrow> string \<Rightarrow> ci_db \<Rightarrow> (database_error + build) \<times> ci_db"
where
  "build_create new_id now repository_id trigger commit_sha ref_name ci =
     (let n = next_number repository_id (ci_builds ci);
          b = \<lparr>bd_id = new_id, bd_number = n, bd_repository_id = repository_id,
               bd_ref_name = ref_name, bd_commit_sha = commit_sha, bd_trigger = trigger,
               bd_status = BuildRunning, bd_created_at = now\<rparr>
      in if sc_build_config (ci_schema_of ci) \<or> 2147483647 < n then (Inl OtherDbError, ci)
         else (case checked builds_ok (ci_builds ci @ [b]) of
                 Inl e \<Rightarrow> (Inl e, ci)
               | Inr bs \<Rightarrow> (Inr b, ci\<lparr>ci_builds := bs\<rparr>)))"

definition build_get :: "uuid \<Rightarrow> int \<Rightarrow> ci_db \<Rightarrow> build option" where
  "build_get repository_id number ci =
     find (\<lambda>b. bd_repository_id b = repository_id \<and> bd_number b = number) (ci_builds ci)"

text \<open>The aggregation over the joined tasks.\<close>

definition sql_status :: "task list \<Rightarrow> build_status" where
  "sql_status ts =
     (let count = (\<lambda>s. length (filter (\<lambda>t. tk_status t = s) ts))
      in if length ts = 0 then BuildRunning
         else if 0 < count Failure then BuildFailure
         else if length ts = count Success then BuildSuccess
         else BuildRunning)"

definition build_stats :: "task list \<Rightarrow> build \<Rightarrow> build_with_stats" where
  "build_stats all b =
     (let ts = filter (\<lambda>t. tk_build_id t = bd_id b) all
      in build.extend (b\<lparr>bd_status := sql_status ts\<rparr>)
           (build_with_stats.fields
              (int (length ts))
              (int (length (filter (\<lambda>t. tk_status t = Success) ts)))
              (if ts = [] then bd_created_at b else Max (set (map tk_updated_at ts)))))"

definition build_key :: "'a build_scheme \<Rightarrow> time \<times> uuid" where
  "build_key b = (bd_created_at b, bd_id b)"

definition list_by_repo ::
  "uuid \<Rightarrow> ci_db \<Rightarrow> cursor option \<Rightarrow> nat \<Rightarrow> build_with_stats list \<times> cursor option"
where
  "list_by_repo repository_id ci cur limit =
     pop_extra build_key limit
       (map (build_stats (ci_tasks ci))
          (keyset_fetch build_key (filter (\<lambda>b. bd_repository_id b = repository_id) (ci_builds ci))
             cur (limit + 1)))"

section \<open>Runners (repository/ci/runner.rs)\<close>

text \<open>\<open>name\<close> and \<open>owner_name\<close> are \<open>VARCHAR(100)\<close>.\<close>

definition runner_create ::
  "uuid \<Rightarrow> time \<Rightarrow> string \<Rightarrow> uuid \<Rightarrow> string \<Rightarrow> runner_owner_type \<Rightarrow> ci_db
    \<Rightarrow> (database_error + runner) \<times> ci_db"
where
  "runner_create new_id now name owner_id owner_name ot ci =
     (let r = \<lparr>rn_id = new_id, rn_name = name, rn_owner_id = owner_id, rn_owner_name = owner_name,
               rn_owner_type = ot, rn_last_active = None, rn_created_at = now\<rparr>
      in if 100 < char_count name \<or> 100 < char_count owner_name then (Inl OtherDbError, ci)
         else (case checked runners_ok (ci_runners ci @ [r]) of
            Inl e \<Rightarrow> (Inl e, ci)
          | Inr rs \<Rightarrow> (Inr r, ci\<lparr>ci_runners := rs\<rparr>)))"

definition runner_get :: "string \<Rightarrow> string \<Rightarrow> ci_db \<Rightarrow> runner option" where
  "runner_get owner_name name ci =
     find (\<lambda>r. rn_name r = name \<and> rn_owner_name r = owner_name) (ci_runners ci)"

text \<open>\<open>ci.tasks.runner_id\<close> references the runner without a delete rule.\<close>

definition runner_delete :: "uuid \<Rightarrow> ci_db \<Rightarrow> (database_error + unit) \<times> ci_db" where
  "runner_delete i ci =
     (if \<not> list_ex (\<lambda>r. rn_id r = i) (ci_runners ci) then (Inl RowNotFound, ci)
      else if list_ex (\<lambda>t. tk_runner_id t = Some i) (ci_tasks ci) then (Inl OtherDbError, ci)
      else (Inr (), ci\<lparr>ci_runners := filter (\<lambda>r. rn_id r \<noteq> i) (ci_runners ci)\<rparr>))"

definition runner_get_by_id :: "uuid \<Rightarrow> ci_db \<Rightarrow> runner option" where
  "runner_get_by_id i ci = find (\<lambda>r. rn_id r = i) (ci_runners ci)"

definition runner_touch :: "time \<Rightarrow> uuid \<Rightarrow> ci_db \<Rightarrow> (database_error + unit) \<times> ci_db" where
  "runner_touch now i ci =
     (if list_ex (\<lambda>r. rn_id r = i) (ci_runners ci)
      then (Inr (), ci\<lparr>ci_runners := update_where (\<lambda>r. rn_id r = i)
                       (\<lambda>r. r\<lparr>rn_last_active := Some now\<rparr>) (ci_runners ci)\<rparr>)
      else (Inl RowNotFound, ci))"

definition runner_key :: "runner \<Rightarrow> time \<times> uuid" where
  "runner_key r = (rn_created_at r, rn_id r)"

definition runner_list_by_owner ::
  "string \<Rightarrow> ci_db \<Rightarrow> cursor option \<Rightarrow> nat \<Rightarrow> runner list \<times> cursor option"
where
  "runner_list_by_owner owner_name ci cur limit =
     pop_extra runner_key limit
       (keyset_fetch runner_key (filter (\<lambda>r. rn_owner_name r = owner_name) (ci_runners ci)) cur (limit + 1))"

section \<open>Lemmas\<close>

interpretation runners: listing "runner_list_by_owner owner"
    "\<lambda>ci. filter (\<lambda>r. rn_owner_name r = owner) (ci_runners ci)" runner_key
  by unfold_locales (simp add: runner_list_by_owner_def keyset_page_def)

text \<open>The status of every task after each statement.\<close>

named_theorems status_after

lemma set_status_simps [simp]:
  "tk_id (set_status s now t) = tk_id t" "tk_status (set_status s now t) = s"
  "tk_waits_for (set_status s now t) = tk_waits_for t"
  "tk_build_id (set_status s now t) = tk_build_id t"
  "tk_repository_id (set_status s now t) = tk_repository_id t"
  by (simp_all add: set_status_def)

lemma assign_simps [simp]:
  "tk_id (assign r now t) = tk_id t" "tk_status (assign r now t) = Assigned"
  "tk_waits_for (assign r now t) = tk_waits_for t"
  "tk_build_id (assign r now t) = tk_build_id t"
  "tk_repository_id (assign r now t) = tk_repository_id t"
  by (simp_all add: assign_def)

lemma tasks_after_update [status_after]:
  "ci_tasks (snd (repo_update_task now i s ci)) =
    (if known_status (ci_schema_of ci) s
     then update_where (\<lambda>t. tk_id t = i) (set_status s now) (ci_tasks ci) else ci_tasks ci)"
  by (simp add: repo_update_task_def Let_def split: option.splits)

lemma tasks_after_unblock [status_after]:
  "ci_tasks (snd (unblock_tasks now build_id ci)) =
    (if sc_blocked (ci_schema_of ci)
     then update_where (unblockable build_id (ci_tasks ci)) (set_status Pending now) (ci_tasks ci)
     else ci_tasks ci)"
  by (simp add: unblock_tasks_def known_status_def Let_def)

lemma known_status_simps [simp]:
  "st \<noteq> Blocked \<Longrightarrow> known_status sc st" "known_status sc Blocked \<longleftrightarrow> sc_blocked sc"
  by (simp_all add: known_status_def)

text \<open>No statement changes the schema.\<close>

lemma schema_kept [simp]:
  "ci_schema_of (snd (repo_update_task now i s ci)) = ci_schema_of ci"
  "ci_schema_of (snd (unblock_tasks now k ci)) = ci_schema_of ci"
  "ci_schema_of (snd (claim_task locked now r ids ci)) = ci_schema_of ci"
  by (simp_all add: repo_update_task_def unblock_tasks_def claim_task_def Let_def
      split: option.splits list.splits)

lemma head_of_sorted:
  assumes "sort_key f (filter P xs) = t # rest"
  shows "t \<in> set xs" "P t" "\<And>x. x \<in> set xs \<Longrightarrow> P x \<Longrightarrow> f t \<le> f x"
proof -
  have "set (t # rest) = set (filter P xs)" using assms by (metis set_sort)
  moreover have "sorted (map f (t # rest))" using assms by (metis sorted_sort_key)
  ultimately show "t \<in> set xs" "P t" "\<And>x. x \<in> set xs \<Longrightarrow> P x \<Longrightarrow> f t \<le> f x"
    by (auto simp: set_eq_iff)
qed

lemma tasks_after_claim [status_after]:
  "ci_tasks (snd (claim_task locked now runner ids ci)) =
     (case fst (claim_task locked now runner ids ci) of
        Inr (Some t) \<Rightarrow> update_where (\<lambda>x. tk_id x = tk_id t) (assign runner now) (ci_tasks ci)
      | _ \<Rightarrow> ci_tasks ci)"
  by (simp add: claim_task_def split: list.splits)

lemma claim_task_Some:
  assumes "fst (claim_task locked now runner ids ci) = Inr (Some t)"
  obtains t0 where "t0 \<in> set (ci_tasks ci)" "claimable locked ids t0" "t = assign runner now t0"
    "\<forall>x \<in> set (ci_tasks ci). claimable locked ids x \<longrightarrow> tk_created_at t0 \<le> tk_created_at x"
proof -
  obtain t0 rest where sorted: "sort_key tk_created_at (filter (claimable locked ids) (ci_tasks ci)) = t0 # rest"
    and "t = assign runner now t0"
    using assms by (auto simp: claim_task_def split: list.splits if_splits)
  with head_of_sorted [OF sorted] that show ?thesis by blast
qed

lemma claim_task_None:
  "fst (claim_task locked now runner ids ci) = Inr None \<longleftrightarrow>
    (\<forall>t \<in> set (ci_tasks ci). \<not> claimable locked ids t)"
proof -
  have "sort_key tk_created_at (filter (claimable locked ids) (ci_tasks ci)) = [] \<longleftrightarrow>
      filter (claimable locked ids) (ci_tasks ci) = []"
    by (metis length_0_conv length_sort)
  then show ?thesis
    by (auto simp: claim_task_def filter_empty_conv split: list.splits if_splits)
qed

lemma next_number_new:
  "b \<in> set bs \<Longrightarrow> bd_repository_id b = repository_id \<Longrightarrow> bd_number b < next_number repository_id bs"
  by (auto simp: next_number_def Let_def filter_empty_conv simp: zle_add1_eq_le intro!: Max_ge)

end
