(* ===== verification/CiService.thy ===== *)
theory CiService
  imports CiStore RepoStore
begin

text \<open>
  \<open>service/ci/build.rs\<close> and \<open>service/ci/task.rs\<close>: creating a build and its tasks, reading
  builds, and the runner's side (claiming and reporting).

  Parameters: the results of the git client for a commit and a blob, the result of creating a
  log stream per task, the TOML parser, the order in which a hash map yields keys, and the
  identifiers and times that are drawn. \<open>try_join_all\<close> runs one future per task concurrently:
  \<open>order\<close> is the order in which their inserts happen.
\<close>

section \<open>Errors\<close>

datatype git_error =
    GitNotFound string
  | GitNotABlob string
  | GitMergeConflict string
  | GitIoError string
  | Git2Error string
  | GitJoinError string

datatype build_error =
    BuildInput input_error
  | BuildNotFound not_found_error
  | BuildInvalidConfig string
  | BuildGitError git_error
  | BuildJoinError string
  | BuildDatabaseError database_error
  | BuildS2Error string

datatype task_error =
    TaskInput input_error
  | TaskNotFound not_found_error
  | NoBuildConfig
  | TaskDatabaseError database_error

text \<open>The \<open>Display\<close> texts of a configuration error.\<close>

fun ci_config_error_text :: "ci_config_error \<Rightarrow> string" where
  "ci_config_error_text (CfgParse e) = ''failed to parse config: '' @ e"
| "ci_config_error_text (CfgValidation es) =
     ''config validation failed:'' @ [CHR 0x0A] @ join_str [CHR 0x0A] (map (\<lambda>e. ''  - '' @ e) es)"
| "ci_config_error_text (NoMatchingBuild t) =
     ''no build config found for trigger '' @ [CHR 0x27] @ t @ [CHR 0x27]"
| "ci_config_error_text (InvalidTrigger t) =
     ''unknown build trigger '' @ [CHR 0x27] @ t @ [CHR 0x27]"

section \<open>Responses (dto/domain/ci)\<close>

record build_response =
  br_id :: uuid
  br_number :: int
  br_repository_id :: uuid
  br_ref_name :: string
  br_trigger :: build_trigger
  br_commit_sha :: string
  br_status :: build_status
  br_total_tasks :: int
  br_completed_tasks :: int
  br_created_at :: time
  br_updated_at :: time

definition build_response_from_stats :: "build_with_stats \<Rightarrow> build_response" where
  "build_response_from_stats b =
     \<lparr>br_id = bd_id b, br_number = bd_number b, br_repository_id = bd_repository_id b,
      br_ref_name = bd_ref_name b, br_trigger = bd_trigger b, br_commit_sha = bd_commit_sha b,
      br_status = bd_status b, br_total_tasks = bs_total_tasks b,
      br_completed_tasks = bs_completed_tasks b, br_created_at = bd_created_at b,
      br_updated_at = bs_updated_at b\<rparr>"

record task_response =
  tr_id :: uuid
  tr_repository_id :: uuid
  tr_build_id :: uuid
  tr_s2_uri :: string
  tr_name :: string
  tr_command :: string
  tr_status :: task_status
  tr_waits_for :: "uuid list"
  tr_created_at :: time
  tr_updated_at :: time

definition task_response_from :: "task \<Rightarrow> task_response" where
  "task_response_from t =
     \<lparr>tr_id = tk_id t, tr_repository_id = tk_repository_id t, tr_build_id = tk_build_id t,
      tr_s2_uri = tk_s2_uri t, tr_name = tk_name t, tr_command = tk_command t,
      tr_status = tk_status t, tr_waits_for = tk_waits_for t, tr_created_at = tk_created_at t,
      tr_updated_at = tk_updated_at t\<rparr>"

record update_task_request =
  ut_id :: uuid
  ut_status :: task_status

text \<open>Only a running, successful or failed status may be reported.\<close>

definition update_task_request_new :: "uuid \<Rightarrow> string \<Rightarrow> task_error + update_task_request" where
  "update_task_request_new i s =
     (case task_status_try_from s of
        Inl e \<Rightarrow> Inl (TaskInput e)
      | Inr st \<Rightarrow>
          if st \<in> {Running, Success, Failure} then Inr \<lparr>ut_id = i, ut_status = st\<rparr>
          else Inl (TaskInput (InputError ''task status'' (task_status_into_string st))))"

section \<open>Creating a build (service/ci/build.rs)\<close>

definition DEFAULT_BRANCH :: string where "DEFAULT_BRANCH = ''main''"

text \<open>\<open>rsplit('/').next()\<close>: what follows the last slash.\<close>

definition last_segment :: "string \<Rightarrow> string" where
  "last_segment s = rev (takeWhile (\<lambda>c. c \<noteq> CHR ''/'') (rev s))"

definition ci_trigger_of :: "string \<Rightarrow> build_trigger" where
  "ci_trigger_of ref_name =
     (if ref_name = DEFAULT_BRANCH \<or> last_segment ref_name = DEFAULT_BRANCH
      then PushToMain else PullRequest)"

text \<open>\<open>name_to_id\<close>: a later insert under the same name replaces the earlier one.\<close>

definition assign_ids :: "task_config list \<Rightarrow> uuid list \<Rightarrow> string \<Rightarrow> uuid option" where
  "assign_ids configs ids = map_of (rev (zip (map tc_name configs) ids))"

record planned_task =
  pt_id :: uuid
  pt_name :: string
  pt_command :: string
  pt_status :: task_status
  pt_waits_for :: "uuid list"

definition plan_task :: "(string \<Rightarrow> uuid option) \<Rightarrow> task_config \<Rightarrow> planned_task" where
  "plan_task name_to_id t =
     (let waits_for = List.map_filter name_to_id (deps_of t)
      in \<lparr>pt_id = the (name_to_id (tc_name t)), pt_name = tc_name t, pt_command = tc_command t,
          pt_status = (if waits_for = [] then Pending else Blocked), pt_waits_for = waits_for\<rparr>)"

text \<open>
  The futures of \<open>try_join_all\<close>, in the order in which they run to their insert. The first
  error is returned and the futures after it are dropped.
\<close>

fun insert_planned ::
  "(uuid \<Rightarrow> string + string) \<Rightarrow> (uuid \<Rightarrow> time) \<Rightarrow> uuid \<Rightarrow> uuid \<Rightarrow> planned_task list \<Rightarrow> ci_db
    \<Rightarrow> (build_error + unit) \<times> ci_db"
where
  "insert_planned create_stream clock repository_id build_id [] ci = (Inr (), ci)"
| "insert_planned create_stream clock repository_id build_id (p # ps) ci =
     (case create_stream (pt_id p) of
        Inl e \<Rightarrow> (Inl (BuildS2Error e), ci)
      | Inr s2_uri \<Rightarrow>
          (case task_create (clock (pt_id p)) (pt_id p) repository_id (pt_name p) (pt_command p)
                  build_id s2_uri (pt_status p) (pt_waits_for p) ci of
             (Inl e, ci') \<Rightarrow> (Inl (BuildDatabaseError e), ci')
           | (Inr _, ci') \<Rightarrow> insert_planned create_stream clock repository_id build_id ps ci'))"

record build_env =
  be_commit :: "string \<Rightarrow> string \<Rightarrow> string \<Rightarrow> git_error + string"
  be_blob :: "string \<Rightarrow> string \<Rightarrow> string \<Rightarrow> string \<Rightarrow> git_error + string"
  be_toml :: "string \<Rightarrow> string + ci_config"
  be_nodes :: "ci_config \<Rightarrow> string list"
  be_stream :: "string \<Rightarrow> string \<Rightarrow> uuid \<Rightarrow> string + string"
  be_build_id :: uuid
  be_task_id :: "nat \<Rightarrow> uuid"
  be_now :: time
  be_clock :: "uuid \<Rightarrow> time"
  be_order :: "planned_task list \<Rightarrow> planned_task list"

definition path_of :: "string \<Rightarrow> string \<Rightarrow> string" where
  "path_of owner repo = owner @ ''/'' @ repo"

text \<open>Everything up to the insert of the build: reads only.\<close>

definition resolve_build ::
  "build_env \<Rightarrow> string \<Rightarrow> string \<Rightarrow> string \<Rightarrow> string \<Rightarrow> core_db
    \<Rightarrow> build_error + repository \<times> string \<times> ci_config \<times> build_trigger \<times> build_config"
where
  "resolve_build env owner repo ref_name commit_sha core =
     and_then (map_err BuildDatabaseError (repo_get owner repo None core)) (\<lambda>found.
     and_then (map_err BuildNotFound
                 (opt_or_not_found found ''repository'' (IdStr (path_of owner repo)))) (\<lambda>repository.
     and_then (map_err BuildGitError (be_commit env owner repo commit_sha)) (\<lambda>sha.
     and_then (map_err (\<lambda>e. case e of
                   GitNotFound _ \<Rightarrow> BuildNotFound (NotFoundError ''config'' (IdStr commit_sha))
                 | other \<Rightarrow> BuildGitError other)
                 (be_blob env owner repo sha ''.gitdot-ci.toml'')) (\<lambda>content.
     and_then (map_err (\<lambda>e. BuildInvalidConfig (ci_config_error_text e))
                 (ci_config_new (be_toml env) (be_nodes env) content)) (\<lambda>cfg.
     and_then (map_err (\<lambda>e. BuildInvalidConfig (ci_config_error_text e))
                 (get_build_config cfg (ci_trigger_of ref_name))) (\<lambda>bc.
     Inr (repository, sha, cfg, ci_trigger_of ref_name, bc)))))))"

definition planned_tasks :: "build_env \<Rightarrow> ci_config \<Rightarrow> build_config \<Rightarrow> planned_task list" where
  "planned_tasks env cfg bc =
     (let configs = get_task_configs cfg bc
      in map (plan_task (assign_ids configs (map (be_task_id env) [0..<length configs]))) configs)"

definition create_build ::
  "build_env \<Rightarrow> string \<Rightarrow> string \<Rightarrow> string \<Rightarrow> string \<Rightarrow> core_db \<Rightarrow> ci_db
    \<Rightarrow> (build_error + build_response) \<times> ci_db"
where
  "create_build env owner repo ref_name commit_sha core ci =
     (case resolve_build env owner repo ref_name commit_sha core of
        Inl e \<Rightarrow> (Inl e, ci)
      | Inr (repository, sha, cfg, trigger, bc) \<Rightarrow>
          (case build_create (be_build_id env) (be_now env) (rp_id repository) trigger sha ref_name ci of
             (Inl e, ci1) \<Rightarrow> (Inl (BuildDatabaseError e), ci1)
           | (Inr b, ci1) \<Rightarrow>
               (case insert_planned (be_stream env owner repo) (be_clock env) (rp_id repository) (bd_id b)
                       (be_order env (planned_tasks env cfg bc)) ci1 of
                  (Inl e, ci2) \<Rightarrow> (Inl e, ci2)
                | (Inr _, ci2) \<Rightarrow>
                    (Inr \<lparr>br_id = bd_id b, br_number = bd_number b, br_repository_id = bd_repository_id b,
                          br_ref_name = bd_ref_name b, br_trigger = bd_trigger b,
                          br_commit_sha = bd_commit_sha b, br_status = BuildRunning,
                          br_total_tasks = int (length (get_task_configs cfg bc)),
                          br_completed_tasks = 0, br_created_at = bd_created_at b,
                          br_updated_at = bd_created_at b\<rparr>, ci2))))"

section \<open>Reading builds\<close>

definition find_repository :: "string \<Rightarrow> string \<Rightarrow> core_db \<Rightarrow> build_error + repository" where
  "find_repository owner repo core =
     and_then (map_err BuildDatabaseError (repo_get owner repo None core)) (\<lambda>found.
     map_err BuildNotFound (opt_or_not_found found ''repository'' (IdStr (path_of owner repo))))"

definition list_builds ::
  "(cursor \<Rightarrow> string) \<Rightarrow> string \<Rightarrow> string \<Rightarrow> cursor option \<Rightarrow> nat \<Rightarrow> core_db \<Rightarrow> ci_db
    \<Rightarrow> build_error + build_response page"
where
  "list_builds enc owner repo cur limit core ci =
     and_then (find_repository owner repo core) (\<lambda>r.
       (let (builds, next_cursor) = list_by_repo (rp_id r) ci cur limit
        in Inr \<lparr>pg_data = map build_response_from_stats builds,
                pg_next_cursor = map_option enc next_cursor\<rparr>))"

definition find_build :: "string \<Rightarrow> string \<Rightarrow> int \<Rightarrow> core_db \<Rightarrow> ci_db \<Rightarrow> build_error + build" where
  "find_build owner repo number core ci =
     and_then (find_repository owner repo core) (\<lambda>r.
     map_err BuildNotFound (opt_or_not_found (build_get (rp_id r) number ci) ''build''
       (IdStr (path_of owner repo @ ''#'' @ show_int number))))"

definition tasks_status :: "task list \<Rightarrow> build_status" where
  "tasks_status tasks =
     (if tasks = [] then BuildRunning
      else if list_ex (\<lambda>t. tk_status t = Failure) tasks then BuildFailure
      else if list_all (\<lambda>t. tk_status t = Success) tasks then BuildSuccess
      else BuildRunning)"

definition build_response_of :: "build \<Rightarrow> task list \<Rightarrow> build_response" where
  "build_response_of b tasks =
     \<lparr>br_id = bd_id b, br_number = bd_number b, br_repository_id = bd_repository_id b,
      br_ref_name = bd_ref_name b, br_trigger = bd_trigger b, br_commit_sha = bd_commit_sha b,
      br_status = tasks_status tasks,
      br_total_tasks = int (length tasks),
      br_completed_tasks = int (length (filter (\<lambda>t. tk_status t = Success) tasks)),
      br_created_at = bd_created_at b,
      br_updated_at = (if tasks = [] then bd_created_at b else Max (set (map tk_updated_at tasks)))\<rparr>"

definition get_build :: "string \<Rightarrow> string \<Rightarrow> int \<Rightarrow> core_db \<Rightarrow> ci_db \<Rightarrow> build_error + build_response" where
  "get_build owner repo number core ci =
     and_then (find_build owner repo number core ci) (\<lambda>b.
       Inr (build_response_of b (list_by_build_id (bd_id b) ci)))"

definition list_build_tasks ::
  "string \<Rightarrow> string \<Rightarrow> int \<Rightarrow> core_db \<Rightarrow> ci_db \<Rightarrow> build_error + task_response list"
where
  "list_build_tasks owner repo number core ci =
     and_then (find_build owner repo number core ci) (\<lambda>b.
       Inr (map task_response_from (list_by_build_id (bd_id b) ci)))"

section \<open>The runner's side (service/ci/task.rs)\<close>

definition get_task :: "uuid \<Rightarrow> ci_db \<Rightarrow> task_error + task_response option" where
  "get_task i ci = Inr (map_option task_response_from (task_get_by_id i ci))"

definition update_task ::
  "time \<Rightarrow> update_task_request \<Rightarrow> ci_db \<Rightarrow> (task_error + task_response) \<times> ci_db"
where
  "update_task now req ci =
     (case repo_update_task now (ut_id req) (ut_status req) ci of
        (res, ci1) \<Rightarrow>
          (case res_or_not_found TaskNotFound TaskDatabaseError res ''task'' (IdUuid (ut_id req)) of
             Inl e \<Rightarrow> (Inl e, ci1)
           | Inr t \<Rightarrow>
               if tk_status t = Success
               then (case unblock_tasks now (tk_build_id t) ci1 of
                       (Inl e, ci2) \<Rightarrow> (Inl (TaskDatabaseError e), ci2)
                     | (Inr _, ci2) \<Rightarrow> (Inr (task_response_from t), ci2))
               else (Inr (task_response_from t), ci1)))"

text \<open>
  The loop of \<open>poll_task\<close>. The \<open>i\<close>-th round claims at \<open>claim_time i\<close> with the rows
  \<open>locked i\<close> skipped, reads the clock as \<open>instant i\<close>, and sleeps; \<open>others i\<close> is what the rest
  of the system does to the store during that sleep.
\<close>

partial_function (option) poll_loop ::
  "(nat \<Rightarrow> uuid set) \<Rightarrow> (nat \<Rightarrow> time) \<Rightarrow> (nat \<Rightarrow> time) \<Rightarrow> (nat \<Rightarrow> ci_db \<Rightarrow> ci_db) \<Rightarrow> time \<Rightarrow> uuid \<Rightarrow> uuid list
    \<Rightarrow> nat \<Rightarrow> ci_db \<Rightarrow> ((task_error + task_response option) \<times> ci_db) option"
where
  "poll_loop locked claim_time instant others deadline runner_id repository_ids i ci =
     (case claim_task (locked i) (claim_time i) runner_id repository_ids ci of
        (Inl e, ci') \<Rightarrow> Some (Inl (TaskDatabaseError e), ci')
      | (Inr (Some t), ci') \<Rightarrow> Some (Inr (Some (task_response_from t)), ci')
      | (Inr None, ci') \<Rightarrow>
          if deadline \<le> instant i then Some (Inr None, ci')
          else poll_loop locked claim_time instant others deadline runner_id repository_ids (Suc i) (others i ci'))"

definition poll_task ::
  "(nat \<Rightarrow> uuid set) \<Rightarrow> (nat \<Rightarrow> time) \<Rightarrow> (nat \<Rightarrow> time) \<Rightarrow> (nat \<Rightarrow> ci_db \<Rightarrow> ci_db) \<Rightarrow> time \<Rightarrow> time \<Rightarrow> uuid
    \<Rightarrow> core_db \<Rightarrow> ci_db \<Rightarrow> ((task_error + task_response option) \<times> ci_db) option"
where
  "poll_task locked claim_time instant others now start runner_id core ci =
     (case runner_touch now runner_id ci of
        (Inl e, ci1) \<Rightarrow> Some (Inl (TaskDatabaseError e), ci1)
      | (Inr _, ci1) \<Rightarrow>
          (case runner_get_by_id runner_id ci1 of
             None \<Rightarrow> Some (Inl (TaskNotFound (NotFoundError ''runner'' (IdUuid runner_id))), ci1)
           | Some r \<Rightarrow>
               (case repo_list_by_owner (rn_owner_name r) None None MAX_PER_PAGE_LIMIT core of
                  Inl e \<Rightarrow> Some (Inl (TaskDatabaseError e), ci1)
                | Inr (repos, _) \<Rightarrow>
                    poll_loop locked claim_time instant others (start + 60 * 1000000) runner_id
                      (map rp_id repos) 0 ci1)))"

end
