(* ===== verification/ReviewDto.thy ===== *)
theory ReviewDto
  imports ReviewStore Names CiService
begin

text \<open>
  \<open>dto/domain/core/review.rs\<close>, the request \<open>ProcessReviewRequest\<close> with its parser of magic refs,
  the request of a review of a diff, \<open>util/review.rs\<close> and \<open>error/domain/core/review.rs\<close>.
\<close>

section \<open>Errors\<close>

datatype review_error =
    ReviewInput input_error
  | ReviewNotFound not_found_error
  | ReviewConflict conflict_error
  | CannotReviewOwnReview string
  | CannotRemoveReviewAuthor string
  | CannotReviewOwnDiff
  | DiffAlreadyMerged
  | ReviewNotPublishable string
  | DiffNotPublishable string
  | DiffNotMergeable string
  | NotOrgAdmin string
  | CommitsNotFound
  | InvalidIdentifier
  | ReviewGitError git_error
  | ReviewDatabaseError database_error

section \<open>Responses\<close>

fun status_to_string :: "review_status \<Rightarrow> string" where
  "status_to_string ReviewDraft = ''draft''"
| "status_to_string ReviewOpen = ''open''"
| "status_to_string ReviewClosed = ''closed''"

fun diff_status_to_string :: "diff_status \<Rightarrow> string" where
  "diff_status_to_string DiffDraft = ''draft''"
| "diff_status_to_string DiffOpen = ''open''"
| "diff_status_to_string DiffMerged = ''merged''"

fun side_to_string :: "comment_side \<Rightarrow> string" where
  "side_to_string OldSide = ''old''"
| "side_to_string NewSide = ''new''"

fun verdict_to_string :: "review_verdict_kind \<Rightarrow> string" where
  "verdict_to_string VerdictApproved = ''approved''"
| "verdict_to_string VerdictRejected = ''rejected''"

record review_author_response =
  ra_id :: uuid
  ra_name :: string
  ra_image_updated_at :: time

definition review_author_response_from :: "user \<Rightarrow> review_author_response" where
  "review_author_response_from u = \<lparr>ra_id = us_id u, ra_name = us_name u, ra_image_updated_at = us_image_updated_at u\<rparr>"

record review_verdict_response =
  vr_id :: uuid
  vr_diff_id :: uuid
  vr_revision_id :: uuid
  vr_reviewer_id :: uuid
  vr_verdict :: string
  vr_created_at :: time

definition review_verdict_response_from :: "verdict_row \<Rightarrow> review_verdict_response" where
  "review_verdict_response_from v =
     \<lparr>vr_id = vd_id v, vr_diff_id = vd_diff_id v, vr_revision_id = vd_revision_id v,
      vr_reviewer_id = vd_reviewer_id v, vr_verdict = verdict_to_string (vd_verdict v),
      vr_created_at = vd_created_at v\<rparr>"

text \<open>\<open>Option::unwrap_or_default\<close> of a list.\<close>

definition or_empty :: "'a list option \<Rightarrow> 'a list" where
  "or_empty xs = (case xs of None \<Rightarrow> [] | Some ys \<Rightarrow> ys)"

lemma or_empty_simps [simp]: "or_empty None = []" "or_empty (Some xs) = xs"
  by (simp_all add: or_empty_def)

record revision_response =
  vs_id :: uuid
  vs_diff_id :: uuid
  vs_number :: int
  vs_commit_hash :: string
  vs_parent_hash :: string
  vs_created_at :: time
  vs_verdicts :: "review_verdict_response list"

definition revision_response_from :: "revision \<Rightarrow> revision_response" where
  "revision_response_from r =
     \<lparr>vs_id = rv_id r, vs_diff_id = rv_diff_id r, vs_number = rv_number r, vs_commit_hash = rv_commit_hash r,
      vs_parent_hash = rv_parent_hash r, vs_created_at = rv_created_at r,
      vs_verdicts = map review_verdict_response_from (or_empty (rv_verdicts r))\<rparr>"

record diff_response =
  ds_id :: uuid
  ds_review_id :: uuid
  ds_position :: int
  ds_message :: string
  ds_status :: string
  ds_created_at :: time
  ds_updated_at :: time
  ds_revisions :: "revision_response list"

definition diff_response_from :: "diff \<Rightarrow> diff_response" where
  "diff_response_from d =
     \<lparr>ds_id = df_id d, ds_review_id = df_review_id d, ds_position = df_position d, ds_message = df_message d,
      ds_status = diff_status_to_string (df_status d), ds_created_at = df_created_at d,
      ds_updated_at = df_updated_at d, ds_revisions = map revision_response_from (or_empty (df_revisions d))\<rparr>"

record reviewer_response =
  ws_id :: uuid
  ws_review_id :: uuid
  ws_reviewer_id :: uuid
  ws_created_at :: time
  ws_user :: "review_author_response option"

definition reviewer_response_from :: "reviewer \<Rightarrow> reviewer_response" where
  "reviewer_response_from r =
     \<lparr>ws_id = rr_id r, ws_review_id = rr_review_id r, ws_reviewer_id = rr_reviewer_id r,
      ws_created_at = rr_created_at r, ws_user = map_option review_author_response_from (rr_user r)\<rparr>"

record review_comment_response =
  cs_id :: uuid
  cs_review_id :: uuid
  cs_diff_id :: uuid
  cs_revision_id :: uuid
  cs_author_id :: uuid
  cs_parent_id :: "uuid option"
  cs_body :: string
  cs_file_path :: "string option"
  cs_line_number_start :: "int option"
  cs_line_number_end :: "int option"
  cs_start_character :: "int option"
  cs_end_character :: "int option"
  cs_side :: "string option"
  cs_resolved :: bool
  cs_created_at :: time
  cs_updated_at :: time
  cs_author :: "review_author_response option"

definition review_comment_response_from :: "review_comment \<Rightarrow> review_comment_response" where
  "review_comment_response_from c =
     \<lparr>cs_id = rc_id c, cs_review_id = rc_review_id c, cs_diff_id = rc_diff_id c, cs_revision_id = rc_revision_id c,
      cs_author_id = rc_author_id c, cs_parent_id = rc_parent_id c, cs_body = rc_body c,
      cs_file_path = rc_file_path c, cs_line_number_start = rc_line_number_start c,
      cs_line_number_end = rc_line_number_end c, cs_start_character = rc_start_character c,
      cs_end_character = rc_end_character c, cs_side = map_option side_to_string (rc_side c),
      cs_resolved = rc_resolved c, cs_created_at = rc_created_at c, cs_updated_at = rc_updated_at c,
      cs_author = map_option review_author_response_from (rc_author c)\<rparr>"

record review_response =
  rs_id :: uuid
  rs_number :: int
  rs_author_id :: uuid
  rs_repository_id :: uuid
  rs_title :: string
  rs_description :: string
  rs_target_branch :: string
  rs_status :: string
  rs_created_at :: time
  rs_updated_at :: time
  rs_author :: "review_author_response option"
  rs_diffs :: "diff_response list"
  rs_reviewers :: "reviewer_response list"
  rs_comments :: "review_comment_response list"

definition review_response_from :: "review \<Rightarrow> review_response" where
  "review_response_from r =
     \<lparr>rs_id = re_id r, rs_number = re_number r, rs_author_id = re_author_id r,
      rs_repository_id = re_repository_id r, rs_title = re_title r, rs_description = re_description r,
      rs_target_branch = re_target_branch r, rs_status = status_to_string (re_status r),
      rs_created_at = re_created_at r, rs_updated_at = re_updated_at r,
      rs_author = map_option review_author_response_from (re_author r),
      rs_diffs = map diff_response_from (or_empty (re_diffs r)),
      rs_reviewers = map reviewer_response_from (or_empty (re_reviewers r)),
      rs_comments = map review_comment_response_from (or_empty (re_comments r))\<rparr>"

section \<open>Refs (util/review.rs)\<close>

definition MAGIC_REF_PREFIX :: string where "MAGIC_REF_PREFIX = ''refs/for''"

definition get_target_ref :: "string \<Rightarrow> string" where
  "get_target_ref branch = ''refs/heads/'' @ branch"

definition get_head_ref :: "string \<Rightarrow> string" where
  "get_head_ref review_id = ''refs/reviews/'' @ review_id @ ''/head''"

definition get_revision_ref :: "string \<Rightarrow> int \<Rightarrow> int \<Rightarrow> string" where
  "get_revision_ref review_id diff_position revision_number =
     ''refs/reviews/'' @ review_id @ ''/diffs/'' @ show_int diff_position @ ''/revisions/'' @ show_int revision_number"

definition get_current_ref :: "string \<Rightarrow> int \<Rightarrow> string" where
  "get_current_ref review_id diff_position =
     ''refs/reviews/'' @ review_id @ ''/diffs/'' @ show_int diff_position @ ''/current''"

section \<open>Pushes to magic refs\<close>

text \<open>\<open>str::parse::<i64>\<close> and \<open>as i32\<close>.\<close>

definition parse_i64 :: "string \<Rightarrow> int option" where
  "parse_i64 s =
     (let neg = s \<noteq> [] \<and> hd s = CHR ''-'';
          digits = (if s \<noteq> [] \<and> (hd s = CHR ''-'' \<or> hd s = CHR ''+'') then tl s else s);
          n = (if neg then - int (read_nat digits) else int (read_nat digits))
      in if digits = [] \<or> \<not> list_all is_digit digits \<or> n < - (2 ^ 63) \<or> 2 ^ 63 \<le> n then None else Some n)"

definition as_i32 :: "int \<Rightarrow> int" where
  "as_i32 n = (n + 2 ^ 31) mod 2 ^ 32 - 2 ^ 31"

text \<open>\<open>rsplit_once('/')\<close>.\<close>

definition rsplit_slash :: "string \<Rightarrow> (string \<times> string) option" where
  "rsplit_slash s =
     (if CHR ''/'' \<notin> set s then None
      else (let tail = rev (takeWhile (\<lambda>c. c \<noteq> CHR ''/'') (rev s))
            in Some (take (length s - length tail - 1) s, tail)))"

definition invalid_ref :: "string \<Rightarrow> review_error" where
  "invalid_ref ref_name = ReviewInput (InputError ''ref name'' (''invalid review ref: '' @ ref_name))"

definition parse_ref :: "string \<Rightarrow> review_error + string \<times> int option" where
  "parse_ref ref_name =
     (case Option.bind (strip_prefix MAGIC_REF_PREFIX ref_name) (strip_prefix ''/'') of
        None \<Rightarrow> Inl (invalid_ref ref_name)
      | Some [] \<Rightarrow> Inl (invalid_ref ref_name)
      | Some rest \<Rightarrow>
          (case rsplit_slash rest of
             None \<Rightarrow> Inr (rest, None)
           | Some (branch, number) \<Rightarrow>
               (case parse_i64 number of
                  None \<Rightarrow> Inr (rest, None)
                | Some n \<Rightarrow> if branch = [] then Inl (invalid_ref ref_name) else Inr (branch, Some n))))"

record process_review_request =
  pq_owner :: string
  pq_repo :: string
  pq_target_branch :: string
  pq_review_number :: "int option"
  pq_new_sha :: string
  pq_pusher_id :: uuid

definition process_review_request_new ::
  "(string \<Rightarrow> string) \<Rightarrow> string \<Rightarrow> string \<Rightarrow> string \<Rightarrow> string \<Rightarrow> uuid \<Rightarrow> review_error + process_review_request"
where
  "process_review_request_new lower owner repo ref_name new_sha pusher_id =
     and_then (parse_ref ref_name) (\<lambda>(target_branch, review_number).
     and_then (map_err ReviewInput (owner_name_parse lower owner ''owner name'')) (\<lambda>o1.
     and_then (map_err ReviewInput (repository_name_parse lower repo ''repository name'')) (\<lambda>r1.
     Inr \<lparr>pq_owner = o1, pq_repo = r1, pq_target_branch = target_branch, pq_review_number = review_number,
          pq_new_sha = new_sha, pq_pusher_id = pusher_id\<rparr>)))"

definition is_new :: "process_review_request \<Rightarrow> bool" where
  "is_new q \<longleftrightarrow> pq_review_number q = None"

section \<open>The review of a diff\<close>

datatype review_action = CommentAction | ApproveAction | RejectAction

record review_comment_input = new_comment +
  ci_revision_id :: uuid

definition review_action_parse :: "string \<Rightarrow> review_error + review_action" where
  "review_action_parse action =
     (if action = ''comment'' then Inr CommentAction
      else if action = ''approve'' then Inr ApproveAction
      else if action = ''reject'' then Inr RejectAction
      else Inl (ReviewInput (InputError ''action''
             (''Invalid action: '' @ action @ ''. Must be comment, approve, or reject''))))"

definition comment_side_parse :: "string \<Rightarrow> review_error + comment_side" where
  "comment_side_parse s =
     (if s = ''old'' then Inr OldSide else if s = ''new'' then Inr NewSide
      else Inl (ReviewInput (InputError ''side'' (''Invalid side: '' @ s @ ''. Must be old or new''))))"

end
