(* ===== verification/ReviewService.thy ===== *)
theory ReviewService
  imports ReviewDto
begin

text \<open>
  \<open>service/core/review.rs\<close> over the review tables and the refs of the git repositories
  (\<open>client/git.rs\<close>: \<open>resolve_ref_sha\<close>, \<open>create_ref\<close>, \<open>update_ref\<close>). What libgit2 computes
  from objects (the commits between two, patch identifiers, cherry-picks, diffs, blobs) is the
  record \<open>review_env\<close>.
\<close>

section \<open>State and environment\<close>

type_synonym repo_key = "string \<times> string"

record review_world =
  rw_core :: core_db
  rw_db :: review_db
  rw_refs :: "repo_key \<Rightarrow> string \<Rightarrow> string option"

record review_env =
  rn_show_uuid :: "uuid \<Rightarrow> string"
  rn_message :: "string \<Rightarrow> string"
  rn_find_commit :: "repo_key \<Rightarrow> string \<Rightarrow> git_error + unit"
  rn_rev_list :: "repo_key \<Rightarrow> string \<Rightarrow> string \<Rightarrow> git_error + (string \<times> string) list"
  rn_patch_id :: "repo_key \<Rightarrow> string \<Rightarrow> git_error + string"
  rn_cherry_pick :: "repo_key \<Rightarrow> string \<Rightarrow> string \<Rightarrow> git_error + string"
  rn_diff_paths :: "repo_key \<Rightarrow> string option \<Rightarrow> string \<Rightarrow> git_error + string list"
  rn_blobs :: "repo_key \<Rightarrow> string list \<Rightarrow> string list \<Rightarrow> git_error + string option list"
  rn_now :: time
  rn_id :: "nat \<Rightarrow> uuid"

type_synonym 'a review_call = "review_world \<Rightarrow> (review_error + 'a) \<times> review_world"

definition on_db :: "(review_db \<Rightarrow> (database_error + 'a) \<times> review_db) \<Rightarrow> 'a review_call" where
  "on_db f w = (case f (rw_db w) of (r, db) \<Rightarrow> (map_err ReviewDatabaseError r, w\<lparr>rw_db := db\<rparr>))"

definition write_db :: "(review_db \<Rightarrow> review_db) \<Rightarrow> unit review_call" where
  "write_db f w = (Inr (), w\<lparr>rw_db := f (rw_db w)\<rparr>)"

definition give :: "review_error + 'a \<Rightarrow> 'a review_call" where
  "give r w = (r, w)"

section \<open>Refs (client/git.rs)\<close>

text \<open>
  A full ref name without revision operators (tilde, caret, at-brace), which git rejects in names,
  resolves to that ref. Refs point to commits: they are only ever set to commits.
\<close>

definition resolve_ref_sha :: "review_env \<Rightarrow> repo_key \<Rightarrow> string \<Rightarrow> string review_call" where
  "resolve_ref_sha env key ref_name w =
     (case rw_refs w key ref_name of
        None \<Rightarrow> (Inl (ReviewGitError (GitNotFound (rn_message env ref_name))), w)
      | Some sha \<Rightarrow> (Inr sha, w))"

definition set_ref :: "repo_key \<Rightarrow> string \<Rightarrow> string \<Rightarrow> review_world \<Rightarrow> review_world" where
  "set_ref key ref_name sha w = w\<lparr>rw_refs := (rw_refs w)(key := (rw_refs w key)(ref_name \<mapsto> sha))\<rparr>"

definition create_ref :: "review_env \<Rightarrow> repo_key \<Rightarrow> string \<Rightarrow> string \<Rightarrow> unit review_call" where
  "create_ref env key ref_name sha w =
     (case rn_find_commit env key sha of
        Inl e \<Rightarrow> (Inl (ReviewGitError e), w)
      | Inr _ \<Rightarrow>
          if rw_refs w key ref_name \<noteq> None then (Inl (ReviewGitError (Git2Error (rn_message env ref_name))), w)
          else (Inr (), set_ref key ref_name sha w))"

definition update_ref :: "review_env \<Rightarrow> repo_key \<Rightarrow> string \<Rightarrow> string \<Rightarrow> unit review_call" where
  "update_ref env key ref_name sha w =
     (case rn_find_commit env key sha of
        Inl e \<Rightarrow> (Inl (ReviewGitError e), w)
      | Inr _ \<Rightarrow> (Inr (), set_ref key ref_name sha w))"

section \<open>Reading reviews\<close>

definition review_path :: "string \<Rightarrow> string \<Rightarrow> int \<Rightarrow> string" where
  "review_path owner repo number = owner @ ''/'' @ repo @ ''/review/'' @ show_int number"

definition diff_path :: "string \<Rightarrow> string \<Rightarrow> int \<Rightarrow> int \<Rightarrow> string" where
  "diff_path owner repo number position = review_path owner repo number @ ''/diff/'' @ show_int position"

definition get_review_by_id :: "string \<Rightarrow> string \<Rightarrow> int \<Rightarrow> review review_call" where
  "get_review_by_id owner repo number w =
     (and_then (map_err ReviewDatabaseError (get_review_by_number (rw_core w) (rw_db w) owner repo number)) (\<lambda>r.
        map_err ReviewNotFound (opt_or_not_found r ''review'' (IdStr (review_path owner repo number)))), w)"

definition get_review :: "string \<Rightarrow> string \<Rightarrow> int \<Rightarrow> review_response review_call" where
  "get_review owner repo number w =
     then_do (get_review_by_id owner repo number w) (\<lambda>r. give (Inr (review_response_from r)))"

definition list_reviews ::
  "(cursor \<Rightarrow> string) \<Rightarrow> string \<Rightarrow> string \<Rightarrow> uuid option \<Rightarrow> cursor option \<Rightarrow> nat
    \<Rightarrow> (review_response list \<times> string option) review_call"
where
  "list_reviews encode owner repo viewer cur limit w =
     (case repo_list_reviews (rw_core w) (rw_db w) owner repo viewer cur limit of
        Inl e \<Rightarrow> (Inl (ReviewDatabaseError e), w)
      | Inr (rs, next_cursor) \<Rightarrow> (Inr (map review_response_from rs, map_option encode next_cursor), w))"

section \<open>Creating a review\<close>

definition short_id :: "review_env \<Rightarrow> uuid \<Rightarrow> string" where
  "short_id env i = take 8 (rn_show_uuid env i)"

text \<open>The refs of the first revision of a diff.\<close>

definition first_refs :: "review_env \<Rightarrow> repo_key \<Rightarrow> string \<Rightarrow> int \<Rightarrow> string \<Rightarrow> unit review_call" where
  "first_refs env key ref_id position sha w =
     then_do (create_ref env key (get_revision_ref ref_id position 1) sha w) (\<lambda>_.
       create_ref env key (get_current_ref ref_id position) sha)"

text \<open>A diff at a new position, with its first revision: the rows, then the refs.\<close>

definition new_diff ::
  "review_env \<Rightarrow> repo_key \<Rightarrow> string \<Rightarrow> uuid \<Rightarrow> nat \<Rightarrow> string \<times> string \<Rightarrow> string \<Rightarrow> unit review_call"
where
  "new_diff env key ref_id review_id position commit previous_sha w =
     then_do (on_db (create_diff (rn_id env (2 * position)) (rn_now env) review_id (int position) (snd commit)) w) (\<lambda>d w1.
     then_do (on_db (create_revision (rn_id env (2 * position + 1)) (rn_now env) (df_id d) 1 (fst commit) previous_sha) w1)
       (\<lambda>_. first_refs env key ref_id (int position) (fst commit)))"

fun create_diffs ::
  "review_env \<Rightarrow> repo_key \<Rightarrow> string \<Rightarrow> uuid \<Rightarrow> nat \<Rightarrow> string \<Rightarrow> (string \<times> string) list \<Rightarrow> unit review_call"
where
  "create_diffs env key ref_id review_id position previous_sha [] w = (Inr (), w)"
| "create_diffs env key ref_id review_id position previous_sha (commit # commits) w =
     then_do (new_diff env key ref_id review_id position commit previous_sha w) (\<lambda>_.
       create_diffs env key ref_id review_id (position + 1) (fst commit) commits)"

text \<open>The commits that a push adds to the target branch, oldest first.\<close>

definition pushed_commits ::
  "review_env \<Rightarrow> repo_key \<Rightarrow> string \<Rightarrow> string \<Rightarrow> (string \<times> (string \<times> string) list) review_call"
where
  "pushed_commits env key target_branch new_sha w =
     then_do (resolve_ref_sha env key (get_target_ref target_branch) w) (\<lambda>target_sha w1.
       (case rn_rev_list env key target_sha new_sha of
          Inl e \<Rightarrow> (Inl (ReviewGitError e), w1)
        | Inr [] \<Rightarrow> (Inl CommitsNotFound, w1)
        | Inr commits \<Rightarrow> (Inr (target_sha, rev commits), w1)))"

definition create_review :: "review_env \<Rightarrow> process_review_request \<Rightarrow> review_response review_call" where
  "create_review env q w =
     (let owner = pq_owner q; repo = pq_repo q; key = (owner, repo)
      in then_do (pushed_commits env key (pq_target_branch q) (pq_new_sha q) w) (\<lambda>(target_sha, commits) w1.
         then_do (and_then (map_err ReviewDatabaseError (repo_get owner repo None (rw_core w1))) (\<lambda>r.
             map_err ReviewNotFound (opt_or_not_found r ''repository'' (IdStr (owner @ ''/'' @ repo)))), w1)
           (\<lambda>repository w2.
         then_do (on_db (repo_create_review (rn_id env 0) (rn_now env) (rw_core w2) (rp_id repository)
             (pq_pusher_id q) (pq_target_branch q)) w2) (\<lambda>review w3.
         then_do (create_diffs env key (short_id env (re_id review)) (re_id review) 1 target_sha commits w3) (\<lambda>_ w4.
         then_do (create_ref env key (get_head_ref (short_id env (re_id review))) (pq_new_sha q) w4) (\<lambda>_.
         give (Inr (review_response_from review))))))))"

section \<open>Updating a review by a push\<close>

definition update_existing_diff ::
  "review_env \<Rightarrow> repo_key \<Rightarrow> string \<Rightarrow> int \<Rightarrow> diff \<Rightarrow> nat \<Rightarrow> string \<times> string \<Rightarrow> string \<Rightarrow> unit review_call"
where
  "update_existing_diff env key ref_id review_number d position commit previous_sha w =
     (case or_empty (df_revisions d) of
        [] \<Rightarrow> (Inl (ReviewNotFound (NotFoundError ''revision''
                (IdStr (diff_path (fst key) (snd key) review_number (int position) @ '' has no revisions'')))), w)
      | latest_revision # _ \<Rightarrow>
          then_do (map_err ReviewGitError (rn_patch_id env key (rv_commit_hash latest_revision)), w) (\<lambda>old_patch_id w1.
          then_do (map_err ReviewGitError (rn_patch_id env key (fst commit)), w1) (\<lambda>new_patch_id w2.
          if old_patch_id = new_patch_id then
            then_do (on_db (update_revision_sha (rv_id latest_revision) (fst commit) previous_sha) w2) (\<lambda>_ w3.
            then_do (update_ref env key (get_revision_ref ref_id (int position) (rv_number latest_revision)) (fst commit) w3)
              (\<lambda>_. update_ref env key (get_current_ref ref_id (int position)) (fst commit)))
          else
            (let n = rv_number latest_revision + 1
             in then_do (on_db (create_revision (rn_id env (2 * position + 1)) (rn_now env) (df_id d) n (fst commit)
                    previous_sha) w2) (\<lambda>_ w3.
                then_do (create_ref env key (get_revision_ref ref_id (int position) n) (fst commit) w3) (\<lambda>_ w4.
                then_do (update_ref env key (get_current_ref ref_id (int position)) (fst commit) w4) (\<lambda>_.
                write_db (update_diff (rn_now env) (df_id d) (Some DiffOpen) None))))))))"

fun update_diffs ::
  "review_env \<Rightarrow> repo_key \<Rightarrow> string \<Rightarrow> review \<Rightarrow> int \<Rightarrow> nat \<Rightarrow> string \<Rightarrow> (string \<times> string) list \<Rightarrow> unit review_call"
where
  "update_diffs env key ref_id review number position previous_sha [] w = (Inr (), w)"
| "update_diffs env key ref_id review number position previous_sha (commit # commits) w =
     then_do
       (case find (\<lambda>d. df_position d = int position) (or_empty (re_diffs review)) of
          Some d \<Rightarrow> update_existing_diff env key ref_id number d position commit previous_sha w
        | None \<Rightarrow> new_diff env key ref_id (re_id review) position commit previous_sha w)
       (\<lambda>_. update_diffs env key ref_id review number (position + 1) (fst commit) commits)"

definition process_review_update :: "review_env \<Rightarrow> process_review_request \<Rightarrow> review_response review_call" where
  "process_review_update env q w =
     (let owner = pq_owner q; repo = pq_repo q; key = (owner, repo)
      in (case pq_review_number q of
            None \<Rightarrow> (Inl (ReviewInput (InputError ''ref name'' ''missing review number'')), w)
          | Some n64 \<Rightarrow>
              (let number = as_i32 n64
               in then_do (get_review_by_id owner repo number w) (\<lambda>review w1.
                  let ref_id = short_id env (re_id review)
                  in then_do (pushed_commits env key (pq_target_branch q) (pq_new_sha q) w1) (\<lambda>(target_sha, commits) w2.
                     then_do (update_diffs env key ref_id review number 1 target_sha commits w2) (\<lambda>_ w3.
                     then_do (update_ref env key (get_head_ref ref_id) (pq_new_sha q) w3) (\<lambda>_ w4.
                     then_do (on_db (repo_update_review (rn_now env) (re_id review) None None None) w4) (\<lambda>_.
                     get_review owner repo number))))))))"

section \<open>Publishing\<close>

definition quoted :: "string \<Rightarrow> string" where
  "quoted s = [CHR 0x27] @ s @ [CHR 0x27]"

definition em_dash :: string where
  "em_dash = [CHR 0xE2, CHR 0x80, CHR 0x94]"

definition publish_review :: "review_env \<Rightarrow> string \<Rightarrow> string \<Rightarrow> int \<Rightarrow> review_response review_call" where
  "publish_review env owner repo number w =
     then_do (get_review_by_id owner repo number w) (\<lambda>review w1.
       if re_status review \<noteq> ReviewDraft then
         (Inl (ReviewNotPublishable (''review is in '' @ quoted (status_to_string (re_status review))
                @ '' status, expected '' @ quoted ''draft'')), w1)
       else
         (let pending = length (filter (\<lambda>d. df_status d = DiffDraft) (or_empty (re_diffs review)))
          in if 0 < pending then
               (Inl (ReviewNotPublishable (show_nat pending
                  @ '' diff(s) are still in draft '' @ em_dash @ '' all diffs must be open before publishing'')), w1)
             else
               then_do (on_db (repo_update_review (rn_now env) (re_id review) (Some ReviewOpen) None None) w1) (\<lambda>_.
                 get_review owner repo number)))"

definition publish_review_diff :: "review_env \<Rightarrow> string \<Rightarrow> string \<Rightarrow> int \<Rightarrow> int \<Rightarrow> review_response review_call" where
  "publish_review_diff env owner repo number position w =
     then_do (get_review_by_id owner repo number w) (\<lambda>review w1.
       if re_status review \<noteq> ReviewDraft then
         (Inl (DiffNotPublishable (''review is in '' @ quoted (status_to_string (re_status review))
                @ '' status, expected '' @ quoted ''draft'')), w1)
       else
         (case find (\<lambda>d. df_position d = position) (or_empty (re_diffs review)) of
            None \<Rightarrow> (Inl (ReviewNotFound (NotFoundError ''diff'' (IdStr (''position '' @ show_int position)))), w1)
          | Some d \<Rightarrow>
              if df_status d \<noteq> DiffDraft then
                (Inl (DiffNotPublishable (''diff at position '' @ show_int position @ '' is in ''
                       @ quoted (diff_status_to_string (df_status d)) @ '' status, expected '' @ quoted ''draft'')), w1)
              else
                then_do (write_db (update_diff (rn_now env) (df_id d) (Some DiffOpen) None) w1) (\<lambda>_ w2.
                then_do (on_db (repo_update_review (rn_now env) (re_id review) None None None) w2) (\<lambda>_.
                get_review owner repo number))))"

definition update_review ::
  "review_env \<Rightarrow> string \<Rightarrow> string \<Rightarrow> int \<Rightarrow> string option \<Rightarrow> string option \<Rightarrow> review_response review_call"
where
  "update_review env owner repo number title description w =
     then_do (get_review_by_id owner repo number w) (\<lambda>review w1.
     then_do (on_db (repo_update_review (rn_now env) (re_id review) None title description) w1) (\<lambda>_.
     get_review owner repo number))"

definition update_review_diff ::
  "review_env \<Rightarrow> string \<Rightarrow> string \<Rightarrow> int \<Rightarrow> int \<Rightarrow> string option \<Rightarrow> review_response review_call"
where
  "update_review_diff env owner repo number position message w =
     then_do (get_review_by_id owner repo number w) (\<lambda>review w1.
       (case Option.bind (re_diffs review) (find (\<lambda>d. df_position d = position)) of
          None \<Rightarrow> (Inl (ReviewNotFound (NotFoundError ''diff''
                     (IdStr (diff_path owner repo (re_number review) position)))), w1)
        | Some d \<Rightarrow>
            then_do (write_db (update_diff (rn_now env) (df_id d) None message) w1) (\<lambda>_ w2.
            then_do (on_db (repo_update_review (rn_now env) (re_id review) None None None) w2) (\<lambda>_.
            get_review owner repo number))))"

section \<open>Merging\<close>

text \<open>The latest revision of every diff that is to be merged.\<close>

fun latest_revisions :: "diff list \<Rightarrow> review_error + (diff \<times> revision) list" where
  "latest_revisions [] = Inr []"
| "latest_revisions (d # ds) =
     (case or_empty (df_revisions d) of
        [] \<Rightarrow> Inl (ReviewNotFound (NotFoundError ''revision''
               (IdStr (''diff at position '' @ show_int (df_position d) @ '' has no revisions''))))
      | r # _ \<Rightarrow> and_then (latest_revisions ds) (\<lambda>rest. Inr ((d, r) # rest)))"

definition rebase_error :: "diff \<Rightarrow> git_error \<Rightarrow> review_error" where
  "rebase_error d e =
     (case e of
        GitMergeConflict _ \<Rightarrow> DiffNotMergeable (''conflict rebasing diff at position '' @ show_int (df_position d)
          @ '' onto target branch; update the review to resolve conflicts before merging'')
      | other \<Rightarrow> ReviewGitError other)"

text \<open>The rebase of the diffs, one after the other, onto a target that has advanced.\<close>

fun rebase_diffs ::
  "review_env \<Rightarrow> repo_key \<Rightarrow> string \<Rightarrow> string \<Rightarrow> (diff \<times> revision) list \<Rightarrow> string review_call"
where
  "rebase_diffs env key ref_id parent [] w = (Inr parent, w)"
| "rebase_diffs env key ref_id parent ((d, r) # rest) w =
     (case rn_cherry_pick env key (rv_commit_hash r) parent of
        Inl e \<Rightarrow> (Inl (rebase_error d e), w)
      | Inr new_sha \<Rightarrow>
          then_do (on_db (update_revision_sha (rv_id r) new_sha parent) w) (\<lambda>_ w1.
          then_do (update_ref env key (get_current_ref ref_id (df_position d)) new_sha w1) (\<lambda>_.
          rebase_diffs env key ref_id new_sha rest)))"

definition mark_merged :: "time \<Rightarrow> (diff \<times> revision) list \<Rightarrow> review_db \<Rightarrow> review_db" where
  "mark_merged now drs db = foldl (\<lambda>db (d, _). update_diff now (df_id d) (Some DiffMerged) None db) db drs"

text \<open>The commit to which the target branch moves.\<close>

definition merge_commit :: "review_env \<Rightarrow> repo_key \<Rightarrow> review \<Rightarrow> (diff \<times> revision) list \<Rightarrow> string review_call" where
  "merge_commit env key review drs w =
     then_do (resolve_ref_sha env key (get_target_ref (re_target_branch review)) w) (\<lambda>target_sha w1.
       if target_sha = rv_parent_hash (snd (hd drs)) then (Inr (rv_commit_hash (snd (last drs))), w1)
       else rebase_diffs env key (short_id env (re_id review)) target_sha drs w1)"

text \<open>Moving the branch and recording the merge.\<close>

definition land_diffs ::
  "review_env \<Rightarrow> repo_key \<Rightarrow> int \<Rightarrow> int \<Rightarrow> review \<Rightarrow> (diff \<times> revision) list \<Rightarrow> string \<Rightarrow> review_response review_call"
where
  "land_diffs env key number position review drs merge_sha w =
     then_do (update_ref env key (get_target_ref (re_target_branch review)) merge_sha w) (\<lambda>_ w1.
     then_do (write_db (mark_merged (rn_now env) drs) w1) (\<lambda>_ w2.
     then_do (on_db (repo_update_review (rn_now env) (re_id review)
         (if list_all (\<lambda>d. df_status d = DiffMerged \<or> df_position d \<le> position) (or_empty (re_diffs review))
          then Some ReviewClosed else None) None None) w2) (\<lambda>_.
     get_review (fst key) (snd key) number)))"

definition merge_review_diff ::
  "review_env \<Rightarrow> string \<Rightarrow> string \<Rightarrow> int \<Rightarrow> int \<Rightarrow> review_response review_call"
where
  "merge_review_diff env owner repo number position w =
     then_do (get_review_by_id owner repo number w) (\<lambda>review w1.
       if re_status review \<noteq> ReviewOpen then
         (Inl (DiffNotMergeable ''review must be open to merge diffs''), w1)
       else
         (let to_merge = filter (\<lambda>d. df_position d \<le> position \<and> df_status d \<noteq> DiffMerged) (or_empty (re_diffs review))
          in if to_merge = [] then
               (Inl (ReviewNotFound (NotFoundError ''diff''
                  (IdStr (''no open diffs found at or before position '' @ show_int position)))), w1)
             else
               then_do (latest_revisions to_merge, w1) (\<lambda>drs w2.
               then_do (merge_commit env (owner, repo) review drs w2) (\<lambda>merge_sha.
               land_diffs env (owner, repo) number position review drs merge_sha))))"

section \<open>Reviewers\<close>

definition add_review_reviewer ::
  "review_env \<Rightarrow> string \<Rightarrow> string \<Rightarrow> int \<Rightarrow> string \<Rightarrow> reviewer_response review_call"
where
  "add_review_reviewer env owner repo number user_name w =
     then_do (map_err ReviewNotFound (opt_or_not_found (user_get user_name (rw_core w)) ''user'' (IdStr user_name)), w)
       (\<lambda>user w1.
     then_do (get_review_by_id owner repo number w1) (\<lambda>review w2.
       if us_id user = re_author_id review then (Inl (CannotReviewOwnReview user_name), w2)
       else
         then_do (on_db (add_reviewer (rn_id env 0) (rn_now env) (rw_core w2) (re_id review) (us_id user)) w2)
           (\<lambda>reviewer w3.
           (case reviewer of
              None \<Rightarrow> (Inl (ReviewConflict (ConflictError ''reviewer'' (IdStr user_name))), w3)
            | Some r \<Rightarrow> (Inr (reviewer_response_from r), w3)))))"

definition remove_review_reviewer :: "string \<Rightarrow> string \<Rightarrow> int \<Rightarrow> string \<Rightarrow> unit review_call" where
  "remove_review_reviewer owner repo number reviewer_name w =
     then_do (map_err ReviewNotFound (opt_or_not_found (user_get reviewer_name (rw_core w)) ''user''
         (IdStr reviewer_name)), w) (\<lambda>user w1.
     then_do (get_review_by_id owner repo number w1) (\<lambda>review w2.
       (case remove_reviewer (re_id review) (us_id user) (rw_db w2) of
          (removed, db) \<Rightarrow>
            (if \<not> removed then Inl (ReviewNotFound (NotFoundError ''reviewer'' (IdStr reviewer_name))) else Inr (),
             w2\<lparr>rw_db := db\<rparr>))))"

section \<open>Comments and verdicts\<close>

definition find_comment :: "review_env \<Rightarrow> uuid \<Rightarrow> review_comment review_call" where
  "find_comment env i w =
     (and_then (map_err ReviewDatabaseError (get_comment (rw_core w) i (rw_db w))) (\<lambda>c.
        map_err ReviewNotFound (opt_or_not_found c ''comment'' (IdStr (rn_show_uuid env i)))), w)"

definition reply_to_review_comment ::
  "review_env \<Rightarrow> uuid \<Rightarrow> uuid \<Rightarrow> string \<Rightarrow> review_comment_response review_call"
where
  "reply_to_review_comment env comment_id user_id body w =
     then_do (find_comment env comment_id w) (\<lambda>parent w1.
     then_do (on_db (repo_create_comment (rn_id env 0) (rn_now env) (rw_core w1) (rc_review_id parent)
         (rc_diff_id parent) (rc_revision_id parent) user_id
         \<lparr>nc_body = body, nc_parent_id = Some (rc_id parent), nc_file_path = None, nc_line_number_start = None,
          nc_line_number_end = None, nc_start_character = None, nc_end_character = None, nc_side = None\<rparr>) w1)
       (\<lambda>reply. give (Inr (review_comment_response_from reply))))"

definition update_review_comment ::
  "review_env \<Rightarrow> uuid \<Rightarrow> string \<Rightarrow> review_comment_response review_call"
where
  "update_review_comment env comment_id body w =
     then_do (on_db (repo_update_comment (rn_now env) (rw_core w) comment_id body) w)
       (\<lambda>c. give (Inr (review_comment_response_from c)))"

definition resolve_review_comment ::
  "review_env \<Rightarrow> uuid \<Rightarrow> bool \<Rightarrow> review_comment_response review_call"
where
  "resolve_review_comment env comment_id resolved w =
     then_do (find_comment env comment_id w) (\<lambda>comment w1.
       if rc_parent_id comment \<noteq> None then
         (Inl (ReviewInput (InputError ''comment''
            ''Cannot resolve a reply directly, resolve the parent comment instead'')), w1)
       else
         then_do (write_db (resolve_comment (rn_now env) comment_id resolved) w1) (\<lambda>_ w2.
         then_do (find_comment env comment_id w2) (\<lambda>c. give (Inr (review_comment_response_from c)))))"

fun create_comments ::
  "review_env \<Rightarrow> uuid \<Rightarrow> uuid \<Rightarrow> uuid \<Rightarrow> nat \<Rightarrow> review_comment_input list \<Rightarrow> unit review_call"
where
  "create_comments env review_id diff_id author_id k [] w = (Inr (), w)"
| "create_comments env review_id diff_id author_id k (c # cs) w =
     then_do (on_db (repo_create_comment (rn_id env k) (rn_now env) (rw_core w) review_id diff_id (ci_revision_id c)
         author_id (new_comment.truncate c)) w)
       (\<lambda>_. create_comments env review_id diff_id author_id (k + 1) cs)"

definition record_verdict ::
  "review_env \<Rightarrow> diff \<Rightarrow> int \<Rightarrow> uuid \<Rightarrow> review_verdict_kind \<Rightarrow> unit review_call"
where
  "record_verdict env d position reviewer_id verdict w =
     (case or_empty (df_revisions d) of
        [] \<Rightarrow> (Inl (ReviewNotFound (NotFoundError ''revision'' (IdStr (''diff at position '' @ show_int position)))), w)
      | revision # _ \<Rightarrow>
          on_db (create_verdict (rn_id env 0) (rn_now env) (rw_core w) (df_id d) (rv_id revision) reviewer_id verdict) w)"

definition review_review_diff ::
  "review_env \<Rightarrow> string \<Rightarrow> string \<Rightarrow> int \<Rightarrow> int \<Rightarrow> uuid \<Rightarrow> review_action \<Rightarrow> review_comment_input list
    \<Rightarrow> review_response review_call"
where
  "review_review_diff env owner repo number position reviewer_id action comments w =
     then_do (get_review_by_id owner repo number w) (\<lambda>review w1.
       (case find (\<lambda>d. df_position d = position) (or_empty (re_diffs review)) of
          None \<Rightarrow> (Inl (ReviewNotFound (NotFoundError ''diff'' (IdStr (''position '' @ show_int position)))), w1)
        | Some d \<Rightarrow>
            if action \<noteq> CommentAction \<and> df_status d = DiffMerged then (Inl DiffAlreadyMerged, w1)
            else if action \<noteq> CommentAction \<and> reviewer_id = re_author_id review then (Inl CannotReviewOwnDiff, w1)
            else
              then_do
                (case action of
                   ApproveAction \<Rightarrow> record_verdict env d position reviewer_id VerdictApproved w1
                 | RejectAction \<Rightarrow> record_verdict env d position reviewer_id VerdictRejected w1
                 | CommentAction \<Rightarrow> (Inr (), w1)) (\<lambda>_ w2.
              then_do (create_comments env (re_id review) (df_id d) reviewer_id 1 comments w2) (\<lambda>_ w3.
              then_do (on_db (repo_update_review (rn_now env) (re_id review) None None None) w3) (\<lambda>_.
              get_review owner repo number)))))"

section \<open>The files of a diff\<close>

definition ZERO_SHA :: string where "ZERO_SHA = replicate 40 (CHR ''0'')"

text \<open>A revision of a diff by its number, or the latest one.\<close>

definition pick_revision ::
  "string \<Rightarrow> revision list \<Rightarrow> int option \<Rightarrow> review_error + revision"
where
  "pick_revision path revisions rev_num =
     (case rev_num of
        Some n \<Rightarrow> map_err ReviewNotFound (opt_or_not_found (find (\<lambda>r. rv_number r = n) revisions) ''revision''
                   (IdStr (path @ ''/revision/'' @ show_int n)))
      | None \<Rightarrow> (case revisions of
                   [] \<Rightarrow> Inl (ReviewNotFound (NotFoundError ''revision'' (IdStr (path @ '' has no revisions''))))
                 | r # _ \<Rightarrow> Inr r))"

definition nth_blob :: "string option list \<Rightarrow> nat \<Rightarrow> string option" where
  "nth_blob blobs i = (if i < length blobs then blobs ! i else None)"

definition get_review_diff_blobs ::
  "review_env \<Rightarrow> string \<Rightarrow> string \<Rightarrow> int \<Rightarrow> int \<Rightarrow> int option \<Rightarrow> int option
    \<Rightarrow> (string \<times> string option \<times> string option) list review_call"
where
  "get_review_diff_blobs env owner repo number position revision compare_to w =
     (let key = (owner, repo)
      in then_do (get_review_by_id owner repo number w) (\<lambda>review w1.
         let path = diff_path owner repo (re_number review) position
         in (case find (\<lambda>d. df_position d = position) (or_empty (re_diffs review)) of
               None \<Rightarrow> (Inl (ReviewNotFound (NotFoundError ''diff'' (IdStr path))), w1)
             | Some d \<Rightarrow>
                 give
                   (and_then (pick_revision path (or_empty (df_revisions d)) revision) (\<lambda>right.
                    and_then (case compare_to of
                        None \<Rightarrow> Inr (rv_parent_hash right)
                      | Some n \<Rightarrow> map_sum id rv_commit_hash
                          (pick_revision path (or_empty (df_revisions d)) (Some n))) (\<lambda>left_sha.
                    let left_ref = (if left_sha = ZERO_SHA then None else Some left_sha)
                    in and_then (map_err ReviewGitError (rn_diff_paths env key left_ref (rv_commit_hash right))) (\<lambda>paths.
                       and_then (map_err ReviewGitError (rn_blobs env key paths
                         (case left_ref of None \<Rightarrow> [] | Some r \<Rightarrow> [r]))) (\<lambda>left.
                       and_then (map_err ReviewGitError (rn_blobs env key paths [rv_commit_hash right])) (\<lambda>right_blobs.
                       Inr (map (\<lambda>i. (paths ! i, nth_blob left i, nth_blob right_blobs i)) [0..<length paths])))))))
                   w1)))"

end
