(* ===== verification/CommitService.thy ===== *)
theory CommitService
  imports CommitStore ReviewService
begin

text \<open>
  \<open>service/core/commit.rs\<close> with its responses: the commits of a push become rows. What git
  reports of the objects (the range of the push, the diff of a commit) is an argument.
\<close>

section \<open>Errors and responses\<close>

datatype commit_error =
    CommitInput input_error
  | CommitNotFound not_found_error
  | CommitGitError git_error
  | CommitDatabaseError database_error

record git_commit =
  gc_sha :: string
  gc_parent_sha :: "string option"
  gc_message :: string
  gc_date :: time
  gc_author_name :: string
  gc_author_email :: string

record diff_stat =
  ds_path :: string
  ds_lines_added :: int
  ds_lines_removed :: int

record commit_response =
  cp_id :: uuid
  cp_author_id :: "uuid option"
  cp_author_name :: "string option"
  cp_author_image_updated_at :: "time option"
  cp_git_author_name :: string
  cp_git_author_email :: string
  cp_repo_id :: uuid
  cp_owner_name :: string
  cp_repo_name :: string
  cp_ref_name :: string
  cp_sha :: string
  cp_parent_sha :: string
  cp_message :: string
  cp_created_at :: time
  cp_review_number :: "int option"
  cp_diff_position :: "int option"
  cp_diffs :: "commit_diff list"

definition commit_response_from :: "commit \<Rightarrow> commit_response" where
  "commit_response_from c =
     \<lparr>cp_id = cm_id c, cp_author_id = cm_author_id c, cp_author_name = cm_author_name c,
      cp_author_image_updated_at = cm_author_image_updated_at c, cp_git_author_name = cm_git_author_name c,
      cp_git_author_email = cm_git_author_email c, cp_repo_id = cm_repo_id c,
      cp_owner_name = cr_owner_name (cm_repository c), cp_repo_name = cr_name (cm_repository c),
      cp_ref_name = cm_ref_name c, cp_sha = cm_sha c, cp_parent_sha = cm_parent_sha c, cp_message = cm_message c,
      cp_created_at = cm_created_at c, cp_review_number = cm_review_number c,
      cp_diff_position = cm_diff_position c, cp_diffs = cm_diffs c\<rparr>"

record user_commit_response =
  uc_id :: uuid
  uc_created_at :: time
  uc_redacted :: bool
  uc_author_id :: "uuid option"
  uc_author_name :: "string option"
  uc_author_image_updated_at :: "time option"
  uc_git_author_name :: "string option"
  uc_git_author_email :: "string option"
  uc_repo_id :: "uuid option"
  uc_owner_name :: "string option"
  uc_repo_name :: "string option"
  uc_ref_name :: "string option"
  uc_sha :: "string option"
  uc_parent_sha :: "string option"
  uc_message :: "string option"
  uc_review_number :: "int option"
  uc_diff_position :: "int option"
  uc_diffs :: "commit_diff list"

definition visible_commit :: "commit \<Rightarrow> user_commit_response" where
  "visible_commit c =
     \<lparr>uc_id = cm_id c, uc_created_at = cm_created_at c, uc_redacted = False, uc_author_id = cm_author_id c,
      uc_author_name = cm_author_name c, uc_author_image_updated_at = cm_author_image_updated_at c,
      uc_git_author_name = Some (cm_git_author_name c), uc_git_author_email = Some (cm_git_author_email c),
      uc_repo_id = Some (cm_repo_id c), uc_owner_name = Some (cr_owner_name (cm_repository c)),
      uc_repo_name = Some (cr_name (cm_repository c)), uc_ref_name = Some (cm_ref_name c),
      uc_sha = Some (cm_sha c), uc_parent_sha = Some (cm_parent_sha c), uc_message = Some (cm_message c),
      uc_review_number = cm_review_number c, uc_diff_position = cm_diff_position c, uc_diffs = cm_diffs c\<rparr>"

definition redacted_commit :: "commit \<Rightarrow> user_commit_response" where
  "redacted_commit c =
     \<lparr>uc_id = cm_id c, uc_created_at = cm_created_at c, uc_redacted = True, uc_author_id = None,
      uc_author_name = None, uc_author_image_updated_at = None, uc_git_author_name = None,
      uc_git_author_email = None, uc_repo_id = None, uc_owner_name = None, uc_repo_name = None,
      uc_ref_name = None, uc_sha = None, uc_parent_sha = None, uc_message = None, uc_review_number = None,
      uc_diff_position = None, uc_diffs = []\<rparr>"

section \<open>Recording a push\<close>

record commit_env =
  ce_rev_list :: "repo_key \<Rightarrow> string \<Rightarrow> string \<Rightarrow> git_error + git_commit list"
  ce_diff :: "repo_key \<Rightarrow> string option \<Rightarrow> string \<Rightarrow> git_error + diff_stat list"
  ce_id :: "nat \<Rightarrow> uuid"

record create_commits_request =
  kr_owner :: string
  kr_repo :: string
  kr_old_sha :: string
  kr_new_sha :: string
  kr_ref_name :: string
  kr_review_number :: "int option"
  kr_diff_positions :: "(string \<times> int) list"

definition create_commits_request_new ::
  "(string \<Rightarrow> string) \<Rightarrow> string \<Rightarrow> string \<Rightarrow> string \<Rightarrow> string \<Rightarrow> string \<Rightarrow> int option \<Rightarrow> (string \<times> int) list
    \<Rightarrow> commit_error + create_commits_request"
where
  "create_commits_request_new lower owner repo old_sha new_sha ref_name review_number positions =
     and_then (map_err CommitInput (owner_name_parse lower owner ''owner name'')) (\<lambda>o'.
     and_then (map_err CommitInput (repository_name_parse lower repo ''repository name'')) (\<lambda>r'.
     Inr \<lparr>kr_owner = o', kr_repo = r', kr_old_sha = old_sha, kr_new_sha = new_sha, kr_ref_name = ref_name,
          kr_review_number = review_number, kr_diff_positions = positions\<rparr>))"

text \<open>The diffs of the commits, one after the other.\<close>

definition commit_diff_of :: "diff_stat \<Rightarrow> commit_diff" where
  "commit_diff_of s = \<lparr>cd_path = ds_path s, cd_lines_added = as_i32 (ds_lines_added s), cd_lines_removed = as_i32 (ds_lines_removed s)\<rparr>"

fun diffs_per_commit :: "commit_env \<Rightarrow> repo_key \<Rightarrow> git_commit list \<Rightarrow> git_error + commit_diff list list" where
  "diffs_per_commit env key [] = Inr []"
| "diffs_per_commit env key (g # gs) =
     and_then (ce_diff env key (gc_parent_sha g) (gc_sha g)) (\<lambda>stats.
     and_then (diffs_per_commit env key gs) (\<lambda>rest.
     Inr (map commit_diff_of stats # rest)))"

text \<open>The row of the \<open>k\<close>-th commit. Collecting pairs into a hash map keeps the last of a key.\<close>

definition pushed_row ::
  "commit_env \<Rightarrow> create_commits_request \<Rightarrow> uuid \<Rightarrow> (string \<times> uuid) list \<Rightarrow> nat \<Rightarrow> git_commit \<Rightarrow> commit_diff list \<Rightarrow> commit_row"
where
  "pushed_row env req repo_id email_to_id k g diffs =
     \<lparr>cm_id = ce_id env k, cm_repo_id = repo_id, cm_author_id = map_of (rev email_to_id) (gc_author_email g),
      cm_git_author_name = gc_author_name g, cm_git_author_email = gc_author_email g,
      cm_ref_name = kr_ref_name req, cm_sha = gc_sha g, cm_parent_sha = coalesce (gc_parent_sha g) ZERO_SHA,
      cm_message = gc_message g, cm_created_at = gc_date g, cm_review_number = kr_review_number req,
      cm_diff_position = map_of (kr_diff_positions req) (gc_sha g), cm_diffs = diffs\<rparr>"

definition pushed_rows ::
  "commit_env \<Rightarrow> create_commits_request \<Rightarrow> uuid \<Rightarrow> (string \<times> uuid) list \<Rightarrow> git_commit list \<Rightarrow> commit_diff list list \<Rightarrow> commit_row list"
where
  "pushed_rows env req repo_id email_to_id gs ds =
     map (\<lambda>(k, g, diffs). pushed_row env req repo_id email_to_id k g diffs) (enumerate 0 (zip gs ds))"

definition create_commits ::
  "commit_env \<Rightarrow> create_commits_request \<Rightarrow> core_db \<Rightarrow> (commit_error + commit_response list) \<times> core_db"
where
  "create_commits env req core =
     then_do (map_err CommitDatabaseError (repo_get (kr_owner req) (kr_repo req) None core), core) (\<lambda>found core1.
     then_do (map_err CommitNotFound (opt_or_not_found found ''repository''
         (IdStr (kr_owner req @ ''/'' @ kr_repo req))), core1) (\<lambda>repository core2.
     (let key = (kr_owner req, kr_repo req) in
     then_do (map_err CommitGitError (ce_rev_list env key (kr_old_sha req) (kr_new_sha req)), core2) (\<lambda>gs core3.
       if gs = [] then (Inr [], core3)
       else
         (let email_to_id = get_by_emails (map gc_author_email gs) core3 in
         then_do (map_err CommitGitError (diffs_per_commit env key gs), core3) (\<lambda>ds core4.
         then_do (case create_bulk (pushed_rows env req (rp_id repository) email_to_id gs ds) core4 of
                    (r, core5) \<Rightarrow> (map_err CommitDatabaseError r, core5)) (\<lambda>commits core5.
         (Inr (map commit_response_from commits), core5))))))))"

end
