(* ===== verification/Forge.thy ===== *)
theory Forge
  imports OrgStore CommitService
begin

text \<open>
  The world of the repository, user and organization services: the core tables, the review
  tables, and the directory of bare repositories on disk that \<open>client/git.rs\<close> keeps, one directory
  per owner. What the file system, git, the image and the object store answer is part of
  \<open>forge_io\<close>, as are the identifiers and times drawn.
\<close>

section \<open>Bare repositories on disk (client/git.rs)\<close>

type_synonym disk = "string \<Rightarrow> string set option"

definition REPO_SUFFIX :: string where "REPO_SUFFIX = ''.git''"

definition normalize_repo_name :: "string \<Rightarrow> string" where
  "normalize_repo_name repo = strip_git_suffix repo @ REPO_SUFFIX"

definition owner_dir :: "string \<Rightarrow> disk \<Rightarrow> string set" where
  "owner_dir owner d = (case d owner of None \<Rightarrow> {} | Some rs \<Rightarrow> rs)"

definition on_disk :: "string \<Rightarrow> string \<Rightarrow> disk \<Rightarrow> bool" where
  "on_disk owner repo d \<longleftrightarrow> normalize_repo_name repo \<in> owner_dir owner d"

text \<open>Where the creation of a bare repository stops; a failing \<open>init_bare\<close> may leave its directory.\<close>

datatype create_fate = CreateDone | OwnerDirFails | InitFails bool | ExportFails

definition put_repo :: "string \<Rightarrow> string \<Rightarrow> disk \<Rightarrow> disk" where
  "put_repo owner repo d = d(owner \<mapsto> insert (normalize_repo_name repo) (owner_dir owner d))"

fun git_create_repo :: "create_fate \<Rightarrow> string \<Rightarrow> string \<Rightarrow> disk \<Rightarrow> (git_error + unit) \<times> disk" where
  "git_create_repo CreateDone owner repo d = (Inr (), put_repo owner repo d)"
| "git_create_repo OwnerDirFails owner repo d = (Inl (GitIoError ''create_dir_all''), d)"
| "git_create_repo (InitFails left) owner repo d =
     (Inl (Git2Error ''init''), if left then put_repo owner repo d else d(owner \<mapsto> owner_dir owner d))"
| "git_create_repo ExportFails owner repo d = (Inl (GitIoError ''export''), put_repo owner repo d)"

definition drop_repo :: "string \<Rightarrow> string \<Rightarrow> disk \<Rightarrow> disk" where
  "drop_repo owner repo d = d(owner \<mapsto> owner_dir owner d - {normalize_repo_name repo})"

definition move_owner :: "string \<Rightarrow> string \<Rightarrow> disk \<Rightarrow> disk" where
  "move_owner old new d = d(old := None, new \<mapsto> owner_dir old d)"

text \<open>\<open>remove_dir_all\<close> fails on a directory that is not there; a failure keeps the directory.\<close>

definition git_delete_repo :: "bool \<Rightarrow> string \<Rightarrow> string \<Rightarrow> disk \<Rightarrow> (git_error + unit) \<times> disk" where
  "git_delete_repo works owner repo d =
     (if works \<and> on_disk owner repo d
      then (Inr (), drop_repo owner repo d)
      else (Inl (GitIoError ''remove_dir_all''), d))"

text \<open>
  Without a directory of the old name there is nothing to move. \<open>rename\<close> replaces an empty
  directory of the new name and fails on one that is not empty.
\<close>

definition git_rename_owner :: "bool \<Rightarrow> string \<Rightarrow> string \<Rightarrow> disk \<Rightarrow> (git_error + unit) \<times> disk" where
  "git_rename_owner works old new d =
     (case d old of
        None \<Rightarrow> (Inr (), d)
      | Some _ \<Rightarrow>
          if old = new then (if works then (Inr (), d) else (Inl (GitIoError ''rename''), d))
          else if works \<and> owner_dir new d = {} then (Inr (), move_owner old new d)
          else (Inl (GitIoError ''rename''), d))"

section \<open>The world\<close>

record forge =
  fg_core :: core_db
  fg_reviews :: review_db
  fg_disk :: disk

record forge_io =
  fi_now :: time
  fi_id :: "nat \<Rightarrow> uuid"
  fi_create :: create_fate
  fi_hooks :: "nat \<Rightarrow> bool"
  fi_delete :: bool
  fi_rename :: "nat \<Rightarrow> bool"
  fi_commit :: "git_error + string"
  fi_webp :: "string option"
  fi_upload :: bool

record forge_env =
  fe_lower :: "string \<Rightarrow> string"
  fe_offensive :: "string \<Rightarrow> bool"
  fe_show_uuid :: "uuid \<Rightarrow> string"
  fe_encode :: "cursor \<Rightarrow> string"
  fe_gitignore :: "string \<Rightarrow> string"
  fe_license :: "string \<Rightarrow> string"
  fe_blob :: "repo_key \<Rightarrow> string \<Rightarrow> string \<Rightarrow> git_error + string"
  fe_blobs :: "repo_key \<Rightarrow> string list \<Rightarrow> string list \<Rightarrow> git_error + string option list"
  fe_paths :: "repo_key \<Rightarrow> string \<Rightarrow> git_error + string list"
  fe_ref_sha :: "repo_key \<Rightarrow> string \<Rightarrow> git_error + string"
  fe_default_ref :: "repo_key \<Rightarrow> git_error + string"

text \<open>A statement on the core tables and an operation on the disk, as steps of the world.\<close>

definition core_do :: "(database_error \<Rightarrow> 'e) \<Rightarrow> (core_db \<Rightarrow> (database_error + 'a) \<times> core_db) \<Rightarrow> forge \<Rightarrow> ('e + 'a) \<times> forge" where
  "core_do err f w = (case f (fg_core w) of (r, core) \<Rightarrow> (map_err err r, w\<lparr>fg_core := core\<rparr>))"

definition disk_do :: "(git_error \<Rightarrow> 'e) \<Rightarrow> (disk \<Rightarrow> (git_error + 'a) \<times> disk) \<Rightarrow> forge \<Rightarrow> ('e + 'a) \<times> forge" where
  "disk_do err f w = (case f (fg_disk w) of (r, d) \<Rightarrow> (map_err err r, w\<lparr>fg_disk := d\<rparr>))"

definition answer_with :: "'e + 'a \<Rightarrow> forge \<Rightarrow> ('e + 'a) \<times> forge" where
  "answer_with r w = (r, w)"

text \<open>A page of a listing, its cursor encoded.\<close>

definition page_of :: "forge_env \<Rightarrow> ('r \<Rightarrow> 'a) \<Rightarrow> 'r list \<times> cursor option \<Rightarrow> 'a page" where
  "page_of env f p = \<lparr>pg_data = map f (fst p), pg_next_cursor = map_option (fe_encode env) (snd p)\<rparr>"

section \<open>Responses shared by the services\<close>

record repository_response =
  rx_id :: uuid
  rx_name :: string
  rx_owner :: string
  rx_visibility :: string
  rx_description :: "string option"
  rx_stars :: int
  rx_user_star :: bool
  rx_readonly :: bool
  rx_created_at :: time

text \<open>\<open>as u32\<close> of a counter.\<close>

definition as_u32 :: "int \<Rightarrow> int" where
  "as_u32 n = n mod 2 ^ 32"

definition repository_response_from :: "repository \<Rightarrow> repository_response" where
  "repository_response_from r =
     \<lparr>rx_id = rp_id r, rx_name = rp_name r, rx_owner = rp_owner_name r,
      rx_visibility = visibility_into_string (rp_visibility r), rx_description = rp_description r,
      rx_stars = as_u32 (rp_stars r), rx_user_star = rp_user_star r, rx_readonly = rp_readonly r,
      rx_created_at = rp_created_at r\<rparr>"

record user_response =
  ur_id :: uuid
  ur_name :: string
  ur_location :: "string option"
  ur_readme :: "string option"
  ur_links :: "string list"
  ur_display_name :: "string option"
  ur_created_at :: time
  ur_image_updated_at :: time

definition user_response_from :: "user \<Rightarrow> user_response" where
  "user_response_from u =
     \<lparr>ur_id = us_id u, ur_name = us_name u, ur_location = us_location u, ur_readme = us_readme u,
      ur_links = us_links u, ur_display_name = us_display_name u, ur_created_at = us_created_at u,
      ur_image_updated_at = us_image_updated_at u\<rparr>"

section \<open>Lemmas\<close>

lemma core_do_cases:
  assumes "core_do err f w = (r, w')"
  shows "\<exists>r0 core. f (fg_core w) = (r0, core) \<and> r = map_err err r0 \<and> w' = w\<lparr>fg_core := core\<rparr>"
  using assms by (auto simp: core_do_def split: prod.splits)

lemma snd_answer [simp]: "snd (answer_with r w) = w" and fst_answer [simp]: "fst (answer_with r w) = r"
  by (simp_all add: answer_with_def)

lemma snd_core_do [simp]: "snd (core_do err f w) = w\<lparr>fg_core := snd (f (fg_core w))\<rparr>"
  and snd_disk_do [simp]: "snd (disk_do err2 g w) = w\<lparr>fg_disk := snd (g (fg_disk w))\<rparr>"
  by (simp_all add: core_do_def disk_do_def split: prod.split)

lemma put_repo_dir [simp]:
  "owner_dir o' (put_repo owner repo d) = (if o' = owner then insert (normalize_repo_name repo) (owner_dir owner d) else owner_dir o' d)"
  by (simp add: put_repo_def owner_dir_def)

section \<open>The directories of repositories\<close>

text \<open>
  What the services rely on in the git client: the operations on directories, for names without
  the \<open>.git\<close> suffix. The lemmas say that a collection of repositories, each with the name of its
  owner, keeps its directories.
\<close>

definition plain_name :: "string \<Rightarrow> bool" where
  "plain_name n \<longleftrightarrow> strip_git_suffix n = n"

locale repo_dirs =
  fixes plain :: "string \<Rightarrow> bool"
    and has :: "string \<Rightarrow> string \<Rightarrow> 'd \<Rightarrow> bool"
    and mk rm mv :: "string \<Rightarrow> string \<Rightarrow> 'd \<Rightarrow> 'd"
  assumes has_mk: "plain n \<Longrightarrow> plain n' \<Longrightarrow> has w n (mk w' n' d) \<longleftrightarrow> w = w' \<and> n = n' \<or> has w n d"
    and has_rm: "plain n \<Longrightarrow> plain n' \<Longrightarrow> has w n (rm w' n' d) \<longleftrightarrow> has w n d \<and> \<not> (w = w' \<and> n = n')"
    and has_mv: "old \<noteq> new \<Longrightarrow> (\<And>k. \<not> has new k d) \<Longrightarrow>
      has w n (mv old new d) \<longleftrightarrow> (if w = new then has old n d else w \<noteq> old \<and> has w n d)"
begin

lemma all_mk:
  assumes "\<And>r. r \<in> R \<Longrightarrow> plain (nm r) \<and> has (own r) (nm r) d" and "plain n"
  shows "\<And>r. r \<in> R \<Longrightarrow> has (own r) (nm r) (mk w n d)" and "has w n (mk w n d)"
  using assms by (simp_all add: has_mk)

lemma all_rm:
  assumes "\<And>r. r \<in> R \<Longrightarrow> plain (nm r) \<and> has (own r) (nm r) d" and "plain n"
    and "\<And>r. r \<in> R \<Longrightarrow> (own r, nm r) \<noteq> (w, n)"
  shows "r \<in> R \<Longrightarrow> has (own r) (nm r) (rm w n d)"
  using assms by (auto simp: has_rm)

lemma all_mv:
  assumes "\<And>r. r \<in> R \<Longrightarrow> has (own r) (nm r) d" and "old \<noteq> new" and "\<And>k. \<not> has new k d"
  shows "r \<in> R \<Longrightarrow> has (if own r = old then new else own r) (nm r) (mv old new d)"
  using assms by (auto simp: has_mv)

lemma mk_rm: "plain n \<Longrightarrow> plain k \<Longrightarrow> \<not> has w n d \<Longrightarrow> has w' k (rm w n (mk w n d)) \<longleftrightarrow> has w' k d"
  by (auto simp: has_rm has_mk)

end

lemma plain_normalize: "plain_name n \<Longrightarrow> plain_name k \<Longrightarrow> normalize_repo_name n = normalize_repo_name k \<longleftrightarrow> n = k"
  by (auto simp: plain_name_def normalize_repo_name_def)

lemma move_owner_dir:
  "old \<noteq> new \<Longrightarrow> owner_dir w (move_owner old new d) = (if w = new then owner_dir old d else if w = old then {} else owner_dir w d)"
  by (auto simp: move_owner_def owner_dir_def)

interpretation dirs: repo_dirs plain_name on_disk put_repo drop_repo move_owner
proof
  show "on_disk w n (put_repo w' n' d) \<longleftrightarrow> w = w' \<and> n = n' \<or> on_disk w n d" if "plain_name n" "plain_name n'" for w n w' n' d
    using plain_normalize [OF that] by (auto simp: on_disk_def)
  show "on_disk w n (drop_repo w' n' d) \<longleftrightarrow> on_disk w n d \<and> \<not> (w = w' \<and> n = n')" if "plain_name n" "plain_name n'" for w n w' n' d
    using plain_normalize [OF that] by (auto simp: on_disk_def drop_repo_def owner_dir_def)
  show "on_disk w n (move_owner old new d) \<longleftrightarrow> (if w = new then on_disk old n d else w \<noteq> old \<and> on_disk w n d)"
    if "old \<noteq> new" for old new w n d
    by (simp add: on_disk_def move_owner_dir [OF that])
qed

fun_cases git_create_repo_ok: "git_create_repo fate owner repo d = (Inr u, d')"

end
