(* ===== verification/AuthCodes.thy ===== *)
theory AuthCodes
  imports AuthStore
begin

text \<open>
  The login codes and the address codes as one-time codes: both tables implement the
  interface of \<open>OneTimeCode\<close>, so a code is good for one success and for at most
  \<open>MAX_AUTH_CODE_ATTEMPTS\<close> answered guesses.
\<close>

definition MAX_AUTH_CODE_ATTEMPTS :: nat where "MAX_AUTH_CODE_ATTEMPTS = 5"
definition MAX_EMAIL_CODE_ATTEMPTS :: nat where "MAX_EMAIL_CODE_ATTEMPTS = 5"

section \<open>Login codes\<close>

definition unused_code :: "uuid \<Rightarrow> auth_code \<Rightarrow> bool" where
  "unused_code u c \<longleftrightarrow> ac_user_id c = u \<and> ac_used_at c = None"

text \<open>Issuing a login code as \<open>send_auth_email\<close> does, and guessing it as \<open>verify_auth_code\<close> does.\<close>

definition login_issue ::
  "uuid \<times> time \<Rightarrow> uuid \<Rightarrow> string \<Rightarrow> time \<Rightarrow> core_db \<times> auth_db \<Rightarrow> (database_error + auth_code) \<times> core_db \<times> auth_db"
where
  "login_issue = (\<lambda>(i, now) user_id code_hash expires_at (core, db).
     (case create_auth_code core i now user_id code_hash expires_at (invalidate_auth_codes now user_id db) of
        (r, db') \<Rightarrow> (r, core, db')))"

fun login_verdict :: "auth_code_verification \<Rightarrow> verdict" where
  "login_verdict AuthSuccess = Accepted"
| "login_verdict AuthInvalid = Rejected"
| "login_verdict AuthAttemptsExhausted = Exhausted"
| "login_verdict AuthNoActiveCode = NoCode"

definition login_guess ::
  "time \<Rightarrow> uuid \<Rightarrow> string \<Rightarrow> core_db \<times> auth_db \<Rightarrow> (database_error + verdict) \<times> core_db \<times> auth_db"
where
  "login_guess now user_id code_hash = (\<lambda>(core, db).
     (case verify_and_consume_auth_code now user_id code_hash MAX_AUTH_CODE_ATTEMPTS db of
        (v, db') \<Rightarrow> (Inr (login_verdict v), core, db')))"

definition one_login_code :: "core_db \<times> auth_db \<Rightarrow> bool" where
  "one_login_code = (\<lambda>(core, db). single_code ac_id unused_code (db_auth_codes db))"

definition login_slot :: "core_db \<times> auth_db \<Rightarrow> uuid \<Rightarrow> code_slot" where
  "login_slot = (\<lambda>(core, db) u.
     map_option (\<lambda>c. (ac_code_hash c, ac_attempt_count c, ac_expires_at c))
       (find (unused_code u) (db_auth_codes db)))"

interpretation login_rows: code_table ac_id unused_code "\<lambda>now c. c\<lparr>ac_used_at := Some now\<rparr>"
  by unfold_locales (auto simp: unused_code_def)

lemma invalidate_auth_codes_alt:
  "db_auth_codes (invalidate_auth_codes now u db) =
     update_where (unused_code u) (\<lambda>c. c\<lparr>ac_used_at := Some now\<rparr>) (db_auth_codes db)"
  by (simp add: invalidate_auth_codes_def update_where_def unused_code_def)

lemma login_issue_cases:
  assumes "login_issue (i, now) u h e (core, db) = (r, s')"
  shows "(\<exists>err. r = Inl err \<and> s' = (core, invalidate_auth_codes now u db)) \<or>
    (\<exists>c. r = Inr c \<and> c = \<lparr>ac_id = i, ac_user_id = u, ac_code_hash = h, ac_attempt_count = 0,
               ac_created_at = now, ac_expires_at = e, ac_used_at = None\<rparr> \<and>
      auth_codes_ok (db_auth_codes (invalidate_auth_codes now u db) @ [c]) \<and>
      s' = (core, (invalidate_auth_codes now u db)\<lparr>db_auth_codes :=
              db_auth_codes (invalidate_auth_codes now u db) @ [c]\<rparr>))"
  using assms
  by (auto simp: login_issue_def create_auth_code_def Let_def checked_def split: if_splits)

lemma login_issue_step:
  assumes "one_login_code s" "login_issue a u h e s = (r, s')"
  shows "one_login_code s'"
    and "login_slot s' = (login_slot s)(u := case r of Inl err \<Rightarrow> None | Inr c \<Rightarrow> Some (h, 0, e))"
proof -
  obtain core db i now where s: "s = (core, db)" "a = (i, now)" by (cases s; cases a)
  have inv: "single_code ac_id unused_code (db_auth_codes db)"
    using assms(1) by (simp add: s one_login_code_def)
  note cs = login_issue_cases [OF assms(2) [unfolded s]]
  from cs show "one_login_code s'"
  proof (elim disjE exE conjE)
    fix c assume c: "c = \<lparr>ac_id = i, ac_user_id = u, ac_code_hash = h, ac_attempt_count = 0,
        ac_created_at = now, ac_expires_at = e, ac_used_at = None\<rparr>"
      and ok: "auth_codes_ok (db_auth_codes (invalidate_auth_codes now u db) @ [c])"
      and s': "s' = (core, (invalidate_auth_codes now u db)\<lparr>db_auth_codes :=
        db_auth_codes (invalidate_auth_codes now u db) @ [c]\<rparr>)"
    have "\<And>v. unused_code v c \<longleftrightarrow> v = u" by (auto simp: c unused_code_def)
    from login_rows.issue_single [OF inv this] ok show ?thesis
      by (simp add: s' one_login_code_def invalidate_auth_codes_alt auth_codes_ok_def)
  qed (simp add: one_login_code_def invalidate_auth_codes_alt login_rows.mark_single [OF inv])
  show "login_slot s' = (login_slot s)(u := case r of Inl err \<Rightarrow> None | Inr c \<Rightarrow> Some (h, 0, e))"
    using cs by (auto simp: s login_slot_def find_append invalidate_auth_codes_alt login_rows.mark_find
        unused_code_def fun_eq_iff split: option.splits)
qed

lemma login_guess_cases:
  assumes "one_login_code (core, db)"
  shows "login_guess now u h (core, db) =
    (case find (unused_code u) (db_auth_codes db) of
       None \<Rightarrow> (Inr NoCode, core, db)
     | Some c \<Rightarrow>
         let set_row = (\<lambda>f. (core, db\<lparr>db_auth_codes := update_where (\<lambda>d. ac_id d = ac_id c) f (db_auth_codes db)\<rparr>))
         in if ac_expires_at c \<le> now then (Inr NoCode, core, db)
            else if ac_code_hash c = h then (Inr Accepted, set_row (\<lambda>c. c\<lparr>ac_used_at := Some now\<rparr>))
            else if MAX_AUTH_CODE_ATTEMPTS \<le> ac_attempt_count c + 1
            then (Inr Exhausted, set_row (\<lambda>d. d\<lparr>ac_attempt_count := ac_attempt_count c + 1, ac_used_at := Some now\<rparr>))
            else (Inr Rejected, set_row (\<lambda>d. d\<lparr>ac_attempt_count := ac_attempt_count c + 1\<rparr>)))"
proof -
  have "active_code now u = (\<lambda>c. unused_code u c \<and> now < ac_expires_at c)"
    by (auto simp: active_code_def unused_code_def fun_eq_iff)
  then have "latest ac_created_at (filter (active_code now u) (db_auth_codes db)) =
    (case find (unused_code u) (db_auth_codes db) of
       None \<Rightarrow> None | Some c \<Rightarrow> if now < ac_expires_at c then Some c else None)"
    using login_rows.latest_active [of "db_auth_codes db"] assms by (simp add: one_login_code_def)
  then show ?thesis
    by (auto simp: login_guess_def verify_and_consume_auth_code_def Let_def split: option.splits)
qed

lemma update_code_slot:
  assumes "one_login_code (core, db)" "find (unused_code u) (db_auth_codes db) = Some c"
    and f: "\<And>d. ac_id (f d) = ac_id d" "\<And>d. ac_user_id (f d) = ac_user_id d"
  defines "s' \<equiv> (core, db\<lparr>db_auth_codes := update_where (\<lambda>d. ac_id d = ac_id c) f (db_auth_codes db)\<rparr>)"
  shows "one_login_code s'"
    and "login_slot s' = (login_slot (core, db))(u := if ac_used_at (f c) = None
           then Some (ac_code_hash (f c), ac_attempt_count (f c), ac_expires_at (f c)) else None)"
proof -
  have u: "ac_user_id c = u" using find_SomeD [OF assms(2)] by (simp add: unused_code_def)
  then have fu: "\<And>v. unused_code v (f c) \<longleftrightarrow> v = u \<and> ac_used_at (f c) = None"
    using f(2) [of c] by (auto simp: unused_code_def)
  note upd = login_rows.update_code [OF _ assms(2) f(1)]
  show "one_login_code s'"
    using upd(1) assms(1) fu by (simp add: s'_def one_login_code_def)
  show "login_slot s' = (login_slot (core, db))(u := if ac_used_at (f c) = None
           then Some (ac_code_hash (f c), ac_attempt_count (f c), ac_expires_at (f c)) else None)"
    using upd(2) assms(1) fu by (auto simp: s'_def one_login_code_def login_slot_def fun_eq_iff)
qed

lemma login_guess_step:
  assumes "one_login_code s"
  shows "one_login_code (snd (login_guess now u h s)) \<and>
    fst (login_guess now u h s) = Inr (fst (try_code MAX_AUTH_CODE_ATTEMPTS now h (login_slot s u))) \<and>
    login_slot (snd (login_guess now u h s)) =
      (login_slot s)(u := snd (try_code MAX_AUTH_CODE_ATTEMPTS now h (login_slot s u)))"
proof -
  obtain core db where s: "s = (core, db)" by (cases s)
  show ?thesis
  proof (cases "find (unused_code u) (db_auth_codes db)")
    case None
    then have "login_slot s u = None" by (simp add: login_slot_def s)
    with None show ?thesis
      using login_guess_cases [OF assms [unfolded s]] assms by (auto simp: s fun_eq_iff)
  next
    case (Some c)
    then have sl: "login_slot s u = Some (ac_code_hash c, ac_attempt_count c, ac_expires_at c)"
      by (simp add: login_slot_def s)
    have un: "ac_used_at c = None" using find_SomeD [OF Some] by (simp add: unused_code_def)
    note upd = update_code_slot [OF assms [unfolded s] Some]
    show ?thesis
      using login_guess_cases [OF assms [unfolded s], of now u h] Some sl assms un
        upd [of "\<lambda>c. c\<lparr>ac_used_at := Some now\<rparr>"]
        upd [of "\<lambda>d. d\<lparr>ac_attempt_count := ac_attempt_count c + 1, ac_used_at := Some now\<rparr>"]
        upd [of "\<lambda>d. d\<lparr>ac_attempt_count := ac_attempt_count c + 1\<rparr>"]
      by (auto simp: s Let_def fun_eq_iff)
  qed
qed

interpretation login: one_time_codes MAX_AUTH_CODE_ATTEMPTS one_login_code login_slot login_issue login_guess
proof unfold_locales
  fix s s' now k h v err
  assume inv: "one_login_code s"
  note g = login_guess_step [OF inv, of now k h]
  show "one_login_code (snd (login_guess now k h s))" using g by blast
  show "login_guess now k h s = (Inr v, s') \<Longrightarrow>
      v = fst (try_code MAX_AUTH_CODE_ATTEMPTS now h (login_slot s k)) \<and>
      login_slot s' = (login_slot s)(k := snd (try_code MAX_AUTH_CODE_ATTEMPTS now h (login_slot s k)))"
    using g by auto
  show "login_guess now k h s = (Inl err, s') \<Longrightarrow>
      fst (try_code MAX_AUTH_CODE_ATTEMPTS now h (login_slot s k)) = Accepted \<and> login_slot s' = login_slot s"
    using g by auto
next
  fix s a k h e
  show "one_login_code s \<Longrightarrow> one_login_code (snd (login_issue a k h e s))"
    using login_issue_step(1) prod.collapse by metis
qed (simp_all add: MAX_AUTH_CODE_ATTEMPTS_def login_issue_step(2))

section \<open>Address codes\<close>

definition unused_email_code :: "uuid \<times> string \<Rightarrow> email_verification_code \<Rightarrow> bool" where
  "unused_email_code k c \<longleftrightarrow> (ec_user_id c, ec_email c) = k \<and> ec_used_at c = None"

text \<open>Issuing as \<open>issue_and_send_code\<close> does, and guessing as \<open>verify_email\<close> does.\<close>

definition email_issue ::
  "uuid \<times> time \<Rightarrow> uuid \<times> string \<Rightarrow> string \<Rightarrow> time \<Rightarrow> core_db \<times> auth_db
    \<Rightarrow> (database_error + email_verification_code) \<times> core_db \<times> auth_db"
where
  "email_issue = (\<lambda>(i, now) (user_id, email) code_hash expires_at (core, db).
     (case create_code core i now user_id email code_hash expires_at
             (invalidate_codes_for_email now user_id email db) of
        (r, db') \<Rightarrow> (r, core, db')))"

fun email_verdict :: "email_code_verification \<Rightarrow> verdict" where
  "email_verdict (EmailSuccess e) = Accepted"
| "email_verdict EmailInvalid = Rejected"
| "email_verdict EmailAttemptsExhausted = Exhausted"
| "email_verdict EmailNoActiveCode = NoCode"

text \<open>The identifier of the row that an insert creates depends on the time of the insert.\<close>

definition email_guess ::
  "(time \<Rightarrow> uuid) \<Rightarrow> time \<Rightarrow> uuid \<times> string \<Rightarrow> string \<Rightarrow> core_db \<times> auth_db
    \<Rightarrow> (database_error + verdict) \<times> core_db \<times> auth_db"
where
  "email_guess fresh now = (\<lambda>(user_id, email) code_hash s.
     (case verify_and_consume_email_code (fresh now) now user_id email code_hash MAX_EMAIL_CODE_ATTEMPTS s of
        (v, s') \<Rightarrow> (map_sum id email_verdict v, s')))"

definition one_email_code :: "core_db \<times> auth_db \<Rightarrow> bool" where
  "one_email_code = (\<lambda>(core, db). single_code ec_id unused_email_code (db_email_codes db))"

definition email_slot :: "core_db \<times> auth_db \<Rightarrow> uuid \<times> string \<Rightarrow> code_slot" where
  "email_slot = (\<lambda>(core, db) k.
     map_option (\<lambda>c. (ec_code_hash c, ec_attempt_count c, ec_expires_at c))
       (find (unused_email_code k) (db_email_codes db)))"

interpretation email_rows: code_table ec_id unused_email_code "\<lambda>now c. c\<lparr>ec_used_at := Some now\<rparr>"
  by unfold_locales (auto simp: unused_email_code_def)

lemma invalidate_codes_alt:
  "db_email_codes (invalidate_codes_for_email now u email db) =
     update_where (unused_email_code (u, email)) (\<lambda>c. c\<lparr>ec_used_at := Some now\<rparr>) (db_email_codes db)"
  by (simp add: invalidate_codes_for_email_def update_where_def unused_email_code_def)

lemma email_issue_cases:
  assumes "email_issue (i, now) (u, m) h e (core, db) = (r, s')"
  shows "(\<exists>err. r = Inl err \<and> s' = (core, invalidate_codes_for_email now u m db)) \<or>
    (\<exists>c. r = Inr c \<and> c = \<lparr>ec_id = i, ec_user_id = u, ec_email = m, ec_code_hash = h, ec_attempt_count = 0,
               ec_created_at = now, ec_expires_at = e, ec_used_at = None\<rparr> \<and>
      email_codes_ok (db_email_codes (invalidate_codes_for_email now u m db) @ [c]) \<and>
      s' = (core, (invalidate_codes_for_email now u m db)\<lparr>db_email_codes :=
              db_email_codes (invalidate_codes_for_email now u m db) @ [c]\<rparr>))"
  using assms
  by (auto simp: email_issue_def create_code_def Let_def checked_def split: if_splits)

lemma email_issue_step:
  assumes "one_email_code s" "email_issue a k h e s = (r, s')"
  shows "one_email_code s'"
    and "email_slot s' = (email_slot s)(k := case r of Inl err \<Rightarrow> None | Inr c \<Rightarrow> Some (h, 0, e))"
proof -
  obtain core db i now u m where s: "s = (core, db)" "a = (i, now)" "k = (u, m)"
    by (cases s; cases a; cases k)
  have inv: "single_code ec_id unused_email_code (db_email_codes db)"
    using assms(1) by (simp add: s one_email_code_def)
  note cs = email_issue_cases [OF assms(2) [unfolded s]]
  from cs show "one_email_code s'"
  proof (elim disjE exE conjE)
    fix c assume c: "c = \<lparr>ec_id = i, ec_user_id = u, ec_email = m, ec_code_hash = h, ec_attempt_count = 0,
        ec_created_at = now, ec_expires_at = e, ec_used_at = None\<rparr>"
      and ok: "email_codes_ok (db_email_codes (invalidate_codes_for_email now u m db) @ [c])"
      and s': "s' = (core, (invalidate_codes_for_email now u m db)\<lparr>db_email_codes :=
        db_email_codes (invalidate_codes_for_email now u m db) @ [c]\<rparr>)"
    have "\<And>v. unused_email_code v c \<longleftrightarrow> v = (u, m)" by (auto simp: c unused_email_code_def)
    from email_rows.issue_single [OF inv this] ok show ?thesis
      by (simp add: s' one_email_code_def invalidate_codes_alt email_codes_ok_def)
  qed (simp add: one_email_code_def invalidate_codes_alt email_rows.mark_single [OF inv])
  show "email_slot s' = (email_slot s)(k := case r of Inl err \<Rightarrow> None | Inr c \<Rightarrow> Some (h, 0, e))"
    using cs by (auto simp: s email_slot_def find_append invalidate_codes_alt email_rows.mark_find
        unused_email_code_def fun_eq_iff split: option.splits)
qed

lemma email_update_slot:
  fixes core' :: core_db
  assumes "one_email_code (core, db)" "find (unused_email_code k) (db_email_codes db) = Some c"
    and f: "\<And>d. ec_id (f d) = ec_id d"
      "\<And>d. (ec_user_id (f d), ec_email (f d)) = (ec_user_id d, ec_email d)"
  defines "s' \<equiv> (core', db\<lparr>db_email_codes := update_where (\<lambda>d. ec_id d = ec_id c) f (db_email_codes db)\<rparr>)"
  shows "one_email_code s'"
    and "email_slot s' = (email_slot (core, db))(k := if ec_used_at (f c) = None
           then Some (ec_code_hash (f c), ec_attempt_count (f c), ec_expires_at (f c)) else None)"
proof -
  have "(ec_user_id c, ec_email c) = k" using find_SomeD [OF assms(2)] by (simp add: unused_email_code_def)
  then have fu: "\<And>v. unused_email_code v (f c) \<longleftrightarrow> v = k \<and> ec_used_at (f c) = None"
    using f(2) [of c] by (auto simp: unused_email_code_def)
  note upd = email_rows.update_code [OF _ assms(2) f(1)]
  show "one_email_code s'"
    using upd(1) assms(1) fu by (simp add: s'_def one_email_code_def)
  show "email_slot s' = (email_slot (core, db))(k := if ec_used_at (f c) = None
           then Some (ec_code_hash (f c), ec_attempt_count (f c), ec_expires_at (f c)) else None)"
    using upd(2) assms(1) fu by (auto simp: s'_def one_email_code_def email_slot_def fun_eq_iff)
qed

lemma email_guess_cases:
  assumes "one_email_code (core, db)"
  shows "email_guess fresh now (u, m) h (core, db) =
    (case find (unused_email_code (u, m)) (db_email_codes db) of
       None \<Rightarrow> (Inr NoCode, core, db)
     | Some c \<Rightarrow>
         let set_row = (\<lambda>f. db\<lparr>db_email_codes := update_where (\<lambda>d. ec_id d = ec_id c) f (db_email_codes db)\<rparr>)
         in if ec_expires_at c \<le> now then (Inr NoCode, core, db)
            else if ec_code_hash c = h then
              (case upsert_verified (fresh now) now u m core of
                 (Inl e, _) \<Rightarrow> (Inl e, core, db)
               | (Inr row, core') \<Rightarrow> (Inr Accepted, core', set_row (\<lambda>c. c\<lparr>ec_used_at := Some now\<rparr>)))
            else if MAX_EMAIL_CODE_ATTEMPTS \<le> ec_attempt_count c + 1
            then (Inr Exhausted, core, set_row (\<lambda>d. d\<lparr>ec_attempt_count := ec_attempt_count c + 1, ec_used_at := Some now\<rparr>))
            else (Inr Rejected, core, set_row (\<lambda>d. d\<lparr>ec_attempt_count := ec_attempt_count c + 1\<rparr>)))"
proof -
  have "active_email_code now u m = (\<lambda>c. unused_email_code (u, m) c \<and> now < ec_expires_at c)"
    by (auto simp: active_email_code_def unused_email_code_def fun_eq_iff)
  then have "latest ec_created_at (filter (active_email_code now u m) (db_email_codes db)) =
    (case find (unused_email_code (u, m)) (db_email_codes db) of
       None \<Rightarrow> None | Some c \<Rightarrow> if now < ec_expires_at c then Some c else None)"
    using email_rows.latest_active [of "db_email_codes db"] assms by (simp add: one_email_code_def)
  then show ?thesis
    by (auto simp: email_guess_def verify_and_consume_email_code_def Let_def split: option.splits sum.splits prod.splits)
qed

lemma email_guess_step:
  assumes "one_email_code s" "email_guess fresh now k h s = (r, s')"
  shows "one_email_code s' \<and>
    (case r of
       Inl err \<Rightarrow> fst (try_code MAX_EMAIL_CODE_ATTEMPTS now h (email_slot s k)) = Accepted \<and> email_slot s' = email_slot s
     | Inr v \<Rightarrow> v = fst (try_code MAX_EMAIL_CODE_ATTEMPTS now h (email_slot s k)) \<and>
         email_slot s' = (email_slot s)(k := snd (try_code MAX_EMAIL_CODE_ATTEMPTS now h (email_slot s k))))"
proof -
  obtain core db u m where s: "s = (core, db)" "k = (u, m)" by (cases s; cases k)
  have inv: "one_email_code (core, db)" using assms(1) s by simp
  note g = assms(2) [unfolded s email_guess_cases [OF inv]]
  show ?thesis
  proof (cases "find (unused_email_code (u, m)) (db_email_codes db)")
    case None
    then have "email_slot s k = None" by (simp add: email_slot_def s)
    with None g inv show ?thesis by (auto simp: s fun_eq_iff)
  next
    case (Some c)
    then have sl: "email_slot s k = Some (ec_code_hash c, ec_attempt_count c, ec_expires_at c)"
      by (simp add: email_slot_def s)
    have un: "ec_used_at c = None" using find_SomeD [OF Some] by (simp add: unused_email_code_def)
    note upd = email_update_slot [OF inv Some]
    show ?thesis
      using g Some sl inv un
        upd [of "\<lambda>c. c\<lparr>ec_used_at := Some now\<rparr>"]
        upd [of "\<lambda>d. d\<lparr>ec_attempt_count := ec_attempt_count c + 1, ec_used_at := Some now\<rparr>"]
        upd [of "\<lambda>d. d\<lparr>ec_attempt_count := ec_attempt_count c + 1\<rparr>"]
      by (auto simp: s Let_def fun_eq_iff split: if_splits sum.splits prod.splits)
  qed
qed

interpretation emails: one_time_codes MAX_EMAIL_CODE_ATTEMPTS one_email_code email_slot email_issue
  "email_guess fresh" for fresh
proof unfold_locales
  fix s s' now k h v err
  assume inv: "one_email_code s"
  show "one_email_code (snd (email_guess fresh now k h s))"
    using email_guess_step [OF inv] by (metis prod.collapse)
  show "email_guess fresh now k h s = (Inr v, s') \<Longrightarrow>
      v = fst (try_code MAX_EMAIL_CODE_ATTEMPTS now h (email_slot s k)) \<and>
      email_slot s' = (email_slot s)(k := snd (try_code MAX_EMAIL_CODE_ATTEMPTS now h (email_slot s k)))"
    using email_guess_step [OF inv] by fastforce
  show "email_guess fresh now k h s = (Inl err, s') \<Longrightarrow>
      fst (try_code MAX_EMAIL_CODE_ATTEMPTS now h (email_slot s k)) = Accepted \<and> email_slot s' = email_slot s"
    using email_guess_step [OF inv] by fastforce
next
  fix s a k h e
  show "one_email_code s \<Longrightarrow> one_email_code (snd (email_issue a k h e s))"
    using email_issue_step(1) prod.collapse by metis
qed (simp_all add: MAX_EMAIL_CODE_ATTEMPTS_def email_issue_step(2))

section \<open>What the tables promise\<close>

text \<open>
  C18: The two code tables refine the abstract one-time code. In a state with at most one unused
  code per key, issuing replaces the slot of the key (and empties it when the insert fails), and
  a guess answers and moves the slot exactly as \<open>try_code\<close> does with a budget of five. The one
  difference is the address code whose right guess meets an address that cannot be stored: the
  transaction rolls back and the code stays as it was. Every operation keeps the state in which
  at most one code per key is unused.
\<close>

theorem code_tables_refine_try_code:
  assumes "one_login_code s" and "one_email_code t"
  shows "(\<forall>a u h e. case login_issue a u h e s of (r, s') \<Rightarrow> one_login_code s' \<and>
      login_slot s' = (login_slot s)(u := case r of Inl err \<Rightarrow> None | Inr c \<Rightarrow> Some (h, 0, e)))
    \<and> (\<forall>now u h. case login_guess now u h s of (r, s') \<Rightarrow> one_login_code s' \<and>
      r = Inr (fst (try_code MAX_AUTH_CODE_ATTEMPTS now h (login_slot s u))) \<and>
      login_slot s' = (login_slot s)(u := snd (try_code MAX_AUTH_CODE_ATTEMPTS now h (login_slot s u))))
    \<and> (\<forall>a k h e. case email_issue a k h e t of (r, t') \<Rightarrow> one_email_code t' \<and>
      email_slot t' = (email_slot t)(k := case r of Inl err \<Rightarrow> None | Inr c \<Rightarrow> Some (h, 0, e)))
    \<and> (\<forall>fresh now k h. case email_guess fresh now k h t of (r, t') \<Rightarrow> one_email_code t' \<and>
      (case r of
         Inl err \<Rightarrow> fst (try_code MAX_EMAIL_CODE_ATTEMPTS now h (email_slot t k)) = Accepted
           \<and> email_slot t' = email_slot t
       | Inr v \<Rightarrow> v = fst (try_code MAX_EMAIL_CODE_ATTEMPTS now h (email_slot t k))
           \<and> email_slot t' = (email_slot t)(k := snd (try_code MAX_EMAIL_CODE_ATTEMPTS now h (email_slot t k)))))"
  (is "?A \<and> ?B \<and> ?C \<and> ?D")
proof (intro conjI)
  show ?A by (intro allI case_prodI2 conjI) (erule login_issue_step [OF assms(1)])+
  show ?B using login_guess_step [OF assms(1)] by (auto simp: case_prod_beta)
  show ?C by (intro allI case_prodI2 conjI) (erule email_issue_step [OF assms(2)])+
  show ?D by (intro allI case_prodI2) (rule email_guess_step [OF assms(2)])
qed

definition empty_auth :: auth_db where
  "empty_auth = \<lparr>db_auth_codes = [], db_sessions = [], db_email_codes = [], db_tokens = [], db_devices = []\<rparr>"

definition demo_codes :: auth_db where
  "demo_codes = empty_auth\<lparr>db_auth_codes := [\<lparr>ac_id = 1, ac_user_id = 7, ac_code_hash = ''h'',
     ac_attempt_count = 4, ac_created_at = 0, ac_expires_at = 600, ac_used_at = None\<rparr>]\<rparr>"

theorem code_tables_refine_try_code_witness:
  "login_slot (empty_core, demo_codes) 7 = Some (''h'', 4, 600) \<and>
   (case login_guess 10 7 ''x'' (empty_core, demo_codes) of (r, s') \<Rightarrow>
      r = Inr Exhausted \<and> login_slot s' 7 = None)"
proof -
  have inv: "one_login_code (empty_core, demo_codes)" "one_email_code (empty_core, demo_codes)"
    by (simp_all add: one_login_code_def one_email_code_def single_code_def demo_codes_def empty_auth_def)
  have sl: "login_slot (empty_core, demo_codes) 7 = Some (''h'', 4, 600)"
    by (simp add: login_slot_def demo_codes_def unused_code_def)
  show ?thesis
    using code_tables_refine_try_code [OF inv, THEN conjunct2, THEN conjunct1,
        THEN spec [of _ 10], THEN spec [of _ 7], THEN spec [of _ "''x''"]] sl
    by (auto simp: MAX_AUTH_CODE_ATTEMPTS_def split: prod.splits)
qed

text \<open>
  C20: From empty tables, a user gets at most five answers (accepted, rejected or exhausted) and at
  most one success for each login code that was issued to it, and an address at most five answers
  and one success for each address code, whatever the order of sends and guesses for all users,
  whatever the clock shows, and even when an insert fails.
\<close>

theorem guesses_are_bounded:
  assumes "db_auth_codes (snd s) = []" and "db_email_codes (snd s) = []"
  shows "answered u (fst (run_codes login_issue login_guess es s)) \<le> 5 * issued u es \<and>
    accepted u (fst (run_codes login_issue login_guess es s)) \<le> issued u es \<and>
    answered k (fst (run_codes email_issue (email_guess fresh) fs s)) \<le> 5 * issued k fs \<and>
    accepted k (fst (run_codes email_issue (email_guess fresh) fs s)) \<le> issued k fs"
proof -
  have "one_login_code s" "one_email_code s"
    using assms by (auto simp: one_login_code_def one_email_code_def single_code_def)
  moreover have "login_slot s v = None" "email_slot s j = None" for v j
    using assms by (auto simp: login_slot_def email_slot_def split: prod.splits)
  ultimately show ?thesis
    using login.run_budget [of s u es] emails.run_budget [of s k fresh fs]
      login.run_accepted [of s u es] emails.run_accepted [of s k fresh fs]
    by (simp add: within_budget_def guesses_left_def codes_held_def MAX_AUTH_CODE_ATTEMPTS_def MAX_EMAIL_CODE_ATTEMPTS_def)
qed

definition nine_guesses :: "(uuid, uuid \<times> time) code_event list" where
  "nine_guesses = Issue (1, 0) 9 ''h'' 600 # replicate 9 (Guess 10 9 ''x'')"

definition right_twice :: "(uuid, uuid \<times> time) code_event list" where
  "right_twice = [Issue (1, 0) 9 ''h'' 600, Guess 10 9 ''x'', Guess 11 9 ''h'', Guess 12 9 ''h'']"

text \<open>Nine wrong guesses, five answers; the right code given twice, one success.\<close>

theorem guesses_are_bounded_witness:
  "answered 9 (fst (run_codes login_issue login_guess nine_guesses (demo_store, empty_auth))) \<le> 5 \<and>
   map snd (fst (run_codes login_issue login_guess nine_guesses (demo_store, empty_auth))) =
     replicate 4 Rejected @ [Exhausted] @ replicate 4 NoCode \<and>
   accepted 9 (fst (run_codes login_issue login_guess right_twice (demo_store, empty_auth))) \<le> 1 \<and>
   map snd (fst (run_codes login_issue login_guess right_twice (demo_store, empty_auth))) = [Rejected, Accepted, NoCode]"
proof (intro conjI)
  show "answered 9 (fst (run_codes login_issue login_guess nine_guesses (demo_store, empty_auth))) \<le> 5"
    using guesses_are_bounded [of "(demo_store, empty_auth)" 9 nine_guesses "(9, ''m'')" "\<lambda>t. 1" "[]"]
    by (simp add: empty_auth_def issued_def nine_guesses_def)
  show "accepted 9 (fst (run_codes login_issue login_guess right_twice (demo_store, empty_auth))) \<le> 1"
    using guesses_are_bounded [of "(demo_store, empty_auth)" 9 right_twice "(9, ''m'')" "\<lambda>t. 1" "[]"]
    by (simp add: empty_auth_def issued_def right_twice_def)
qed (code_simp)+

end
