(* ===== verification/TokenProps.thy ===== *)
theory TokenProps
  imports TokenClient
begin

text \<open>
  Tokens and codes: the formats are accepted by their own checks. The witnesses use a base62
  written out digit by digit, which satisfies the laws of \<open>token_lib_ok\<close>.
\<close>

section \<open>Big-endian bytes\<close>

lemma from_be_Nil [simp]: "from_be [] = 0"
  by (simp add: from_be_def)

lemma from_be_snoc [simp]: "from_be (s @ [c]) = from_be s * 256 + of_char c"
  by (simp add: from_be_def)

lemma of_char_bound: "(of_char c :: nat) < 256"
  using of_char_mod_256 [of c, where ?'a = nat] mod_less_divisor [of 256 "of_char c :: nat"] by simp

lemma to_be_from_be: "to_be (length s) (from_be s) = s"
proof (induction s rule: rev_induct)
  case (snoc c s)
  have "(of_char c :: nat) div 256 = 0" using of_char_bound [of c] by simp
  then show ?case using snoc by (simp add: of_char_bound)
qed simp

lemma from_be_bound: "from_be s < 256 ^ length s"
proof (induction s rule: rev_induct)
  case (snoc c s)
  then have "from_be s * 256 + of_char c < (from_be s + 1) * 256" using of_char_bound [of c] by simp
  also have "\<dots> \<le> 256 ^ length s * 256" using snoc by (intro mult_le_mono) auto
  finally show ?case by simp
qed simp

lemma from_be_u128: "length s = 16 \<Longrightarrow> from_be s < 2 ^ 128"
  using from_be_bound [of s] by simp

section \<open>Access tokens\<close>

lemma padded:
  assumes "token_lib_ok l" "v < 2 ^ 128"
  shows "b62_decode l (base62_encode_padded l v w) = Inr v"
    and "c \<in> set (base62_encode_padded l v w) \<Longrightarrow> (of_char c :: nat) < 128"
  using assms by (auto simp: base62_encode_padded_def Let_def token_lib_ok_def)

lemma padded_length:
  assumes "token_lib_ok l"
  shows "v < 2 ^ 128 \<Longrightarrow> length (base62_encode_padded l v BODY_HALF_LEN) = 22"
    and "v < 2 ^ 32 \<Longrightarrow> length (base62_encode_padded l v CHECKSUM_LEN) = 6"
  using assms by (auto simp: base62_encode_padded_def Let_def token_lib_ok_def BODY_HALF_LEN_def CHECKSUM_LEN_def)

lemma ascii_boundary: "(\<And>c. c \<in> set s \<Longrightarrow> (of_char c :: nat) < 128) \<Longrightarrow> i \<le> length s \<Longrightarrow> is_char_boundary s i"
  unfolding is_char_boundary_def by (metis le_neq_implies_less linorder_not_less nth_mem)

text \<open>
  Every generated access token has the prefix of its type and 54 bytes, passes
  \<open>validate_token_format\<close> without a panic, and is not accepted under the prefix of the other type.
\<close>

theorem access_token_round_trip:
  assumes "token_lib_ok l" and "length bytes = 32"
  shows "let token = fst (generate_access_token l ty bytes)
    in validate_token_format l token = Some True \<and> length token = 54 \<and>
       starts_with (token_prefix ty) token \<and>
       (\<forall>ty'. starts_with (token_prefix ty') token \<longrightarrow> ty' = ty)"
proof -
  let ?hi = "from_be (take 16 bytes)" and ?lo = "from_be (drop 16 bytes)" and ?crc = "crc32 l bytes"
  define H L C where "H = base62_encode_padded l ?hi BODY_HALF_LEN"
    and "L = base62_encode_padded l ?lo BODY_HALF_LEN" and "C = base62_encode_padded l ?crc CHECKSUM_LEN"
  have b: "?hi < 2 ^ 128" "?lo < 2 ^ 128"
    by (rule from_be_u128, use assms(2) in simp)+
  have c: "?crc < 2 ^ 32" using assms(1) by (simp add: token_lib_ok_def)
  then have c': "?crc < 2 ^ 128" by simp
  note len = padded_length(1) [OF assms(1) b(1)] padded_length(1) [OF assms(1) b(2)]
    padded_length(2) [OF assms(1) c]
  have ascii: "\<And>x. x \<in> set (H @ L @ C) \<Longrightarrow> (of_char x :: nat) < 128"
    using padded(2) [OF assms(1) b(1)] padded(2) [OF assms(1) b(2)] padded(2) [OF assms(1) c']
    by (auto simp: H_def L_def C_def)
  have "is_char_boundary (H @ L @ C) 44" "is_char_boundary (H @ L) 22"
    by (rule ascii_boundary; use ascii len in \<open>auto simp: H_def L_def C_def\<close>)+
  then have split: "split_at (H @ L @ C) BODY_LEN = Some (H @ L, C)" "split_at (H @ L) BODY_HALF_LEN = Some (H, L)"
    using len by (simp_all add: split_at_def BODY_LEN_def BODY_HALF_LEN_def H_def L_def C_def)
  have "to_be 16 ?hi @ to_be 16 ?lo = bytes"
    using to_be_from_be [of "take 16 bytes"] to_be_from_be [of "drop 16 bytes"] assms(2) by simp
  moreover have "b62_decode l H = Inr ?hi" "b62_decode l L = Inr ?lo" "b62_decode l C = Inr ?crc"
    unfolding H_def L_def C_def by (rule padded(1) [OF assms(1)]; fact b c')+
  ultimately have "validate_token_format l (token_prefix ty @ H @ L @ C) = Some True"
    using split len by (cases ty)
      (simp_all add: validate_token_format_def strip_prefix_def BODY_LEN_def BODY_HALF_LEN_def
        CHECKSUM_LEN_def H_def L_def C_def)
  moreover have "fst (generate_access_token l ty bytes) = token_prefix ty @ H @ L @ C"
    by (simp add: generate_access_token_def Let_def H_def L_def C_def)
  moreover have "ty' = ty" if "starts_with (token_prefix ty') (token_prefix ty @ H @ L @ C)" for ty'
    using that by (cases ty; cases ty') (simp_all add: starts_with_def)
  ultimately show ?thesis
    using len by (cases ty) (auto simp: H_def L_def C_def starts_with_def)
qed

text \<open>A base62 for the witness.\<close>

definition b62_digits :: string where
  "b62_digits = ''0123456789ABCDEFGHIJKLMNOPQRSTUVWXYZabcdefghijklmnopqrstuvwxyz''"

fun enc62 :: "nat \<Rightarrow> string" where
  "enc62 v = (if v < 62 then [b62_digits ! v] else enc62 (v div 62) @ [b62_digits ! (v mod 62)])"

declare enc62.simps [simp del]

fun index_of :: "char \<Rightarrow> string \<Rightarrow> nat" where
  "index_of c [] = 0"
| "index_of c (d # ds) = (if c = d then 0 else Suc (index_of c ds))"

definition dec62 :: "string \<Rightarrow> nat" where
  "dec62 s = foldl (\<lambda>a c. a * 62 + index_of c b62_digits) 0 s"

definition demo_lib :: token_lib where
  "demo_lib = \<lparr>b62_encode = enc62, b62_decode = (\<lambda>s. Inr (dec62 s)), crc32 = (\<lambda>s. 7),
     b64_encode = (\<lambda>s. concat (map (\<lambda>c. show_nat (of_char c) @ ''_'') s)), b64_decode = (\<lambda>s. Inl ()), hash_string = (\<lambda>s. ''#'' @ s),
     hmac_sha256 = (\<lambda>k m. m), show_uuid = show_nat, state_to_json = (\<lambda>p. []), state_from_json = (\<lambda>s. Inl ()),
     sign_jwt = (\<lambda>k c. Inr ''jwt'')\<rparr>"

lemma index_of_digit: "v < 62 \<Longrightarrow> index_of (b62_digits ! v) b62_digits = v"
proof -
  have "index_of (ds ! v) ds = v" if "distinct ds" "v < length ds" for ds v
    using that by (induction ds arbitrary: v) (auto simp: nth_Cons split: nat.splits)
  moreover have "distinct b62_digits" "length b62_digits = 62" by (simp_all add: b62_digits_def)
  ultimately show "v < 62 \<Longrightarrow> ?thesis" by simp
qed

lemma dec62_enc62: "dec62 (replicate n (CHR ''0'') @ enc62 v) = v"
proof -
  have z: "foldl (\<lambda>a c. a * 62 + index_of c b62_digits) 0 (replicate n (CHR ''0'')) = 0"
    by (induction n) (simp_all add: b62_digits_def)
  have "foldl (\<lambda>a c. a * 62 + index_of c b62_digits) 0 (enc62 v) = v"
  proof (induction v rule: enc62.induct)
    case (1 v)
    then show ?case
      by (cases "v < 62") (simp_all add: enc62.simps [of v] index_of_digit)
  qed
  with z show ?thesis by (simp add: dec62_def)
qed

lemma enc62_length: "v < 62 ^ n \<Longrightarrow> 0 < n \<Longrightarrow> length (enc62 v) \<le> n"
proof (induction n arbitrary: v)
  case (Suc n)
  show ?case
  proof (cases "v < 62")
    case False
    with Suc.prems have "v div 62 < 62 ^ n" "0 < n" by (cases n; simp add: div_less_iff_less_mult mult.commute)+
    with Suc.IH [of "v div 62"] False show ?thesis by (simp add: enc62.simps [of v])
  qed (simp add: enc62.simps [of v])
qed simp

lemma enc62_ascii: "c \<in> set (enc62 v) \<Longrightarrow> (of_char c :: nat) < 128"
proof (induction v rule: enc62.induct)
  case (1 v)
  have "list_all (\<lambda>c. (of_char c :: nat) < 128) b62_digits" "length b62_digits = 62"
    by (simp_all add: b62_digits_def)
  then have "i < 62 \<Longrightarrow> (of_char (b62_digits ! i) :: nat) < 128" for i
    by (simp add: list_all_length)
  with 1 show ?case by (cases "v < 62") (auto simp: enc62.simps [of v])
qed

lemma demo_lib_ok: "token_lib_ok demo_lib"
  unfolding token_lib_ok_def
proof (intro conjI allI impI)
  fix v :: nat
  show "v < 2 ^ 128 \<Longrightarrow> length (b62_encode demo_lib v) \<le> 22"
    using enc62_length [of v 22] by (simp add: demo_lib_def)
  show "v < 2 ^ 32 \<Longrightarrow> length (b62_encode demo_lib v) \<le> 6"
    using enc62_length [of v 6] by (simp add: demo_lib_def)
qed (simp_all add: demo_lib_def dec62_enc62 enc62_ascii)

theorem access_token_round_trip_witness:
  "validate_token_format demo_lib (fst (generate_access_token demo_lib RunnerToken (replicate 32 (CHR ''x'')))) = Some True"
  using access_token_round_trip [OF demo_lib_ok, of "replicate 32 (CHR ''x'')" RunnerToken]
  by (simp add: Let_def)

lemma strip_token_prefix:
  "(case strip_prefix (token_prefix PersonalToken) token of
      Some rest \<Rightarrow> Some rest | None \<Rightarrow> strip_prefix (token_prefix RunnerToken) token) = Some rest
    \<longleftrightarrow> (\<exists>ty. token = token_prefix ty @ rest)"
proof -
  have ex: "(\<exists>ty. P ty) \<longleftrightarrow> P PersonalToken \<or> P RunnerToken" for P by (metis token_type.exhaust)
  show ?thesis
  proof (cases "strip_prefix (token_prefix PersonalToken) token")
    case None
    then have "token \<noteq> token_prefix PersonalToken @ rest"
      by (metis option.discI strip_prefix_append)
    with None show ?thesis unfolding ex strip_prefix_Some [symmetric] by simp
  next
    case (Some r)
    then have "token = token_prefix PersonalToken @ r" by (simp add: strip_prefix_Some)
    then show ?thesis unfolding ex Some by simp
  qed
qed

lemma validate_None_iff:
  "validate_token_format l token = None \<longleftrightarrow>
     (\<exists>rest. (case strip_prefix (token_prefix PersonalToken) token of
        Some rest \<Rightarrow> Some rest | None \<Rightarrow> strip_prefix (token_prefix RunnerToken) token) = Some rest \<and>
      length rest = 50 \<and> (\<not> is_char_boundary rest 44 \<or> \<not> is_char_boundary (take 44 rest) 22))"
  (is "_ \<longleftrightarrow> (\<exists>rest. ?p = Some rest \<and> _ rest)")
proof (cases ?p)
  case (Some rest)
  then show ?thesis
    by (auto simp: validate_token_format_def split_at_def BODY_LEN_def BODY_HALF_LEN_def
        CHECKSUM_LEN_def split: sum.split)
qed (simp add: validate_token_format_def)

text \<open>
  \<open>validate_token_format\<close> panics exactly on a text with a token prefix and 50 further bytes
  in which byte 44 or byte 22 continues a multi-byte character; such texts exist, so the check
  is not total on the text a client sends.
\<close>

theorem validate_token_format_panics:
  "(validate_token_format l token = None \<longleftrightarrow>
     (\<exists>ty rest. token = token_prefix ty @ rest \<and> length rest = 50 \<and>
        \<not> (is_char_boundary rest 44 \<and> is_char_boundary (take 44 rest) 22))) \<and>
   validate_token_format l (''gdp_'' @ replicate 43 (CHR ''a'') @ [CHR 0xC3, CHR 0xA9] @ replicate 5 (CHR ''a'')) = None"
proof -
  have "validate_token_format l token = None \<longleftrightarrow>
     (\<exists>ty rest. token = token_prefix ty @ rest \<and> length rest = 50 \<and>
        \<not> (is_char_boundary rest 44 \<and> is_char_boundary (take 44 rest) 22))"
    unfolding validate_None_iff strip_token_prefix by blast
  moreover have "validate_token_format l (''gdp_'' @ replicate 43 (CHR ''a'') @ [CHR 0xC3, CHR 0xA9] @ replicate 5 (CHR ''a'')) = None"
    by (simp add: validate_token_format_def strip_prefix_def split_at_def is_char_boundary_def
        BODY_LEN_def BODY_HALF_LEN_def CHECKSUM_LEN_def nth_append)
  ultimately show ?thesis by blast
qed

section \<open>Readable codes\<close>

lemma list_all_nth_map:
  "list_all P xs \<Longrightarrow> set idx \<subseteq> {..<length xs} \<Longrightarrow> list_all P (map (\<lambda>i. xs ! i) idx)"
  by (auto simp: list_all_iff)

text \<open>
  Every readable code that the token client draws has six characters and is accepted by
  \<open>UserCode::parse\<close>, which gives it back unchanged: a code that was mailed can be typed in.
\<close>

theorem readable_codes_parse:
  assumes "length idx = 6" and "set idx \<subseteq> {..<length readable_alphabet}"
  shows "user_code_parse (fst (generate_readable_code l idx)) field = Inr (fst (generate_readable_code l idx))"
proof -
  have "list_all (\<lambda>c. (65 \<le> (of_char c :: nat) \<and> (of_char c :: nat) \<le> 90) \<or>
      (50 \<le> (of_char c :: nat) \<and> (of_char c :: nat) \<le> 57)) readable_alphabet"
    by (simp add: readable_alphabet_def)
  then have "list_all (\<lambda>c. (65 \<le> (of_char c :: nat) \<and> (of_char c :: nat) \<le> 90) \<or>
      (50 \<le> (of_char c :: nat) \<and> (of_char c :: nat) \<le> 57)) (map (\<lambda>i. readable_alphabet ! i) idx)"
    by (rule list_all_nth_map) (rule assms(2))
  then show ?thesis
    using assms(1) by (simp add: generate_readable_code_def user_code_parse_def Let_def list_all_iff)
qed

theorem readable_codes_parse_witness:
  "user_code_parse (fst (generate_readable_code demo_lib [0, 31, 8, 24, 1, 2])) ''code'' = Inr ''A9J2BC''"
proof -
  have "set [0, 31, 8, 24, 1, 2] \<subseteq> {..<length readable_alphabet}"
    by (simp add: readable_alphabet_def)
  moreover have "fst (generate_readable_code demo_lib [0, 31, 8, 24, 1, 2]) = ''A9J2BC''"
    by (simp add: generate_readable_code_def readable_alphabet_def Let_def)
  ultimately show ?thesis
    using readable_codes_parse [of "[0, 31, 8, 24, 1, 2]" demo_lib "''code''"] by simp
qed

section \<open>OAuth state\<close>

text \<open>
  C32: A state that the server signed is accepted until ten minutes (to the second) after it was
  signed and reported expired from then on, and every accepted state carries the HMAC of its
  payload under the key of the server and a payload whose expiry has not passed.
\<close>

theorem oauth_state_round_trip:
  assumes "state_lib_ok l"
  shows "verify_oauth_state l key later (generate_oauth_state l key now nonce) =
      (if timestamp now + 600 < timestamp later then Inl ''State expired'' else Inr ()) \<and>
    (verify_oauth_state l key later state = Inr () \<longrightarrow>
      (\<exists>payload sig json nonce' expires. state = payload @ ''.'' @ sig \<and>
         b64_decode l sig = Inr (hmac_sha256 l key payload) \<and> b64_decode l payload = Inr json \<and>
         state_from_json l json = Inr (nonce', expires) \<and> timestamp later \<le> expires))"
proof
  define payload where "payload = b64_encode l (state_to_json l (nonce, timestamp now + 600))"
  have "CHR ''.'' \<notin> set payload" using assms by (simp add: state_lib_ok_def payload_def)
  then have "takeWhile (\<lambda>c. c \<noteq> CHR ''.'') (payload @ ''.'' @ s) = payload"
    "dropWhile (\<lambda>c. c \<noteq> CHR ''.'') (payload @ ''.'' @ s) = ''.'' @ s" for s
    by (auto simp: takeWhile_append dropWhile_append)
  moreover have "generate_oauth_state l key now nonce = payload @ ''.'' @ b64_encode l (hmac_sha256 l key payload)"
    by (simp add: generate_oauth_state_def payload_def OAUTH_STATE_EXPIRY_SECONDS_def Let_def)
  ultimately show "verify_oauth_state l key later (generate_oauth_state l key now nonce) =
      (if timestamp now + 600 < timestamp later then Inl ''State expired'' else Inr ())"
    using assms by (simp add: verify_oauth_state_def state_lib_ok_def payload_def Let_def)
next
  show "verify_oauth_state l key later state = Inr () \<longrightarrow>
      (\<exists>payload sig json nonce' expires. state = payload @ ''.'' @ sig \<and>
         b64_decode l sig = Inr (hmac_sha256 l key payload) \<and> b64_decode l payload = Inr json \<and>
         state_from_json l json = Inr (nonce', expires) \<and> timestamp later \<le> expires)"
  proof
    assume ok: "verify_oauth_state l key later state = Inr ()"
    let ?p = "takeWhile (\<lambda>c. c \<noteq> CHR ''.'') state" and ?d = "dropWhile (\<lambda>c. c \<noteq> CHR ''.'') state"
    have "CHR ''.'' \<in> set state" using ok by (auto simp: verify_oauth_state_def split: if_splits)
    then have "?d \<noteq> []" by (auto simp: dropWhile_eq_Nil_conv)
    then have "?d = ''.'' @ tl ?d" using hd_dropWhile [of "\<lambda>c. c \<noteq> CHR ''.''" state] by (cases ?d) simp_all
    then have "state = ?p @ ''.'' @ tl ?d" by (metis takeWhile_dropWhile_id)
    moreover from ok obtain json nonce' expires where
      "b64_decode l (tl ?d) = Inr (hmac_sha256 l key ?p)" "b64_decode l ?p = Inr json"
      "state_from_json l json = Inr (nonce', expires)" "timestamp later \<le> expires"
      by (auto simp: verify_oauth_state_def Let_def split: if_splits sum.splits)
    ultimately show "\<exists>payload sig json nonce' expires. state = payload @ ''.'' @ sig \<and>
         b64_decode l sig = Inr (hmac_sha256 l key payload) \<and> b64_decode l payload = Inr json \<and>
         state_from_json l json = Inr (nonce', expires) \<and> timestamp later \<le> expires"
      by blast
  qed
qed

fun escape :: "string \<Rightarrow> string" where
  "escape [] = []"
| "escape (c # s) = (if c = CHR ''.'' then ''_a'' else if c = CHR ''_'' then ''_b'' else [c]) @ escape s"

fun unescape :: "string \<Rightarrow> string" where
  "unescape (c # d # s) = (if c = CHR ''_'' then (if d = CHR ''a'' then CHR ''.'' else CHR ''_'') # unescape s
                           else c # unescape (d # s))"
| "unescape s = s"

lemma unescape_escape: "unescape (escape s) = s \<and> CHR ''.'' \<notin> set (escape s)"
proof (induction s)
  case (Cons c s)
  then show ?case by (cases "escape s") auto
qed simp

definition demo_state_lib :: token_lib where
  "demo_state_lib = demo_lib\<lparr>b64_encode := escape, b64_decode := (\<lambda>s. Inr (unescape s)),
     state_to_json := (\<lambda>(nonce, e). (if e < 0 then CHR ''-'' else CHR ''+'') # show_nat (nat \<bar>e\<bar>) @ '','' @ nonce),
     state_from_json := (\<lambda>s. Inr (tl (dropWhile is_digit (tl s)),
       (if hd s = CHR ''-'' then - 1 else 1) * int (read_nat (takeWhile is_digit (tl s)))))\<rparr>"

lemma demo_state_lib_ok: "state_lib_ok demo_state_lib"
proof -
  have "\<not> is_digit CHR '',''" by (simp add: is_digit_def)
  then have "takeWhile is_digit (show_nat n @ '','' @ s) = show_nat n"
    "dropWhile is_digit (show_nat n @ '','' @ s) = '','' @ s" for n s
    using show_nat_digits [of _ n] by (simp_all add: takeWhile_append dropWhile_append)
  then show ?thesis
    by (auto simp: state_lib_ok_def demo_state_lib_def demo_lib_def unescape_escape)
qed

theorem oauth_state_round_trip_witness:
  "verify_oauth_state demo_state_lib ''k'' (seconds 700) (generate_oauth_state demo_state_lib ''k'' (seconds 100) ''n'') = Inr () \<and>
   verify_oauth_state demo_state_lib ''k'' (seconds 701) (generate_oauth_state demo_state_lib ''k'' (seconds 100) ''n'')
     = Inl ''State expired''"
  using oauth_state_round_trip [OF demo_state_lib_ok, of "''k''" "seconds 700" "seconds 100" "''n''" "[]"]
    oauth_state_round_trip [OF demo_state_lib_ok, of "''k''" "seconds 701" "seconds 100" "''n''" "[]"]
  by (simp add: timestamp_def seconds_def)

end
