(* ===== verification/Cache.thy ===== *)
theory Cache
  imports Base
begin

text \<open>
  \<open>client/redis.rs\<close>: the cache commands \<open>GET\<close>, \<open>SET .. EX\<close>, \<open>SET .. NX EX\<close> and \<open>DEL\<close>
  with \<open>with_retry\<close> around each of them. A key holds a text until its time to live has passed.
  The network decides the fate of every attempt: the command may be executed and answered, be
  lost before it is executed, or be executed while its answer is lost.
\<close>

type_synonym cache = "string \<Rightarrow> (string \<times> time) option"

datatype redis_error = RedisConnection | RedisSerialization

datatype fate = Answered | RequestLost | AnswerLost | Failed

definition MAX_RETRIES :: nat where "MAX_RETRIES = 2"

function with_retry_from ::
  "nat \<Rightarrow> (nat \<Rightarrow> fate) \<Rightarrow> ('s \<Rightarrow> 'a \<times> 's) \<Rightarrow> 's \<Rightarrow> (redis_error + 'a) \<times> 's"
where
  "with_retry_from attempts fates op s =
     (case fates attempts of
        Answered \<Rightarrow> (case op s of (v, s') \<Rightarrow> (Inr v, s'))
      | Failed \<Rightarrow> (Inl RedisConnection, s)
      | RequestLost \<Rightarrow>
          if attempts < MAX_RETRIES then with_retry_from (attempts + 1) fates op s else (Inl RedisConnection, s)
      | AnswerLost \<Rightarrow>
          if attempts < MAX_RETRIES then with_retry_from (attempts + 1) fates op (snd (op s))
          else (Inl RedisConnection, snd (op s)))"
  by pat_completeness auto
termination with_retry_from
  by (relation "measure (\<lambda>(attempts, _). MAX_RETRIES - attempts)") auto

declare with_retry_from.simps [simp del]

definition with_retry :: "(nat \<Rightarrow> fate) \<Rightarrow> ('s \<Rightarrow> 'a \<times> 's) \<Rightarrow> 's \<Rightarrow> (redis_error + 'a) \<times> 's" where
  "with_retry fates op s = with_retry_from 0 fates op s"

text \<open>The commands of the server.\<close>

definition live :: "time \<Rightarrow> cache \<Rightarrow> string \<Rightarrow> string option" where
  "live now c k = (case c k of None \<Rightarrow> None | Some (v, e) \<Rightarrow> if now < e then Some v else None)"

definition cmd_set_ex :: "time \<Rightarrow> string \<Rightarrow> string \<Rightarrow> time \<Rightarrow> cache \<Rightarrow> unit \<times> cache" where
  "cmd_set_ex now k v ttl c = ((), c(k \<mapsto> (v, now + ttl)))"

definition cmd_set_nx_ex :: "time \<Rightarrow> string \<Rightarrow> string \<Rightarrow> time \<Rightarrow> cache \<Rightarrow> bool \<times> cache" where
  "cmd_set_nx_ex now k v ttl c = (if live now c k = None then (True, c(k \<mapsto> (v, now + ttl))) else (False, c))"

text \<open>The client.\<close>

definition cache_get ::
  "(string \<Rightarrow> unit + 'v) \<Rightarrow> (nat \<Rightarrow> fate) \<Rightarrow> time \<Rightarrow> string \<Rightarrow> cache \<Rightarrow> redis_error + 'v option"
where
  "cache_get from_json fates now k c =
     (case fst (with_retry fates (\<lambda>s. (live now s k, s)) c) of
        Inl e \<Rightarrow> Inl e
      | Inr None \<Rightarrow> Inr None
      | Inr (Some raw) \<Rightarrow> (case from_json raw of Inl _ \<Rightarrow> Inl RedisSerialization | Inr v \<Rightarrow> Inr (Some v)))"

definition set_with_ttl ::
  "(nat \<Rightarrow> fate) \<Rightarrow> time \<Rightarrow> string \<Rightarrow> string \<Rightarrow> time \<Rightarrow> cache \<Rightarrow> (redis_error + unit) \<times> cache"
where
  "set_with_ttl fates now k raw ttl c = with_retry fates (cmd_set_ex now k raw ttl) c"

definition set_nx_with_ttl ::
  "(nat \<Rightarrow> fate) \<Rightarrow> time \<Rightarrow> string \<Rightarrow> string \<Rightarrow> time \<Rightarrow> cache \<Rightarrow> (redis_error + bool) \<times> cache"
where
  "set_nx_with_ttl fates now k raw ttl c = with_retry fates (cmd_set_nx_ex now k raw ttl) c"

definition cache_delete :: "(nat \<Rightarrow> fate) \<Rightarrow> string \<Rightarrow> cache \<Rightarrow> (redis_error + unit) \<times> cache" where
  "cache_delete fates k c = with_retry fates (\<lambda>s. ((), s(k := None))) c"

section \<open>The retry loop\<close>

lemma with_retry_answered [simp]: "fates 0 = Answered \<Longrightarrow> with_retry fates op s = (Inr (fst (op s)), snd (op s))"
  by (simp add: with_retry_def with_retry_from.simps [of 0] case_prod_beta)

text \<open>
  A command whose effect is the same when it is repeated: after any retries it has run or not,
  but the answer may be that of a repetition.
\<close>

lemma with_retry_from_repeatable:
  "with_retry_from n fates op s = (r, s') \<Longrightarrow> (\<And>s. snd (op (snd (op s))) = snd (op s)) \<Longrightarrow>
    (s' = s \<or> s' = snd (op s)) \<and>
    (\<forall>v. r = Inr v \<longrightarrow> s' = snd (op s) \<and> (v = fst (op s) \<or> v = fst (op (snd (op s)))))"
proof (induction n fates op s arbitrary: r s' rule: with_retry_from.induct)
  case (1 n fates op s)
  note d = "1.prems"(1) [unfolded with_retry_from.simps [of n]] and rep = "1.prems"(2)
  show ?case
  proof (cases "fates n")
    case RequestLost
    with d "1.IH"(1) [OF RequestLost _ _ rep] show ?thesis by (auto split: if_splits)
  next
    case AnswerLost
    show ?thesis
    proof (cases "n < MAX_RETRIES")
      case True
      with d AnswerLost have "with_retry_from (n + 1) fates op (snd (op s)) = (r, s')" by simp
      from "1.IH"(2) [OF AnswerLost True this rep] rep show ?thesis by simp
    qed (use d AnswerLost in auto)
  next
    case Answered
    with d have "r = Inr (fst (op s))" "s' = snd (op s)" by (simp_all add: case_prod_beta)
    then show ?thesis by simp
  next
    case Failed
    with d show ?thesis by auto
  qed
qed

lemma with_retry_from_no_loss:
  "with_retry_from n fates op s = (Inr v, s') \<Longrightarrow> (\<And>i. fates i \<noteq> AnswerLost) \<Longrightarrow> op s = (v, s')"
proof (induction n fates op s rule: with_retry_from.induct)
  case (1 n fates op s)
  note d = "1.prems"(1) [unfolded with_retry_from.simps [of n]]
  show ?case
  proof (cases "fates n")
    case RequestLost
    show ?thesis
    proof (cases "n < MAX_RETRIES")
      case True
      with d RequestLost have "with_retry_from (n + 1) fates op s = (Inr v, s')" by simp
      from "1.IH"(1) [OF RequestLost True this] "1.prems"(2) show ?thesis by blast
    qed (use d RequestLost in simp)
  next
    case Answered
    with d have "fst (op s) = v" "snd (op s) = s'" by (simp_all add: case_prod_beta)
    then show ?thesis by (metis prod.collapse)
  qed (use d "1.prems"(2) in simp_all)
qed

lemma set_nx_repeatable: "0 < ttl \<Longrightarrow>
  snd (cmd_set_nx_ex now k v ttl (snd (cmd_set_nx_ex now k v ttl c))) = snd (cmd_set_nx_ex now k v ttl c)"
  by (auto simp: cmd_set_nx_ex_def live_def)

lemma set_nx_cases:
  assumes "set_nx_with_ttl fates now k raw ttl c = (r, c')" "0 < ttl"
  shows "live now c k \<noteq> None \<Longrightarrow> c' = c \<and> r \<noteq> Inr True"
    and "r = Inr True \<Longrightarrow> live now c k = None \<and> c' = c(k \<mapsto> (raw, now + ttl))"
    and "live now c k = None \<Longrightarrow> r = Inr False \<Longrightarrow> c' = c(k \<mapsto> (raw, now + ttl))"
    and "j \<noteq> k \<Longrightarrow> c' j = c j"
proof -
  note w = with_retry_from_repeatable [OF assms(1) [unfolded set_nx_with_ttl_def with_retry_def]
      set_nx_repeatable [OF assms(2)]]
  show "live now c k \<noteq> None \<Longrightarrow> c' = c \<and> r \<noteq> Inr True"
    and "r = Inr True \<Longrightarrow> live now c k = None \<and> c' = c(k \<mapsto> (raw, now + ttl))"
    and "live now c k = None \<Longrightarrow> r = Inr False \<Longrightarrow> c' = c(k \<mapsto> (raw, now + ttl))"
    and "j \<noteq> k \<Longrightarrow> c' j = c j"
    using w assms(2) by (auto simp: cmd_set_nx_ex_def live_def split: if_splits)
qed

text \<open>
  \<open>set_nx_with_ttl\<close> always returns, after at most three attempts, and without a lost
  answer it says \<open>true\<close> exactly when the key was free, in which case the value is stored. But
  when the answer to the executed command is lost, the retry finds the value that the caller
  itself stored and reports that the key "already existed".
\<close>

theorem set_nx_after_a_lost_answer:
  assumes "0 < ttl"
  shows "(\<forall>r c'. set_nx_with_ttl fates now k raw ttl c = (r, c') \<longrightarrow> r = Inr True \<longrightarrow>
        live now c k = None \<and> live now c' k = Some raw) \<and>
    (\<forall>r c'. set_nx_with_ttl fates now k raw ttl c = (r, c') \<longrightarrow> (\<forall>i. fates i \<noteq> AnswerLost) \<longrightarrow>
        r = Inr False \<longrightarrow> live now c k \<noteq> None \<and> c' = c) \<and>
    (live now c k = None \<longrightarrow> fates 0 = AnswerLost \<longrightarrow> fates 1 = Answered \<longrightarrow>
        set_nx_with_ttl fates now k raw ttl c = (Inr False, c(k \<mapsto> (raw, now + ttl))))"
proof (intro conjI allI impI)
  fix r c' assume s: "set_nx_with_ttl fates now k raw ttl c = (r, c')"
  show "live now c k = None" if "r = Inr True" using set_nx_cases(2) [OF s assms that] by simp
  show "live now c' k = Some raw" if "r = Inr True"
    using set_nx_cases(2) [OF s assms that] assms by (simp add: live_def)
  show "live now c k \<noteq> None" "c' = c" if "\<forall>i. fates i \<noteq> AnswerLost" "r = Inr False"
    using with_retry_from_no_loss [of 0 fates "cmd_set_nx_ex now k raw ttl" c False c'] s that
    by (auto simp: set_nx_with_ttl_def with_retry_def cmd_set_nx_ex_def split: if_splits)
next
  assume "live now c k = None" "fates 0 = AnswerLost" "fates 1 = Answered"
  with assms show "set_nx_with_ttl fates now k raw ttl c = (Inr False, c(k \<mapsto> (raw, now + ttl)))"
    by (simp add: set_nx_with_ttl_def with_retry_def with_retry_from.simps [of 0] with_retry_from.simps [of 1]
        with_retry_from.simps [of "Suc 0"] cmd_set_nx_ex_def live_def MAX_RETRIES_def)
qed

theorem set_nx_after_a_lost_answer_witness:
  "set_nx_with_ttl (\<lambda>i. if i = 0 then AnswerLost else Answered) 5 ''k'' ''v'' 30 (\<lambda>k. None)
     = (Inr False, (\<lambda>k. None)(''k'' \<mapsto> (''v'', 35)))"
  using set_nx_after_a_lost_answer [of 30 "\<lambda>i. if i = 0 then AnswerLost else Answered" 5 "''k''" "''v''" "\<lambda>k. None"]
  by (simp add: live_def)

end
