(* ===== verification/SessionService.thy ===== *)
theory SessionService
  imports AuthCodes TokenProps Cache
begin

text \<open>
  \<open>service/authentication/session.rs\<close>: sign-in by mailed code, sign-in by GitHub, rotation of
  refresh tokens with its grace window, and logout. The state is the \<open>core\<close> and \<open>auth\<close> tables,
  the cache, the mail that was sent and the objects that were uploaded. What the outside decides
  (clock, random bytes, fresh identifiers, fates of cache commands, answers of the mail, image,
  object and GitHub servers) is the record \<open>io\<close>.
\<close>

section \<open>Errors, requests and responses\<close>

datatype email_error = EmailTransport | EmailBuild | EmailAddress
datatype github_error = GitHubOther string | GitHubInvalidSignature | GitHubInvalidState | GitHubUnauthorized
  | GitHubOctocrabError

datatype session_error =
    SessionInput input_error
  | SessionNotFound not_found_error
  | SessionUnauthorized
  | SessionTooManyAttempts
  | SessionTokenExpired string
  | SessionTokenRevoked string
  | SessionEmailError email_error
  | SessionGitHubError github_error
  | SessionTokenError token_error
  | SessionCacheError redis_error
  | SessionDatabaseError database_error

record auth_tokens =
  tr_access_token :: string
  tr_refresh_token :: string
  tr_access_token_expires_in :: int
  tr_refresh_token_expires_in :: int
  tr_is_new :: bool

type_synonym grace_entry = "string \<times> time"

record github_email =
  ge_email :: string
  ge_primary :: bool
  ge_verified :: bool

record auth_world =
  aw_core :: core_db
  aw_auth :: auth_db
  aw_cache :: cache
  aw_mail :: "(string \<times> string) list"
  aw_objects :: "string list"

text \<open>The libraries and the private key that the server holds.\<close>

record auth_env =
  en_lib :: token_lib
  en_key :: string
  en_grace_json :: "grace_entry \<Rightarrow> string"
  en_grace_parse :: "string \<Rightarrow> unit + grace_entry"

text \<open>One call's share of the outside world.\<close>

record io =
  io_now :: time
  io_fates :: "nat \<Rightarrow> nat \<Rightarrow> fate"
  io_bytes :: string
  io_idx :: "nat list"
  io_id :: uuid
  io_family :: uuid
  io_readme :: string
  io_handle :: "nat \<Rightarrow> string"
  io_ids :: "nat \<Rightarrow> uuid \<times> uuid"
  io_email_ids :: "nat \<Rightarrow> uuid"
  io_image_ok :: bool
  io_upload_ok :: bool
  io_mail :: "email_error option"
  io_github_token :: "string \<Rightarrow> github_error + string"
  io_github_emails :: "string \<Rightarrow> github_error + github_email list"

definition GRACE_WINDOW :: time where "GRACE_WINDOW = seconds (10 * 60)"
definition AUTH_CODE_SEND_COOLDOWN :: time where "AUTH_CODE_SEND_COOLDOWN = seconds 30"

definition get_rate_limit_key :: "auth_env \<Rightarrow> string \<Rightarrow> string" where
  "get_rate_limit_key env email = ''auth_code_send:'' @ hash_string (en_lib env) email"

definition get_grace_key :: "string \<Rightarrow> string" where
  "get_grace_key old_hash = ''refresh_grace:'' @ old_hash"

section \<open>Sign-in by mailed code\<close>

text \<open>\<open>None\<close>: the address is a secondary address of somebody, and the call silently stops.\<close>

definition find_or_create_user ::
  "auth_env \<Rightarrow> io \<Rightarrow> string \<Rightarrow> auth_world \<Rightarrow> (session_error + user option) \<times> auth_world"
where
  "find_or_create_user env io email w =
     (case get_by_primary_email email (aw_core w) of
        Some user \<Rightarrow> (Inr (Some user), w)
      | None \<Rightarrow>
          if is_email_taken email (aw_core w) then (Inr None, w)
          else
            (case user_create (io_readme io) (io_handle io) (io_ids io) (io_now io) email False EmailProvider (aw_core w) of
               (Inl e, core) \<Rightarrow> (Inl (SessionDatabaseError e), w\<lparr>aw_core := core\<rparr>)
             | (Inr user, core) \<Rightarrow>
                 let w1 = w\<lparr>aw_core := core\<rparr>
                 in (Inr (Some user),
                     if io_image_ok io \<and> io_upload_ok io
                     then w1\<lparr>aw_objects := aw_objects w1 @ [''users/'' @ show_uuid (en_lib env) (us_id user) @ ''.webp'']\<rparr>
                     else w1)))"

definition send_code :: "auth_env \<Rightarrow> io \<Rightarrow> string \<Rightarrow> user \<Rightarrow> auth_world \<Rightarrow> (session_error + unit) \<times> auth_world" where
  "send_code env io email user w =
     (let (code, code_hash) = generate_readable_code (en_lib env) (io_idx io);
          expires_at = io_now io + seconds get_auth_code_expiry_in_seconds;
          auth1 = invalidate_auth_codes (io_now io) (us_id user) (aw_auth w)
      in (case create_auth_code (aw_core w) (io_id io) (io_now io) (us_id user) code_hash expires_at auth1 of
            (Inl e, auth2) \<Rightarrow> (Inl (SessionDatabaseError e), w\<lparr>aw_auth := auth2\<rparr>)
          | (Inr _, auth2) \<Rightarrow>
              (case io_mail io of
                 Some e \<Rightarrow> (Inl (SessionEmailError e), w\<lparr>aw_auth := auth2\<rparr>)
               | None \<Rightarrow> (Inr (), w\<lparr>aw_auth := auth2, aw_mail := aw_mail w @ [(email, code)]\<rparr>))))"

definition send_auth_email ::
  "auth_env \<Rightarrow> io \<Rightarrow> string \<Rightarrow> auth_world \<Rightarrow> (session_error + unit) \<times> auth_world"
where
  "send_auth_email env io email w =
     (case set_nx_with_ttl (io_fates io 0) (io_now io) (get_rate_limit_key env email) ''true''
             AUTH_CODE_SEND_COOLDOWN (aw_cache w) of
        (Inr False, c) \<Rightarrow> (Inl SessionTooManyAttempts, w\<lparr>aw_cache := c\<rparr>)
      | (_, c) \<Rightarrow>
          then_do (find_or_create_user env io email (w\<lparr>aw_cache := c\<rparr>)) (\<lambda>found w1.
            (case found of
               None \<Rightarrow> (Inr (), w1)
             | Some user \<Rightarrow> send_code env io email user w1)))"

text \<open>A fresh session of a new family with its pair of tokens.\<close>

definition open_session ::
  "auth_env \<Rightarrow> io \<Rightarrow> uuid \<Rightarrow> string option \<Rightarrow> string option \<Rightarrow> auth_world
    \<Rightarrow> (session_error + string) \<times> auth_world"
where
  "open_session env io user_id agent ip w =
     (let (refresh_token, token_hash) = generate_high_entropic_code (en_lib env) (io_bytes io)
      in (case create_session (aw_core w) (io_id io) (io_now io) user_id token_hash (io_family io) agent ip
                (io_now io + seconds REFRESH_TOKEN_EXPIRY_SECONDS) (aw_auth w) of
            (Inl e, auth) \<Rightarrow> (Inl (SessionDatabaseError e), w\<lparr>aw_auth := auth\<rparr>)
          | (Inr _, auth) \<Rightarrow> (Inr refresh_token, w\<lparr>aw_auth := auth\<rparr>)))"

definition sign_session_jwt :: "auth_env \<Rightarrow> io \<Rightarrow> user \<Rightarrow> session_error + string" where
  "sign_session_jwt env io user =
     map_err SessionTokenError (generate_gitdot_jwt (en_lib env) (en_key env) (io_now io) (us_id user) (us_name user))"

definition verify_auth_code ::
  "auth_env \<Rightarrow> io \<Rightarrow> string \<Rightarrow> string \<Rightarrow> string option \<Rightarrow> string option \<Rightarrow> auth_world
    \<Rightarrow> (session_error + auth_tokens) \<times> auth_world"
where
  "verify_auth_code env io email code agent ip w =
     (case get_by_primary_email email (aw_core w) of
        None \<Rightarrow> (Inl SessionUnauthorized, w)
      | Some user \<Rightarrow>
          if us_deleted_at user \<noteq> None then (Inl SessionUnauthorized, w)
          else
            (case verify_and_consume_auth_code (io_now io) (us_id user) (hash_string (en_lib env) code)
                    MAX_AUTH_CODE_ATTEMPTS (aw_auth w) of
               (AuthAttemptsExhausted, auth) \<Rightarrow> (Inl SessionTooManyAttempts, w\<lparr>aw_auth := auth\<rparr>)
             | (AuthInvalid, auth) \<Rightarrow> (Inl SessionUnauthorized, w\<lparr>aw_auth := auth\<rparr>)
             | (AuthNoActiveCode, auth) \<Rightarrow> (Inl SessionUnauthorized, w\<lparr>aw_auth := auth\<rparr>)
             | (AuthSuccess, auth) \<Rightarrow>
                 (case user_verify_email (io_now io) (us_id user) (aw_core w) of
                    (Inl e, core) \<Rightarrow> (Inl (SessionDatabaseError e), w\<lparr>aw_core := core, aw_auth := auth\<rparr>)
                  | (Inr _, core) \<Rightarrow>
                      then_do (open_session env io (us_id user) agent ip (w\<lparr>aw_core := core, aw_auth := auth\<rparr>))
                        (\<lambda>refresh_token w1.
                          (and_then (sign_session_jwt env io user) (\<lambda>access_token. Inr
                             \<lparr>tr_access_token = access_token, tr_refresh_token = refresh_token,
                              tr_access_token_expires_in = ACCESS_TOKEN_EXPIRY_SECONDS,
                              tr_refresh_token_expires_in = REFRESH_TOKEN_EXPIRY_SECONDS,
                              tr_is_new = \<not> (case primary_email user of None \<Rightarrow> False | Some e \<Rightarrow> em_is_verified e)\<rparr>),
                           w1)))))"

section \<open>Rotation of refresh tokens\<close>

text \<open>
  \<open>refresh_session\<close> in the four parts between which another request can run: reading the session
  and its user, replaying an earlier rotation, claiming the rotation, and persisting it.
\<close>

definition refresh_read ::
  "auth_env \<Rightarrow> io \<Rightarrow> string \<Rightarrow> auth_world \<Rightarrow> session_error + session \<times> string"
where
  "refresh_read env io refresh_token w =
     (let token_hash = hash_string (en_lib env) refresh_token
      in and_then (map_err SessionNotFound (opt_or_not_found
            (get_session_by_refresh_hash token_hash (aw_auth w)) ''session'' (IdStr token_hash))) (\<lambda>session.
         if ss_expires_at session < io_now io then Inl (SessionTokenExpired ''session'')
         else and_then (map_err SessionNotFound (opt_or_not_found
            (user_get_by_id (ss_user_id session) (aw_core w)) ''user'' (IdUuid (ss_user_id session)))) (\<lambda>user.
         if us_deleted_at user \<noteq> None then Inl SessionUnauthorized
         else and_then (sign_session_jwt env io user) (\<lambda>access_token. Inr (session, access_token)))))"

definition replayed :: "io \<Rightarrow> string \<Rightarrow> grace_entry \<Rightarrow> auth_tokens" where
  "replayed io access_token grace =
     \<lparr>tr_access_token = access_token, tr_refresh_token = fst grace,
      tr_access_token_expires_in = ACCESS_TOKEN_EXPIRY_SECONDS,
      tr_refresh_token_expires_in = max 0 ((snd grace - io_now io) div seconds 1), tr_is_new = False\<rparr>"

definition reuse_detected :: "io \<Rightarrow> session \<Rightarrow> auth_world \<Rightarrow> (session_error + 'a) \<times> auth_world" where
  "reuse_detected io session w =
     (Inl (SessionTokenRevoked ''session''),
      w\<lparr>aw_auth := revoke_sessions_by_family (io_now io) (ss_refresh_token_family session) (aw_auth w)\<rparr>)"

definition refresh_replay ::
  "auth_env \<Rightarrow> io \<Rightarrow> nat \<Rightarrow> session \<Rightarrow> string \<Rightarrow> auth_world \<Rightarrow> (session_error + auth_tokens) \<times> auth_world"
where
  "refresh_replay env io call session access_token w =
     (case cache_get (en_grace_parse env) (io_fates io call) (io_now io)
             (get_grace_key (ss_refresh_token_hash session)) (aw_cache w) of
        Inl e \<Rightarrow> (Inl (SessionCacheError e), w)
      | Inr (Some grace) \<Rightarrow> (Inr (replayed io access_token grace), w)
      | Inr None \<Rightarrow> reuse_detected io session w)"

definition refresh_claim ::
  "auth_env \<Rightarrow> io \<Rightarrow> session \<Rightarrow> auth_world \<Rightarrow> (session_error + bool) \<times> auth_world"
where
  "refresh_claim env io session w =
     (let entry = (fst (generate_high_entropic_code (en_lib env) (io_bytes io)),
                   io_now io + seconds REFRESH_TOKEN_EXPIRY_SECONDS)
      in (case set_nx_with_ttl (io_fates io 1) (io_now io) (get_grace_key (ss_refresh_token_hash session))
                (en_grace_json env entry) GRACE_WINDOW (aw_cache w) of
            (r, c) \<Rightarrow> (map_err SessionCacheError r, w\<lparr>aw_cache := c\<rparr>)))"

definition refresh_persist ::
  "auth_env \<Rightarrow> io \<Rightarrow> time \<Rightarrow> session \<Rightarrow> string option \<Rightarrow> string option \<Rightarrow> string \<Rightarrow> auth_world
    \<Rightarrow> (session_error + auth_tokens) \<times> auth_world"
where
  "refresh_persist env io refresh_expiry session agent ip access_token w =
     (let (refresh_token, token_hash) = generate_high_entropic_code (en_lib env) (io_bytes io);
          auth1 = revoke_session (io_now io) (ss_id session) (aw_auth w)
      in (case create_session (aw_core w) (io_id io) (io_now io) (ss_user_id session) token_hash
                (ss_refresh_token_family session) agent ip refresh_expiry auth1 of
            (Inl e, auth2) \<Rightarrow> (Inl (SessionDatabaseError e), w\<lparr>aw_auth := auth2\<rparr>)
          | (Inr _, auth2) \<Rightarrow>
              (Inr \<lparr>tr_access_token = access_token, tr_refresh_token = refresh_token,
                    tr_access_token_expires_in = ACCESS_TOKEN_EXPIRY_SECONDS,
                    tr_refresh_token_expires_in = REFRESH_TOKEN_EXPIRY_SECONDS, tr_is_new = False\<rparr>,
               w\<lparr>aw_auth := auth2\<rparr>)))"

definition refresh_session ::
  "auth_env \<Rightarrow> io \<Rightarrow> string \<Rightarrow> string option \<Rightarrow> string option \<Rightarrow> auth_world
    \<Rightarrow> (session_error + auth_tokens) \<times> auth_world"
where
  "refresh_session env io refresh_token agent ip w =
     (case refresh_read env io refresh_token w of
        Inl e \<Rightarrow> (Inl e, w)
      | Inr (session, access_token) \<Rightarrow>
          if ss_revoked_at session \<noteq> None then refresh_replay env io 0 session access_token w
          else then_do (refresh_claim env io session w) (\<lambda>claimed w1.
            if \<not> claimed then refresh_replay env io 2 session access_token w1
            else refresh_persist env io (io_now io + seconds REFRESH_TOKEN_EXPIRY_SECONDS) session agent ip
                   access_token w1))"

section \<open>Logout and sign-in by GitHub\<close>

definition logout :: "auth_env \<Rightarrow> io \<Rightarrow> string \<Rightarrow> auth_world \<Rightarrow> (session_error + unit) \<times> auth_world" where
  "logout env io refresh_token w =
     (let token_hash = hash_string (en_lib env) refresh_token
      in (case get_session_by_refresh_hash token_hash (aw_auth w) of
            None \<Rightarrow> (Inl (SessionNotFound (NotFoundError ''session'' (IdStr token_hash))), w)
          | Some session \<Rightarrow> (Inr (), w\<lparr>aw_auth := revoke_session (io_now io) (ss_id session) (aw_auth w)\<rparr>)))"

definition github_user ::
  "io \<Rightarrow> string \<Rightarrow> auth_world \<Rightarrow> (session_error + user \<times> bool) \<times> auth_world"
where
  "github_user io email w =
     (case get_by_primary_email email (aw_core w) of
        Some user \<Rightarrow>
          if us_deleted_at user \<noteq> None then (Inl SessionUnauthorized, w) else (Inr (user, False), w)
      | None \<Rightarrow>
          if is_email_taken email (aw_core w) then (Inl SessionUnauthorized, w)
          else
            (case user_create (io_readme io) (io_handle io) (io_ids io) (io_now io) email True GitHubProvider (aw_core w) of
               (Inl e, core) \<Rightarrow> (Inl (SessionDatabaseError e), w\<lparr>aw_core := core\<rparr>)
             | (Inr user, core) \<Rightarrow> (Inr (user, True), w\<lparr>aw_core := core\<rparr>)))"

definition exchange_github_code ::
  "auth_env \<Rightarrow> io \<Rightarrow> string \<Rightarrow> string \<Rightarrow> string option \<Rightarrow> string option \<Rightarrow> auth_world
    \<Rightarrow> (session_error + auth_tokens) \<times> auth_world"
where
  "exchange_github_code env io code state agent ip w =
     (case verify_oauth_state (en_lib env) (en_key env) (io_now io) state of
        Inl _ \<Rightarrow> (Inl SessionUnauthorized, w)
      | Inr _ \<Rightarrow>
          (case and_then (io_github_token io code) (io_github_emails io) of
             Inl e \<Rightarrow> (Inl (SessionGitHubError e), w)
           | Inr emails \<Rightarrow>
               (case find (\<lambda>e. ge_primary e \<and> ge_verified e) emails of
                  None \<Rightarrow> (Inl (SessionGitHubError (GitHubOther ''No verified primary email found'')), w)
                | Some primary \<Rightarrow>
                    then_do (github_user io (ge_email primary) w) (\<lambda>(user, is_new) w1.
                      let extras = map ge_email (filter (\<lambda>e. ge_verified e \<and> ge_email e \<noteq> ge_email primary) emails);
                          w2 = (if is_new \<and> extras \<noteq> []
                                then w1\<lparr>aw_core := upsert_verified_emails (io_now io) (us_id user)
                                       (zip (map (io_email_ids io) [0..<length extras]) extras) (aw_core w1)\<rparr>
                                else w1)
                      in (case sign_session_jwt env io user of
                            Inl e \<Rightarrow> (Inl e, w2)
                          | Inr access_token \<Rightarrow>
                              then_do (open_session env io (us_id user) agent ip w2) (\<lambda>refresh_token w3.
                                (Inr \<lparr>tr_access_token = access_token, tr_refresh_token = refresh_token,
                                      tr_access_token_expires_in = ACCESS_TOKEN_EXPIRY_SECONDS,
                                      tr_refresh_token_expires_in = REFRESH_TOKEN_EXPIRY_SECONDS,
                                      tr_is_new = is_new\<rparr>, w3)))))))"

end
