(* ===== verification/SessionRace.thy ===== *)
theory SessionRace
  imports SessionService
begin

text \<open>
  Requests that rotate the same refresh token at the same time. A request is a worker that runs
  the parts of \<open>refresh_session\<close> one after the other; any worker may run between two parts of
  another. All of it happens within one grace window and the cache answers.
\<close>

datatype phase =
    Waiting
  | Claiming session string
  | Replaying session string
  | Persisting session string time
  | Answer "session_error + auth_tokens"

fun worker_step ::
  "auth_env \<Rightarrow> io \<Rightarrow> string \<Rightarrow> string option \<Rightarrow> string option \<Rightarrow> phase \<Rightarrow> auth_world \<Rightarrow> phase \<times> auth_world"
where
  "worker_step env io token agent ip Waiting w =
     (case refresh_read env io token w of
        Inl e \<Rightarrow> (Answer (Inl e), w)
      | Inr (session, jwt) \<Rightarrow>
          (if ss_revoked_at session \<noteq> None then Replaying session jwt else Claiming session jwt, w))"
| "worker_step env io token agent ip (Claiming session jwt) w =
     (case refresh_claim env io session w of
        (Inl e, w1) \<Rightarrow> (Answer (Inl e), w1)
      | (Inr False, w1) \<Rightarrow> (Replaying session jwt, w1)
      | (Inr True, w1) \<Rightarrow> (Persisting session jwt (io_now io + seconds REFRESH_TOKEN_EXPIRY_SECONDS), w1))"
| "worker_step env io token agent ip (Replaying session jwt) w =
     (case refresh_replay env io 2 session jwt w of (r, w1) \<Rightarrow> (Answer r, w1))"
| "worker_step env io token agent ip (Persisting session jwt refresh_expiry) w =
     (case refresh_persist env io refresh_expiry session agent ip jwt w of (r, w1) \<Rightarrow> (Answer r, w1))"
| "worker_step env io token agent ip (Answer r) w = (Answer r, w)"

text \<open>A worker that nobody interrupts computes \<open>refresh_session\<close>.\<close>

definition run_alone ::
  "auth_env \<Rightarrow> io \<Rightarrow> string \<Rightarrow> string option \<Rightarrow> string option \<Rightarrow> auth_world \<Rightarrow> phase \<times> auth_world"
where
  "run_alone env io token agent ip w =
     (let step = (\<lambda>(p, w). worker_step env io token agent ip p w) in step (step (step (Waiting, w))))"

lemma run_alone_refresh:
  assumes "io_fates io 0 = io_fates io 2"
  shows "run_alone env io token agent ip w =
    (case refresh_session env io token agent ip w of (r, w') \<Rightarrow> (Answer r, w'))"
  using assms
  by (auto simp: run_alone_def refresh_session_def refresh_replay_def then_do_def Let_def
      split: sum.splits prod.splits bool.splits if_splits)

text \<open>The race: a world and the phase of every worker.\<close>

inductive race_step ::
  "auth_env \<Rightarrow> (nat \<Rightarrow> io) \<Rightarrow> string \<Rightarrow> time \<Rightarrow> auth_world \<times> (nat \<Rightarrow> phase) \<Rightarrow> auth_world \<times> (nat \<Rightarrow> phase) \<Rightarrow> bool"
  for env io_of token start
where
  step: "start \<le> t \<Longrightarrow> t < start + GRACE_WINDOW \<Longrightarrow>
    worker_step env ((io_of i)\<lparr>io_now := t\<rparr>) token agent ip (ph i) w = (p, w') \<Longrightarrow>
    race_step env io_of token start (w, ph) (w', ph(i := p))"

inductive_cases race_stepE: "race_step env io_of token start (w, ph) s"

definition worker_token :: "auth_env \<Rightarrow> (nat \<Rightarrow> io) \<Rightarrow> nat \<Rightarrow> string" where
  "worker_token env io_of i = fst (generate_high_entropic_code (en_lib env) (io_bytes (io_of i)))"

fun phase_ok :: "string \<Rightarrow> session \<Rightarrow> string option \<Rightarrow> phase \<Rightarrow> bool" where
  "phase_ok h s0 won Waiting = True"
| "phase_ok h s0 won (Claiming s jwt) = (s = s0)"
| "phase_ok h s0 won (Replaying s jwt) = (won \<noteq> None \<and> ss_refresh_token_hash s = h)"
| "phase_ok h s0 won (Persisting s jwt e) = False"
| "phase_ok h s0 won (Answer (Inl e)) = (\<forall>what. e \<noteq> SessionTokenRevoked what)"
| "phase_ok h s0 won (Answer (Inr r)) = (won = Some (tr_refresh_token r))"

text \<open>The sessions before the winner persists its rotation, and after.\<close>

definition rotated :: "session \<Rightarrow> auth_db \<Rightarrow> auth_db \<Rightarrow> bool" where
  "rotated s0 db db' \<longleftrightarrow> (\<exists>now new. length new \<le> 1 \<and>
     db_sessions db' = db_sessions (revoke_session now (ss_id s0) db) @ new)"

definition race_inv ::
  "auth_env \<Rightarrow> (nat \<Rightarrow> io) \<Rightarrow> string \<Rightarrow> time \<Rightarrow> auth_world \<Rightarrow> session \<Rightarrow> auth_world \<times> (nat \<Rightarrow> phase) \<Rightarrow> bool"
where
  "race_inv env io_of h start w0 s0 = (\<lambda>(w, ph). aw_core w = aw_core w0 \<and>
     ((aw_auth w = aw_auth w0 \<and> (\<forall>t \<ge> start. live t (aw_cache w) (get_grace_key h) = None) \<and>
         (\<forall>i. phase_ok h s0 None (ph i)))
      \<or> (\<exists>j expiry e.
          aw_cache w (get_grace_key h) = Some (en_grace_json env (worker_token env io_of j, expiry), e) \<and>
          start + GRACE_WINDOW \<le> e \<and> (\<forall>i. i \<noteq> j \<longrightarrow> phase_ok h s0 (Some (worker_token env io_of j)) (ph i)) \<and>
          ((\<exists>jwt. ph j = Persisting s0 jwt expiry) \<and> aw_auth w = aw_auth w0
           \<or> phase_ok h s0 (Some (worker_token env io_of j)) (ph j) \<and> rotated s0 (aw_auth w0) (aw_auth w)))))"

section \<open>The parts of a rotation\<close>

lemma refresh_read_Inr:
  "refresh_read env io token w = Inr (s, jwt) \<Longrightarrow>
   get_session_by_refresh_hash (hash_string (en_lib env) token) (aw_auth w) = Some s"
  by (auto simp: refresh_read_def Let_def split: if_splits)

lemma refresh_read_Inl:
  "refresh_read env io token w = Inl e \<Longrightarrow> e \<noteq> SessionTokenRevoked what"
  by (auto simp: refresh_read_def Let_def and_then_def map_err_def sign_session_jwt_def
      split: if_splits sum.splits option.splits)

lemma refresh_claim_answered:
  assumes "io_fates io 1 0 = Answered"
  shows "refresh_claim env io s w =
    (if live (io_now io) (aw_cache w) (get_grace_key (ss_refresh_token_hash s)) = None
     then (Inr True, w\<lparr>aw_cache := (aw_cache w)(get_grace_key (ss_refresh_token_hash s) \<mapsto>
            (en_grace_json env (fst (generate_high_entropic_code (en_lib env) (io_bytes io)),
               io_now io + seconds REFRESH_TOKEN_EXPIRY_SECONDS), io_now io + GRACE_WINDOW))\<rparr>)
     else (Inr False, w))"
  using assms by (auto simp: refresh_claim_def set_nx_with_ttl_def cmd_set_nx_ex_def)

lemma refresh_replay_answered:
  assumes "io_fates io call 0 = Answered"
    and "live (io_now io) (aw_cache w) (get_grace_key (ss_refresh_token_hash s)) = Some (en_grace_json env g)"
    and "en_grace_parse env (en_grace_json env g) = Inr g"
  shows "refresh_replay env io call s jwt w = (Inr (replayed io jwt g), w)"
  using assms by (simp add: refresh_replay_def cache_get_def)

lemma refresh_persist_sessions:
  "refresh_persist env io expiry s agent ip jwt w = (r, w') \<Longrightarrow>
   aw_core w' = aw_core w \<and> aw_cache w' = aw_cache w \<and> rotated s (aw_auth w) (aw_auth w') \<and>
   (\<forall>x. r = Inr x \<longrightarrow> tr_refresh_token x = fst (generate_high_entropic_code (en_lib env) (io_bytes io))) \<and>
   (\<forall>what. r \<noteq> Inl (SessionTokenRevoked what))"
proof -
  have "\<exists>new. length new \<le> 1 \<and> db_sessions (snd (create_session core i now u h f a p e db)) = db_sessions db @ new"
    for core i now u h f a p e db
    by (auto simp: create_session_def Let_def checked_def)
  then show "refresh_persist env io expiry s agent ip jwt w = (r, w') \<Longrightarrow> ?thesis"
    unfolding rotated_def
    by (auto simp: refresh_persist_def Let_def case_prod_beta split: sum.splits prod.splits) (metis snd_conv)+
qed

lemma rotated_lookup:
  assumes "rotated s0 db db'" "get_session_by_refresh_hash h db = Some s0"
  shows "\<exists>s. get_session_by_refresh_hash h db' = Some s \<and> ss_refresh_token_hash s = h \<and> ss_revoked_at s \<noteq> None"
proof -
  obtain now new where "db_sessions db' = db_sessions (revoke_session now (ss_id s0) db) @ new"
    using assms(1) by (auto simp: rotated_def)
  moreover have "find (\<lambda>s. ss_refresh_token_hash s = h)
      (update_where (\<lambda>s. ss_id s = ss_id s0) (\<lambda>s. s\<lparr>ss_revoked_at := Some now\<rparr>) (db_sessions db))
    = Some (s0\<lparr>ss_revoked_at := Some now\<rparr>)"
    using assms(2) by (subst find_update_where_same) (simp_all add: get_session_by_refresh_hash_def)
  moreover have "ss_refresh_token_hash s0 = h"
    using assms(2) by (auto simp: get_session_by_refresh_hash_def dest: find_SomeD)
  ultimately show ?thesis by (simp add: get_session_by_refresh_hash_def revoke_session_def find_append)
qed

section \<open>One winner\<close>

lemma phase_ok_None: "phase_ok h s0 None p \<Longrightarrow> phase_ok h s0 (Some x) p"
  by (induction h s0 "None :: string option" p rule: phase_ok.induct) auto

lemma phase_ok_AnswerI:
  "(\<And>e what. r = Inl e \<Longrightarrow> e \<noteq> SessionTokenRevoked what) \<Longrightarrow>
   (\<And>x. r = Inr x \<Longrightarrow> won = Some (tr_refresh_token x)) \<Longrightarrow> phase_ok h s0 won (Answer r)"
  by (cases r) auto

lemma early_step:
  assumes "worker_step env io token agent ip p w = (p', w')"
    and "phase_ok h s0 None p" and "h = hash_string (en_lib env) token"
    and "get_session_by_refresh_hash h (aw_auth w) = Some s0" "ss_revoked_at s0 = None"
    and "live (io_now io) (aw_cache w) (get_grace_key h) = None" "io_fates io 1 0 = Answered"
  shows "(w' = w \<and> phase_ok h s0 None p') \<or>
    (\<exists>jwt expiry. p' = Persisting s0 jwt expiry \<and>
       w' = w\<lparr>aw_cache := (aw_cache w)(get_grace_key h \<mapsto>
          (en_grace_json env (fst (generate_high_entropic_code (en_lib env) (io_bytes io)), expiry),
           io_now io + GRACE_WINDOW))\<rparr>)"
proof -
  have h: "ss_refresh_token_hash s0 = h"
    using assms(4) by (auto simp: get_session_by_refresh_hash_def dest: find_SomeD)
  show ?thesis
  proof (cases p)
    case Waiting
    show ?thesis
    proof (cases "refresh_read env io token w")
      case (Inl e)
      with assms(1) Waiting refresh_read_Inl [OF Inl] show ?thesis by auto
    next
      case (Inr sj)
      then have "refresh_read env io token w = Inr (fst sj, snd sj)" by simp
      from refresh_read_Inr [OF this] assms have "fst sj = s0" by simp
      with assms(1,5) Waiting Inr show ?thesis by (auto split: prod.splits)
    qed
  next
    case (Claiming s jwt)
    with assms h show ?thesis by (auto simp: refresh_claim_answered)
  next
    case (Answer r)
    with assms show ?thesis by auto
  qed (use assms in auto)
qed

lemma late_step:
  assumes "worker_step env io token agent ip p w = (p', w')"
    and "phase_ok h s0 (Some x) p" and "h = hash_string (en_lib env) token"
    and "get_session_by_refresh_hash h (aw_auth w) = Some s" "ss_revoked_at s = None \<Longrightarrow> s = s0"
    and "ss_refresh_token_hash s0 = h"
    and "live (io_now io) (aw_cache w) (get_grace_key h) = Some (en_grace_json env (x, expiry))"
    and "\<And>c. io_fates io c 0 = Answered" "\<And>g. en_grace_parse env (en_grace_json env g) = Inr g"
  shows "w' = w \<and> phase_ok h s0 (Some x) p'"
proof (cases p)
  case Waiting
  show ?thesis
  proof (cases "refresh_read env io token w")
    case (Inl e)
    with assms(1) Waiting refresh_read_Inl [OF Inl] show ?thesis by auto
  next
    case (Inr sj)
    then have "refresh_read env io token w = Inr (fst sj, snd sj)" by simp
    from refresh_read_Inr [OF this] assms have "fst sj = s" by simp
    moreover have "ss_refresh_token_hash s = h"
      using assms(4) by (auto simp: get_session_by_refresh_hash_def dest: find_SomeD)
    ultimately show ?thesis using assms(1,5) Waiting Inr by (auto split: prod.splits if_splits)
  qed
next
  case (Claiming s jwt)
  with assms show ?thesis by (auto simp: refresh_claim_answered)
next
  case (Replaying s jwt)
  with assms refresh_replay_answered [of io 2 w s env "(x, expiry)" jwt] show ?thesis
    by (auto simp: replayed_def)
next
  case (Persisting s jwt e)
  with assms(2) show ?thesis by simp
next
  case (Answer r)
  with assms show ?thesis by auto
qed

lemma race_inv_wonI:
  assumes "aw_core w = aw_core w0"
    and "aw_cache w (get_grace_key h) = Some (en_grace_json env (worker_token env io_of j, expiry), e)"
    and "start + GRACE_WINDOW \<le> e"
    and "\<And>i. i \<noteq> j \<Longrightarrow> phase_ok h s0 (Some (worker_token env io_of j)) (ph i)"
    and "(\<exists>jwt. ph j = Persisting s0 jwt expiry) \<and> aw_auth w = aw_auth w0
       \<or> phase_ok h s0 (Some (worker_token env io_of j)) (ph j) \<and> rotated s0 (aw_auth w0) (aw_auth w)"
  shows "race_inv env io_of h start w0 s0 (w, ph)"
  unfolding race_inv_def prod.case
  by (rule conjI [OF assms(1)], rule disjI2, rule exI [of _ j], rule exI [of _ expiry], rule exI [of _ e])
    (use assms in simp)

lemma race_inv_step:
  assumes inv: "race_inv env io_of h start w0 s0 (w, ph)"
    and step: "race_step env io_of token start (w, ph) s'"
    and h: "h = hash_string (en_lib env) token"
    and s0: "get_session_by_refresh_hash h (aw_auth w0) = Some s0" "ss_revoked_at s0 = None"
    and net: "\<And>i c. io_fates (io_of i) c 0 = Answered" "\<And>g. en_grace_parse env (en_grace_json env g) = Inr g"
  shows "race_inv env io_of h start w0 s0 s'"
proof -
  obtain i t agent ip p w' where t: "start \<le> t" "t < start + GRACE_WINDOW"
    and ws: "worker_step env ((io_of i)\<lparr>io_now := t\<rparr>) token agent ip (ph i) w = (p, w')"
    and s': "s' = (w', ph(i := p))"
    using step by (elim race_stepE) auto
  let ?io = "(io_of i)\<lparr>io_now := t\<rparr>"
  have f: "\<And>c. io_fates ?io c 0 = Answered" using net(1) by simp
  have hs: "ss_refresh_token_hash s0 = h"
    using s0(1) by (auto simp: get_session_by_refresh_hash_def dest: find_SomeD)
  have tok: "fst (generate_high_entropic_code (en_lib env) (io_bytes ?io)) = worker_token env io_of i"
    by (simp add: worker_token_def)
  have core: "aw_core w = aw_core w0" using inv by (simp add: race_inv_def)
  consider (free) "aw_auth w = aw_auth w0" "\<forall>t \<ge> start. live t (aw_cache w) (get_grace_key h) = None"
      "\<forall>i. phase_ok h s0 None (ph i)"
    | (won) j expiry e where
        "aw_cache w (get_grace_key h) = Some (en_grace_json env (worker_token env io_of j, expiry), e)"
        "start + GRACE_WINDOW \<le> e" "\<forall>i. i \<noteq> j \<longrightarrow> phase_ok h s0 (Some (worker_token env io_of j)) (ph i)"
        "(\<exists>jwt. ph j = Persisting s0 jwt expiry) \<and> aw_auth w = aw_auth w0
           \<or> phase_ok h s0 (Some (worker_token env io_of j)) (ph j) \<and> rotated s0 (aw_auth w0) (aw_auth w)"
    using inv unfolding race_inv_def by auto
  then show ?thesis
  proof cases
    case free
    have "get_session_by_refresh_hash h (aw_auth w) = Some s0" using free s0 by simp
    from early_step [OF ws _ h this s0(2)] free t f
    consider "w' = w" "phase_ok h s0 None p" | jwt expiry where "p = Persisting s0 jwt expiry"
       "w' = w\<lparr>aw_cache := (aw_cache w)(get_grace_key h \<mapsto>
          (en_grace_json env (worker_token env io_of i, expiry), t + GRACE_WINDOW))\<rparr>"
      by (auto simp: tok [symmetric])
    then show ?thesis
    proof cases
      case 1
      with free core show ?thesis by (simp add: race_inv_def s')
    next
      case 2
      with free t core show ?thesis
        unfolding s' by (intro race_inv_wonI [of _ _ _ _ _ i expiry "t + GRACE_WINDOW"]) (simp_all add: phase_ok_None)
    qed
  next
    case (won j expiry e)
    have live: "live (io_now ?io) (aw_cache w) (get_grace_key h) =
        Some (en_grace_json env (worker_token env io_of j, expiry))"
      using won(1,2) t(2) by (simp add: live_def)
    have "\<exists>s. get_session_by_refresh_hash h (aw_auth w) = Some s \<and> (ss_revoked_at s = None \<longrightarrow> s = s0)"
      using won(4) s0 rotated_lookup [OF _ s0(1), of "aw_auth w"] by (elim disjE conjE) auto
    then obtain s where s: "get_session_by_refresh_hash h (aw_auth w) = Some s"
      and same: "ss_revoked_at s = None \<longrightarrow> s = s0" by (elim exE conjE) (rule that)
    show ?thesis
    proof (cases "\<exists>jwt. ph i = Persisting s0 jwt expiry")
      case False
      then have "phase_ok h s0 (Some (worker_token env io_of j)) (ph i)"
        using won(3,4) by (cases "i = j") blast+
      from late_step [OF ws this h s same [THEN mp] hs live f net(2)] have "w' = w"
        "phase_ok h s0 (Some (worker_token env io_of j)) p" by auto
      moreover have "(\<exists>jwt. (ph(i := p)) j = Persisting s0 jwt expiry) \<and> aw_auth w = aw_auth w0
           \<or> phase_ok h s0 (Some (worker_token env io_of j)) ((ph(i := p)) j) \<and> rotated s0 (aw_auth w0) (aw_auth w)"
        using won(4) False \<open>phase_ok h s0 (Some (worker_token env io_of j)) p\<close> by (cases "i = j") auto
      ultimately show ?thesis
        unfolding s' by (intro race_inv_wonI [of _ _ _ _ _ j expiry e]) (use won(1,2,3) core in simp_all)
    next
      case True
      then obtain jwt where p: "ph i = Persisting s0 jwt expiry" by blast
      with won(3) have ij: "i = j" by (cases "i = j") auto
      with won(4) p have auth: "aw_auth w = aw_auth w0" by auto
      from ws p obtain r where r: "refresh_persist env ?io expiry s0 agent ip jwt w = (r, w')" "p = Answer r"
        by (auto split: prod.splits)
      from refresh_persist_sessions [OF r(1)] have
        "phase_ok h s0 (Some (worker_token env io_of j)) p" "rotated s0 (aw_auth w0) (aw_auth w')"
        "aw_core w' = aw_core w" "aw_cache w' = aw_cache w"
        using r(2) ij auth tok by (auto intro: phase_ok_AnswerI)
      then show ?thesis
        unfolding s' by (intro race_inv_wonI [of _ _ _ _ _ j expiry e]) (use won(1,2,3) core ij in simp_all)
    qed
  qed
qed

text \<open>A schedule: which worker moves, and when.\<close>

fun race_run ::
  "auth_env \<Rightarrow> (nat \<Rightarrow> io) \<Rightarrow> string \<Rightarrow> (nat \<times> time) list \<Rightarrow> auth_world \<times> (nat \<Rightarrow> phase) \<Rightarrow> auth_world \<times> (nat \<Rightarrow> phase)"
where
  "race_run env io_of token [] s = s"
| "race_run env io_of token ((i, t) # sched) (w, ph) =
     (let (p, w') = worker_step env ((io_of i)\<lparr>io_now := t\<rparr>) token None None (ph i) w
      in race_run env io_of token sched (w', ph(i := p)))"

lemma race_run_reachable:
  "list_all (\<lambda>(i, t). start \<le> t \<and> t < start + GRACE_WINDOW) sched \<Longrightarrow>
   (race_step env io_of token start)\<^sup>*\<^sup>* s (race_run env io_of token sched s)"
proof (induction env io_of token sched s rule: race_run.induct)
  case (2 env io_of token i t sched w ph)
  obtain p w' where ws: "worker_step env ((io_of i)\<lparr>io_now := t\<rparr>) token None None (ph i) w = (p, w')"
    by (cases "worker_step env ((io_of i)\<lparr>io_now := t\<rparr>) token None None (ph i) w")
  from 2(2) have "race_step env io_of token start (w, ph) (w', ph(i := p))"
    using race_step.step [of start t env io_of i token None None ph w p w'] ws by auto
  with 2(1) [OF ws [symmetric] refl] 2(2) ws show ?case
    by (auto intro: converse_rtranclp_into_rtranclp)
qed simp

lemma race_inv_reachable:
  assumes "(race_step env io_of token start)\<^sup>*\<^sup>* (w0, ph0) s" "race_inv env io_of h start w0 s0 (w0, ph0)"
    and "h = hash_string (en_lib env) token"
    and "get_session_by_refresh_hash h (aw_auth w0) = Some s0" "ss_revoked_at s0 = None"
    and "\<And>i c. io_fates (io_of i) c 0 = Answered" "\<And>g. en_grace_parse env (en_grace_json env g) = Inr g"
  shows "race_inv env io_of h start w0 s0 s"
  using assms(1)
proof (induction rule: rtranclp_induct)
  case (step y z)
  obtain w ph where y: "y = (w, ph)" by (cases y)
  from race_inv_step [OF step(3) [unfolded y] step(2) [unfolded y] assms(3-7)] show ?case .
qed (rule assms(2))

text \<open>
  C7: Any number of requests that rotate one refresh token within one grace window, interleaved
  in any way between their reads and writes, have at most one winner: every request that
  succeeds returns the same new refresh token, at most one session row is added, the old session
  is the only one that is revoked, and no request is mistaken for a reuse of the token. A worker
  that is not interrupted computes \<open>refresh_session\<close> (\<open>run_alone_refresh\<close>).
\<close>

theorem concurrent_refresh_has_one_winner:
  assumes "(race_step env io_of token start)\<^sup>*\<^sup>* (w0, \<lambda>i. Waiting) (w, ph)"
    and "get_session_by_refresh_hash (hash_string (en_lib env) token) (aw_auth w0) = Some s0"
    and "ss_revoked_at s0 = None"
    and "\<forall>t \<ge> start. live t (aw_cache w0) (get_grace_key (hash_string (en_lib env) token)) = None"
    and "\<forall>i c. io_fates (io_of i) c 0 = Answered"
    and "\<forall>g. en_grace_parse env (en_grace_json env g) = Inr g"
  shows "(\<exists>winner. \<forall>i x. ph i = Answer (Inr x) \<longrightarrow> tr_refresh_token x = winner) \<and>
    (\<forall>i what. ph i \<noteq> Answer (Inl (SessionTokenRevoked what))) \<and>
    (aw_auth w = aw_auth w0 \<or> rotated s0 (aw_auth w0) (aw_auth w)) \<and> aw_core w = aw_core w0"
proof -
  let ?h = "hash_string (en_lib env) token"
  have "race_inv env io_of ?h start w0 s0 (w0, \<lambda>i. Waiting)"
    using assms(4) by (simp add: race_inv_def)
  from race_inv_reachable [OF assms(1) this refl assms(2,3)] assms(5,6)
  have inv: "race_inv env io_of ?h start w0 s0 (w, ph)" by blast
  then have core: "aw_core w = aw_core w0" by (simp add: race_inv_def)
  have ok: "(\<forall>x. p = Answer (Inr x) \<longrightarrow> won = Some (tr_refresh_token x)) \<and>
      (\<forall>what. p \<noteq> Answer (Inl (SessionTokenRevoked what)))" if "phase_ok ?h s0 won p" for p won
    using that by (induction ?h s0 won p rule: phase_ok.induct) auto
  consider (free) "aw_auth w = aw_auth w0" "\<forall>i. phase_ok ?h s0 None (ph i)"
    | (won) j expiry where "\<forall>i. i \<noteq> j \<longrightarrow> phase_ok ?h s0 (Some (worker_token env io_of j)) (ph i)"
        "(\<exists>jwt. ph j = Persisting s0 jwt expiry) \<and> aw_auth w = aw_auth w0
           \<or> phase_ok ?h s0 (Some (worker_token env io_of j)) (ph j) \<and> rotated s0 (aw_auth w0) (aw_auth w)"
    using inv unfolding race_inv_def by auto
  then show ?thesis
  proof cases
    case free
    have "\<forall>i x. ph i \<noteq> Answer (Inr x)" "\<forall>i what. ph i \<noteq> Answer (Inl (SessionTokenRevoked what))"
      using ok [OF spec [OF free(2)]] by fastforce+
    with free(1) core show ?thesis by simp
  next
    case (won j expiry)
    have "(\<forall>x. ph i = Answer (Inr x) \<longrightarrow> tr_refresh_token x = worker_token env io_of j) \<and>
        (\<forall>what. ph i \<noteq> Answer (Inl (SessionTokenRevoked what)))" for i
    proof (cases "\<exists>jwt. ph i = Persisting s0 jwt expiry")
      case False
      with won have "phase_ok ?h s0 (Some (worker_token env io_of j)) (ph i)" by (cases "i = j") blast+
      from ok [OF this] show ?thesis by simp
    qed auto
    with won(2) core show ?thesis by blast
  qed
qed

text \<open>Two requests, alternating.\<close>

definition demo_env :: auth_env where
  "demo_env = \<lparr>en_lib = demo_lib, en_key = ''k'', en_grace_json = state_to_json demo_state_lib,
     en_grace_parse = state_from_json demo_state_lib\<rparr>"

definition demo_io :: "nat \<Rightarrow> io" where
  "demo_io i = \<lparr>io_now = 0, io_fates = (\<lambda>c a. Answered), io_bytes = replicate (i + 1) (CHR ''b''), io_idx = [],
     io_id = 100 + i, io_family = 0, io_readme = [], io_handle = (\<lambda>k. []), io_ids = (\<lambda>k. (0, 0)),
     io_email_ids = (\<lambda>k. 0), io_image_ok = True, io_upload_ok = True, io_mail = None,
     io_github_token = (\<lambda>c. Inr c), io_github_emails = (\<lambda>c. Inr [])\<rparr>"

definition demo_session :: session where
  "demo_session = \<lparr>ss_id = 1, ss_user_id = 9, ss_refresh_token_hash = ''#old'', ss_refresh_token_family = 5,
     ss_user_agent = None, ss_ip_address = None, ss_created_at = 0, ss_expires_at = 1000, ss_revoked_at = None\<rparr>"

definition demo_world :: auth_world where
  "demo_world = \<lparr>aw_core = demo_store, aw_auth = empty_auth\<lparr>db_sessions := [demo_session]\<rparr>,
     aw_cache = (\<lambda>k. None), aw_mail = [], aw_objects = []\<rparr>"

definition demo_race :: "auth_world \<times> (nat \<Rightarrow> phase)" where
  "demo_race = race_run demo_env demo_io ''old'' [(0, 10), (1, 11), (1, 12), (0, 13), (0, 14), (1, 15)]
     (demo_world, \<lambda>i. Waiting)"

lemma demo_grace [simp]: "en_grace_parse demo_env (en_grace_json demo_env g) = Inr g"
  using demo_state_lib_ok by (cases g) (simp add: state_lib_ok_def demo_env_def)

theorem concurrent_refresh_has_one_winner_witness:
  "\<exists>winner. \<forall>i x. snd demo_race i = Answer (Inr x) \<longrightarrow> tr_refresh_token x = winner"
proof -
  have "(race_step demo_env demo_io ''old'' 0)\<^sup>*\<^sup>* (demo_world, \<lambda>i. Waiting) (fst demo_race, snd demo_race)"
    unfolding demo_race_def prod.collapse by (rule race_run_reachable) (simp add: GRACE_WINDOW_def seconds_def)
  moreover have "get_session_by_refresh_hash (hash_string (en_lib demo_env) ''old'') (aw_auth demo_world) = Some demo_session"
    by (simp add: get_session_by_refresh_hash_def demo_env_def demo_lib_def demo_world_def demo_session_def empty_auth_def)
  ultimately show ?thesis
    using concurrent_refresh_has_one_winner [of demo_env demo_io "''old''" 0 demo_world "fst demo_race" "snd demo_race" demo_session]
    by (auto simp: demo_session_def demo_world_def live_def demo_io_def)
qed

text \<open>Worker 1 won and both were answered with its token.\<close>

lemma demo_env_fields [simp]: "en_lib demo_env = demo_lib" "en_key demo_env = ''k''"
  by (simp_all add: demo_env_def)

lemma demo_lib_fields [simp]:
  "hash_string demo_lib s = ''#'' @ s" "show_uuid demo_lib = show_nat" "sign_jwt demo_lib k c = Inr ''jwt''"
  "b64_encode demo_lib s = concat (map (\<lambda>c. show_nat (of_char c) @ ''_'') s)"
  by (simp_all add: demo_lib_def)

lemma demo_user_found: "\<exists>u. user_get_by_id 9 demo_store = Some u \<and> us_deleted_at u = None"
  by (simp add: user_get_by_id_def demo_store_def demo_user_def user_view_def user_row.defs user.defs)

lemma demo_race_answers:
  "case (snd demo_race 0, snd demo_race 1) of
     (Answer (Inr x), Answer (Inr y)) \<Rightarrow> tr_refresh_token x = ''98_98_'' \<and> tr_refresh_token y = ''98_98_''
   | _ \<Rightarrow> False"
proof -
  obtain u where u: "user_get_by_id 9 demo_store = Some u" "us_deleted_at u = None"
    using demo_user_found by blast
  have "user_exists demo_store 9" by (simp add: user_exists_def demo_store_def demo_user_def)
  moreover have "show_nat 98 = ''98''" by code_simp
  ultimately show ?thesis using u
    by (simp add: demo_race_def refresh_read_def refresh_claim_def refresh_persist_def refresh_replay_def
      set_nx_with_ttl_def cmd_set_nx_ex_def demo_world_def demo_session_def demo_io_def Let_def empty_auth_def
      get_session_by_refresh_hash_def sign_session_jwt_def generate_gitdot_jwt_def generate_jwt_def
      generate_high_entropic_code_def live_def get_grace_key_def GRACE_WINDOW_def seconds_def cache_get_def
      create_session_def revoke_session_def checked_def sessions_ok_def replayed_def)
qed

end
