(* ===== verification/SessionProps.thy ===== *)
theory SessionProps
  imports SessionRace
begin

text \<open>
  What rotation, sign-in and logout guarantee one call at a time, and where they do not: an
  answer lost on the way to the cache, a revocation that runs between the claim and the write of
  a rotation, and a replay after the family was revoked.
\<close>

section \<open>Families\<close>

definition family_revoked :: "uuid \<Rightarrow> auth_db \<Rightarrow> bool" where
  "family_revoked f db \<longleftrightarrow> (\<forall>s \<in> set (db_sessions db). ss_refresh_token_family s = f \<longrightarrow> ss_revoked_at s \<noteq> None)"

lemma revoke_by_family_revokes: "family_revoked f (revoke_sessions_by_family now f db)"
  by (simp add: family_revoked_def revoke_sessions_by_family_def table_simps)

lemma revoke_session_keeps: "family_revoked f db \<Longrightarrow> family_revoked f (revoke_session now i db)"
  by (simp add: family_revoked_def revoke_session_def table_simps)

lemma revoke_family_keeps: "family_revoked f db \<Longrightarrow> family_revoked f (revoke_sessions_by_family now g db)"
  by (simp add: family_revoked_def revoke_sessions_by_family_def table_simps)

lemma revoke_user_keeps: "family_revoked f db \<Longrightarrow> family_revoked f (revoke_sessions_by_user now u db)"
  by (simp add: family_revoked_def revoke_sessions_by_user_def table_simps)

lemma create_session_keeps:
  "family_revoked f db \<Longrightarrow> g \<noteq> f \<Longrightarrow>
   family_revoked f (snd (create_session core i now u h g a p e db))"
  by (auto simp: family_revoked_def create_session_def Let_def checked_def)

text \<open>The calls on sessions; a new family gets a fresh identifier.\<close>

inductive session_step :: "auth_env \<Rightarrow> uuid \<Rightarrow> auth_world \<Rightarrow> auth_world \<Rightarrow> bool" for env f where
  refresh: "session_step env f w (snd (refresh_session env io token agent ip w))"
| logout: "session_step env f w (snd (logout env io token w))"
| login: "io_family io \<noteq> f \<Longrightarrow> session_step env f w (snd (verify_auth_code env io email code agent ip w))"
| github: "io_family io \<noteq> f \<Longrightarrow> session_step env f w (snd (exchange_github_code env io code state agent ip w))"
| send: "session_step env f w (snd (send_auth_email env io email w))"

lemma open_session_family:
  "family_revoked f (aw_auth w) \<Longrightarrow> io_family io \<noteq> f \<Longrightarrow>
   family_revoked f (aw_auth (snd (open_session env io u agent ip w)))"
  using create_session_keeps [of f "aw_auth w" "io_family io"]
  by (auto simp: open_session_def case_prod_beta Let_def split: sum.splits prod.splits)

lemma refresh_claim_auth: "aw_auth (snd (refresh_claim env io s w)) = aw_auth w \<and> aw_core (snd (refresh_claim env io s w)) = aw_core w"
  by (simp add: refresh_claim_def Let_def case_prod_beta)

lemma refresh_replay_family:
  "family_revoked f (aw_auth w) \<Longrightarrow> family_revoked f (aw_auth (snd (refresh_replay env io call s jwt w)))"
  by (simp add: refresh_replay_def reuse_detected_def revoke_family_keeps split: sum.split option.split)

lemma refresh_persist_family:
  assumes "family_revoked f (aw_auth w)" "ss_refresh_token_family s \<noteq> f"
  shows "family_revoked f (aw_auth (snd (refresh_persist env io expiry s agent ip jwt w)))"
  using create_session_keeps [OF revoke_session_keeps [OF assms(1)] assms(2)]
  by (simp add: refresh_persist_def Let_def case_prod_beta split: sum.splits prod.splits)

lemma refresh_session_family:
  assumes "family_revoked f (aw_auth w)"
  shows "family_revoked f (aw_auth (snd (refresh_session env io token agent ip w)))"
proof (cases "refresh_read env io token w")
  case (Inl e)
  with assms show ?thesis by (simp add: refresh_session_def)
next
  case (Inr sj)
  obtain s jwt where sj: "sj = (s, jwt)" by (cases sj)
  have mem: "s \<in> set (db_sessions (aw_auth w))"
    using refresh_read_Inr [OF Inr [unfolded sj]]
    by (auto simp: get_session_by_refresh_hash_def dest: find_SomeD)
  show ?thesis
  proof (cases "ss_revoked_at s")
    case None
    with mem assms have ne: "ss_refresh_token_family s \<noteq> f" by (auto simp: family_revoked_def)
    obtain r w1 where c: "refresh_claim env io s w = (r, w1)" by (cases "refresh_claim env io s w")
    with refresh_claim_auth [of env io s w] assms have w1: "family_revoked f (aw_auth w1)" by simp
    from refresh_persist_family [OF w1 ne] refresh_replay_family [OF w1] w1 c show ?thesis
      using Inr sj None by (cases r) (simp_all add: refresh_session_def)
  next
    case (Some x)
    with Inr sj assms show ?thesis by (simp add: refresh_session_def refresh_replay_family)
  qed
qed

lemma family_revoked_cong: "db_sessions db = db_sessions db' \<Longrightarrow> family_revoked f db = family_revoked f db'"
  by (simp add: family_revoked_def)

lemma verify_code_family:
  "verify_and_consume_auth_code now u h m db = (v, db') \<Longrightarrow> family_revoked f db \<Longrightarrow> family_revoked f db'"
  by (auto simp: verify_and_consume_auth_code_def Let_def family_revoked_def split: option.splits if_splits)

lemma open_session_fam:
  "open_session env io u agent ip w = (r, w') \<Longrightarrow> family_revoked f (aw_auth w) \<Longrightarrow> io_family io \<noteq> f \<Longrightarrow>
   family_revoked f (aw_auth w')"
  using open_session_family by (metis snd_conv)

lemma send_code_family:
  "family_revoked f (aw_auth w) \<Longrightarrow> family_revoked f (aw_auth (snd (send_code env io email u w)))"
  by (auto simp: send_code_def create_auth_code_def invalidate_auth_codes_def checked_def Let_def family_revoked_def
      split: prod.splits option.splits if_splits)

lemma find_or_create_auth: "aw_auth (snd (find_or_create_user env io email w)) = aw_auth w"
  by (simp add: find_or_create_user_def Let_def split: option.split sum.split prod.split)

lemma verify_auth_code_family:
  assumes "family_revoked f (aw_auth w)" "io_family io \<noteq> f"
  shows "family_revoked f (aw_auth (snd (verify_auth_code env io email code agent ip w)))"
proof (cases "get_by_primary_email email (aw_core w)")
  case (Some user)
  obtain v auth where v: "verify_and_consume_auth_code (io_now io) (us_id user) (hash_string (en_lib env) code)
      MAX_AUTH_CODE_ATTEMPTS (aw_auth w) = (v, auth)" by (metis prod.collapse)
  obtain r core where r: "user_verify_email (io_now io) (us_id user) (aw_core w) = (r, core)"
    by (metis prod.collapse)
  have auth: "family_revoked f auth" using verify_code_family [OF v] assms(1) .
  have "family_revoked f (aw_auth (snd (then_do (open_session env io (us_id user) agent ip
      (w\<lparr>aw_core := core, aw_auth := auth\<rparr>)) (\<lambda>t w1. (g t, w1)))))" for g :: "string \<Rightarrow> session_error + auth_tokens"
    by (rule then_do_inv) (simp_all add: open_session_family auth assms(2))
  with Some v r auth assms(1) show ?thesis
    by (cases v; cases r) (simp_all add: verify_auth_code_def)
qed (simp add: verify_auth_code_def assms(1))

lemma exchange_github_code_family:
  assumes "family_revoked f (aw_auth w)" "io_family io \<noteq> f"
  shows "family_revoked f (aw_auth (snd (exchange_github_code env io code state agent ip w)))"
proof -
  have "family_revoked f (aw_auth (snd (github_user io email w)))" for email
    using assms(1) by (simp add: github_user_def split: option.split sum.split prod.split)
  moreover have "family_revoked f (aw_auth (snd (then_do (open_session env io u agent ip w1) (\<lambda>t w. (g t, w)))))"
    if "family_revoked f (aw_auth w1)" for u w1 and g :: "string \<Rightarrow> session_error + auth_tokens"
    using that by (intro then_do_inv [where P = "\<lambda>w. family_revoked f (aw_auth w)"])
      (simp_all add: open_session_family assms(2))
  ultimately show ?thesis
    unfolding exchange_github_code_def
    by (auto simp: assms(1) Let_def split: sum.split option.split
        intro!: then_do_inv [where P = "\<lambda>w. family_revoked f (aw_auth w)"])
qed

lemma session_step_family:
  assumes "session_step env f w w'" "family_revoked f (aw_auth w)"
  shows "family_revoked f (aw_auth w')"
  using assms
proof cases
  case (logout io token)
  with assms(2) show ?thesis by (simp add: logout_def Let_def revoke_session_keeps split: option.split)
next
  case (send io email)
  have "family_revoked f (aw_auth (snd (then_do (find_or_create_user env io email (w\<lparr>aw_cache := c\<rparr>)) (\<lambda>found w1.
      case found of None \<Rightarrow> (Inr (), w1) | Some user \<Rightarrow> send_code env io email user w1))))" for c
    by (rule then_do_inv [where P = "\<lambda>w. family_revoked f (aw_auth w)"])
      (simp_all add: find_or_create_auth assms(2) send_code_family split: option.split)
  with send assms(2) show ?thesis
    by (simp add: send_auth_email_def split: prod.split sum.split bool.split)
qed (use assms(2) in \<open>simp_all add: refresh_session_family verify_auth_code_family exchange_github_code_family\<close>)

section \<open>Reuse of a rotated token\<close>

text \<open>
  C19: Presenting a revoked refresh token of an account in good standing, when the cache answers
  that no grace entry is left, fails with \<open>TokenRevoked\<close> and revokes every session of the
  family; and no later call, whichever it is, brings a session of that family back to life.
\<close>

theorem reuse_revokes_the_family_for_good:
  assumes "refresh_read env io token w = Inr (s, jwt)" and "ss_revoked_at s \<noteq> None"
    and "cache_get (en_grace_parse env) (io_fates io 0) (io_now io) (get_grace_key (ss_refresh_token_hash s))
      (aw_cache w) = Inr None"
    and "(session_step env (ss_refresh_token_family s))\<^sup>*\<^sup>* (snd (refresh_session env io token agent ip w)) w'"
  shows "fst (refresh_session env io token agent ip w) = Inl (SessionTokenRevoked ''session'') \<and>
    family_revoked (ss_refresh_token_family s) (aw_auth w')"
proof
  have r: "refresh_session env io token agent ip w = reuse_detected io s w"
    using assms(1-3) by (simp add: refresh_session_def refresh_replay_def)
  then show "fst (refresh_session env io token agent ip w) = Inl (SessionTokenRevoked ''session'')"
    by (simp add: reuse_detected_def)
  have "family_revoked (ss_refresh_token_family s) (aw_auth (snd (refresh_session env io token agent ip w)))"
    by (simp add: r reuse_detected_def revoke_by_family_revokes)
  with assms(4) show "family_revoked (ss_refresh_token_family s) (aw_auth w')"
    by (induction rule: rtranclp_induct) (auto intro: session_step_family)
qed

definition reused_world :: auth_world where
  "reused_world = demo_world\<lparr>aw_auth := empty_auth\<lparr>db_sessions := [demo_session\<lparr>ss_revoked_at := Some 1\<rparr>,
     demo_session\<lparr>ss_id := 2, ss_refresh_token_hash := ''#new''\<rparr>]\<rparr>\<rparr>"

lemma reused_read:
  "refresh_read demo_env (demo_io 0) ''old'' reused_world = Inr (demo_session\<lparr>ss_revoked_at := Some 1\<rparr>, ''jwt'')"
proof -
  obtain u where u: "user_get_by_id 9 demo_store = Some u" "us_deleted_at u = None"
    using demo_user_found by blast
  then show ?thesis
    by (simp add: refresh_read_def reused_world_def demo_world_def demo_session_def demo_io_def
        get_session_by_refresh_hash_def sign_session_jwt_def generate_gitdot_jwt_def generate_jwt_def Let_def)
qed

theorem reuse_revokes_the_family_for_good_witness:
  "fst (refresh_session demo_env (demo_io 0) ''old'' None None reused_world) = Inl (SessionTokenRevoked ''session'') \<and>
   family_revoked 5 (aw_auth (snd (refresh_session demo_env (demo_io 0) ''old'' None None reused_world)))"
  using reuse_revokes_the_family_for_good [OF reused_read _ _ rtranclp.rtrancl_refl, of None None]
  by (simp add: reused_world_def demo_world_def demo_session_def demo_io_def cache_get_def live_def)

section \<open>Where the revocation does not reach\<close>

text \<open>
  C21: Three gaps. (1) While the grace entry of a rotated token lives, presenting that token
  returns a fresh access token and the successor, even when every session of the family has been
  revoked in the meantime, by a logout or by a detected reuse. (2) A rotation that was claimed
  before the family was revoked still persists a live session of that family afterwards. (3) If
  the answer to the claim is lost and the client of the cache retries, the call returns a
  refresh token that belongs to no session, and the old session stays as it was.
\<close>

theorem revocation_gaps:
  assumes "\<forall>g. en_grace_parse env (en_grace_json env g) = Inr g"
  shows "(\<forall>io token agent ip w s jwt g. refresh_read env io token w = Inr (s, jwt) \<longrightarrow> ss_revoked_at s \<noteq> None \<longrightarrow>
        io_fates io 0 0 = Answered \<longrightarrow>
        live (io_now io) (aw_cache w) (get_grace_key (ss_refresh_token_hash s)) = Some (en_grace_json env g) \<longrightarrow>
        family_revoked (ss_refresh_token_family s) (aw_auth w) \<longrightarrow>
        refresh_session env io token agent ip w = (Inr (replayed io jwt g), w))
    \<and> (\<forall>io s agent ip jwt expiry now w x w'.
        refresh_persist env io expiry s agent ip jwt
          (w\<lparr>aw_auth := revoke_sessions_by_family now (ss_refresh_token_family s) (aw_auth w)\<rparr>) = (Inr x, w') \<longrightarrow>
        \<not> family_revoked (ss_refresh_token_family s) (aw_auth w'))
    \<and> (\<forall>io token agent ip w s jwt. refresh_read env io token w = Inr (s, jwt) \<longrightarrow> ss_revoked_at s = None \<longrightarrow>
        io_fates io 1 0 = AnswerLost \<longrightarrow> io_fates io 1 1 = Answered \<longrightarrow> io_fates io 2 0 = Answered \<longrightarrow>
        live (io_now io) (aw_cache w) (get_grace_key (ss_refresh_token_hash s)) = None \<longrightarrow>
        (case refresh_session env io token agent ip w of (r, w') \<Rightarrow>
           (\<exists>x. r = Inr x \<and> tr_refresh_token x = fst (generate_high_entropic_code (en_lib env) (io_bytes io))) \<and>
           aw_auth w' = aw_auth w))"
  (is "?replay \<and> ?race \<and> ?lost")
proof (intro conjI)
  show ?replay
    using refresh_replay_answered assms by (auto simp: refresh_session_def)
  show ?race
    by (auto simp: refresh_persist_def create_session_def checked_def Let_def family_revoked_def
        split: prod.splits if_splits)
  show ?lost
  proof (intro allI impI)
    fix io token agent ip w s jwt
    assume r: "refresh_read env io token w = Inr (s, jwt)" "ss_revoked_at s = None"
      and f: "io_fates io 1 0 = AnswerLost" "io_fates io 1 1 = Answered" "io_fates io 2 0 = Answered"
      and l: "live (io_now io) (aw_cache w) (get_grace_key (ss_refresh_token_hash s)) = None"
    let ?k = "get_grace_key (ss_refresh_token_hash s)"
    let ?g = "(fst (generate_high_entropic_code (en_lib env) (io_bytes io)),
      io_now io + seconds REFRESH_TOKEN_EXPIRY_SECONDS)"
    let ?w = "w\<lparr>aw_cache := (aw_cache w)(?k \<mapsto> (en_grace_json env ?g, io_now io + GRACE_WINDOW))\<rparr>"
    have pos: "0 < GRACE_WINDOW" by (simp add: GRACE_WINDOW_def seconds_def)
    have "refresh_claim env io s w = (Inr False, ?w)"
      using f l pos by (simp add: refresh_claim_def set_nx_with_ttl_def with_retry_def with_retry_from.simps [of 0]
          with_retry_from.simps [of "Suc 0"] cmd_set_nx_ex_def live_def MAX_RETRIES_def Let_def)
    moreover have "live (io_now io) (aw_cache ?w) ?k = Some (en_grace_json env ?g)"
      using pos by (simp add: live_def)
    from refresh_replay_answered [of io 2 ?w s env ?g jwt, OF f(3) this] assms
    have "refresh_replay env io 2 s jwt ?w = (Inr (replayed io jwt ?g), ?w)" by simp
    ultimately show "case refresh_session env io token agent ip w of (r, w') \<Rightarrow>
           (\<exists>x. r = Inr x \<and> tr_refresh_token x = fst (generate_high_entropic_code (en_lib env) (io_bytes io))) \<and>
           aw_auth w' = aw_auth w"
      using r by (simp add: refresh_session_def replayed_def)
  qed
qed

definition lost_io :: io where
  "lost_io = (demo_io 0)\<lparr>io_fates := (\<lambda>c a. if c = 1 \<and> a = 0 then AnswerLost else Answered)\<rparr>"

lemma demo_read: "refresh_read demo_env lost_io ''old'' demo_world = Inr (demo_session, ''jwt'')"
proof -
  obtain u where u: "user_get_by_id 9 demo_store = Some u" "us_deleted_at u = None"
    using demo_user_found by blast
  then show ?thesis
    by (simp add: refresh_read_def lost_io_def demo_world_def demo_session_def demo_io_def empty_auth_def
        get_session_by_refresh_hash_def sign_session_jwt_def generate_gitdot_jwt_def generate_jwt_def Let_def)
qed

text \<open>The token \<open>98_\<close> is handed out; the only session is still the one of the old token.\<close>

theorem revocation_gaps_witness:
  "\<exists>x w'. refresh_session demo_env lost_io ''old'' None None demo_world = (Inr x, w') \<and>
     tr_refresh_token x = ''98_'' \<and> get_session_by_refresh_hash ''#98_'' (aw_auth w') = None"
proof -
  have "show_nat 98 = ''98''" by code_simp
  then show ?thesis
    using revocation_gaps [of demo_env, THEN conjunct2, THEN conjunct2, rule_format, OF _ demo_read, of None None]
    by (auto simp: lost_io_def demo_io_def demo_session_def demo_world_def live_def generate_high_entropic_code_def
        Let_def get_session_by_refresh_hash_def empty_auth_def split: prod.splits)
qed

end
