(* ===== verification/AccountService.thy ===== *)
theory AccountService
  imports SessionProps
begin

text \<open>
  \<open>service/authentication/account.rs\<close>, \<open>device.rs\<close> and \<open>token.rs\<close>: deletion of an account,
  secondary addresses and their codes, the device flow, and the validation of access tokens.
  They run over the same tables, cache and outbox as the session service.
\<close>

section \<open>Accounts\<close>

datatype account_error =
    AccountInput input_error
  | AccountNotFound not_found_error
  | AccountConflict conflict_error
  | AccountInvalidCode
  | AccountTooManyAttempts
  | AccountEmailError email_error
  | AccountDatabaseError database_error

record user_email_response =
  er_email :: string
  er_is_primary :: bool
  er_is_verified :: bool
  er_created_at :: time

definition user_email_response_from :: "user_email \<Rightarrow> user_email_response" where
  "user_email_response_from e =
     \<lparr>er_email = em_email e, er_is_primary = em_is_primary e, er_is_verified = em_is_verified e,
      er_created_at = em_created_at e\<rparr>"

definition EMAIL_VERIFY_SEND_COOLDOWN :: time where "EMAIL_VERIFY_SEND_COOLDOWN = seconds 30"

definition email_rate_limit_key :: "auth_env \<Rightarrow> uuid \<Rightarrow> string \<Rightarrow> string" where
  "email_rate_limit_key env user_id email =
     ''email_verify_send:'' @ hash_string (en_lib env) (show_uuid (en_lib env) user_id @ '':'' @ email)"

definition issue_and_send_code ::
  "auth_env \<Rightarrow> io \<Rightarrow> uuid \<Rightarrow> string \<Rightarrow> auth_world \<Rightarrow> (account_error + unit) \<times> auth_world"
where
  "issue_and_send_code env io user_id email w =
     (case set_nx_with_ttl (io_fates io 0) (io_now io) (email_rate_limit_key env user_id email) ''true''
             EMAIL_VERIFY_SEND_COOLDOWN (aw_cache w) of
        (Inr False, c) \<Rightarrow> (Inl AccountTooManyAttempts, w\<lparr>aw_cache := c\<rparr>)
      | (_, c) \<Rightarrow>
          (let auth1 = invalidate_codes_for_email (io_now io) user_id email (aw_auth w);
               (code, code_hash) = generate_readable_code (en_lib env) (io_idx io);
               expires_at = io_now io + seconds get_auth_code_expiry_in_seconds
           in (case create_code (aw_core w) (io_id io) (io_now io) user_id email code_hash expires_at auth1 of
                 (Inl e, auth2) \<Rightarrow> (Inl (AccountDatabaseError e), w\<lparr>aw_cache := c, aw_auth := auth2\<rparr>)
               | (Inr _, auth2) \<Rightarrow>
                   (case io_mail io of
                      Some e \<Rightarrow> (Inl (AccountEmailError e), w\<lparr>aw_cache := c, aw_auth := auth2\<rparr>)
                    | None \<Rightarrow>
                        (Inr (), w\<lparr>aw_cache := c, aw_auth := auth2, aw_mail := aw_mail w @ [(email, code)]\<rparr>)))))"

definition delete_account :: "io \<Rightarrow> uuid \<Rightarrow> auth_world \<Rightarrow> (account_error + unit) \<times> auth_world" where
  "delete_account io user_id w =
     (Inr (), w\<lparr>aw_core := mark_user_as_deleted (io_now io) user_id (aw_core w),
               aw_auth := revoke_sessions_by_user (io_now io) user_id (aw_auth w)\<rparr>)"

definition add_email ::
  "auth_env \<Rightarrow> io \<Rightarrow> uuid \<Rightarrow> string \<Rightarrow> auth_world \<Rightarrow> (account_error + unit) \<times> auth_world"
where
  "add_email env io user_id email w =
     (if is_email_taken email (aw_core w)
      then (Inl (AccountConflict (ConflictError ''email'' (IdStr email))), w)
      else issue_and_send_code env io user_id email w)"

definition verify_email ::
  "auth_env \<Rightarrow> io \<Rightarrow> uuid \<Rightarrow> string \<Rightarrow> string \<Rightarrow> auth_world
    \<Rightarrow> (account_error + user_email_response) \<times> auth_world"
where
  "verify_email env io user_id email code w =
     (case verify_and_consume_email_code (io_email_ids io 0) (io_now io) user_id email
             (hash_string (en_lib env) code) MAX_EMAIL_CODE_ATTEMPTS (aw_core w, aw_auth w) of
        (outcome, core, auth) \<Rightarrow>
          (case outcome of
             Inl e \<Rightarrow>
               if is_unique_violation e then Inl (AccountConflict (ConflictError ''email'' (IdStr email)))
               else Inl (AccountDatabaseError e)
           | Inr (EmailSuccess user_email) \<Rightarrow> Inr (user_email_response_from user_email)
           | Inr EmailAttemptsExhausted \<Rightarrow> Inl AccountTooManyAttempts
           | Inr EmailInvalid \<Rightarrow> Inl AccountInvalidCode
           | Inr EmailNoActiveCode \<Rightarrow> Inl AccountInvalidCode,
           w\<lparr>aw_core := core, aw_auth := auth\<rparr>))"

section \<open>The device flow\<close>

datatype device_error =
    DeviceInput input_error
  | DeviceNotFound not_found_error
  | DeviceTokenExpired string
  | DeviceTokenPending string
  | DeviceDatabaseError database_error

record device_code_response =
  dr_device_code :: string
  dr_user_code :: string
  dr_verification_url :: string
  dr_expires_in :: int
  dr_interval :: int

record token_response =
  to_access_token :: string
  to_user_email :: string
  to_user_name :: string

definition request_device_code ::
  "auth_env \<Rightarrow> io \<Rightarrow> string \<Rightarrow> string \<Rightarrow> auth_world \<Rightarrow> (device_error + device_code_response) \<times> auth_world"
where
  "request_device_code env io client_id verification_url w =
     (let (device_code, device_hash) = generate_high_entropic_code (en_lib env) (io_bytes io);
          (user_code, user_hash) = generate_readable_code (en_lib env) (io_idx io);
          expires_at = io_now io + seconds get_device_code_expiry_in_seconds
      in (case create_device_authorization (io_id io) (io_now io) device_hash user_hash client_id expires_at
                (aw_auth w) of
            (Inl e, auth) \<Rightarrow> (Inl (DeviceDatabaseError e), w\<lparr>aw_auth := auth\<rparr>)
          | (Inr _, auth) \<Rightarrow>
              (Inr \<lparr>dr_device_code = device_code, dr_user_code = user_code,
                    dr_verification_url = verification_url, dr_expires_in = get_device_code_expiry_in_seconds,
                    dr_interval = POLLING_INTERVAL_SECONDS\<rparr>, w\<lparr>aw_auth := auth\<rparr>)))"

text \<open>The read of \<open>poll_token\<close>, and the exchange that follows it.\<close>

definition poll_read :: "auth_env \<Rightarrow> string \<Rightarrow> auth_world \<Rightarrow> device_error + device_authorization" where
  "poll_read env device_code w =
     (let h = hash_string (en_lib env) device_code
      in map_err DeviceNotFound (opt_or_not_found (get_device_by_device_code_hash h (aw_auth w))
           ''device_code'' (IdStr h)))"

definition poll_exchange ::
  "auth_env \<Rightarrow> io \<Rightarrow> device_authorization \<Rightarrow> auth_world \<Rightarrow> (device_error + token_response) \<times> auth_world"
where
  "poll_exchange env io device_auth w =
     (case da_user_id device_auth of
        None \<Rightarrow> (Inl (DeviceInput (InputError ''user_id'' ''missing'')), w)
      | Some user_id \<Rightarrow>
          (case user_get_by_id user_id (aw_core w) of
             None \<Rightarrow> (Inl (DeviceNotFound (NotFoundError ''user'' (IdUuid user_id))), w)
           | Some user \<Rightarrow>
               (case primary_email user of
                  None \<Rightarrow> (Inl (DeviceNotFound (NotFoundError ''user_email'' (IdUuid user_id))), w)
                | Some e \<Rightarrow>
                    (let (access_token, token_hash) = generate_access_token (en_lib env) PersonalToken (io_bytes io)
                     in (case create_token (io_id io) (io_now io) user_id (da_client_id device_auth) token_hash
                               PersonalToken (aw_auth w) of
                           (Inl err, auth) \<Rightarrow> (Inl (DeviceDatabaseError err), w\<lparr>aw_auth := auth\<rparr>)
                         | (Inr _, auth) \<Rightarrow>
                             (Inr \<lparr>to_access_token = access_token, to_user_email = em_email e,
                                   to_user_name = us_name user\<rparr>,
                              w\<lparr>aw_auth := expire_device_authorization (da_id device_auth) auth\<rparr>))))))"

definition poll_token ::
  "auth_env \<Rightarrow> io \<Rightarrow> string \<Rightarrow> auth_world \<Rightarrow> (device_error + token_response) \<times> auth_world"
where
  "poll_token env io device_code w =
     (case poll_read env device_code w of
        Inl e \<Rightarrow> (Inl e, w)
      | Inr device_auth \<Rightarrow>
          if da_expires_at device_auth < io_now io \<and> da_status device_auth = DevicePending
          then (Inl (DeviceTokenExpired ''device_code''),
                w\<lparr>aw_auth := expire_device_authorization (da_id device_auth) (aw_auth w)\<rparr>)
          else (case da_status device_auth of
                  DevicePending \<Rightarrow> (Inl (DeviceTokenPending ''device_code''), w)
                | DeviceExpired \<Rightarrow> (Inl (DeviceTokenExpired ''device_code''), w)
                | DeviceAuthorized \<Rightarrow> poll_exchange env io device_auth w))"

definition authorize_device ::
  "auth_env \<Rightarrow> io \<Rightarrow> string \<Rightarrow> uuid \<Rightarrow> auth_world \<Rightarrow> (device_error + unit) \<times> auth_world"
where
  "authorize_device env io user_code user_id w =
     (let user_hash = hash_string (en_lib env) user_code
      in (case authorize_device_row (aw_core w) (io_now io) user_hash user_id (aw_auth w) of
            (Inl e, auth) \<Rightarrow> (Inl (DeviceDatabaseError e), w\<lparr>aw_auth := auth\<rparr>)
          | (Inr None, auth) \<Rightarrow>
              (Inl (DeviceNotFound (NotFoundError ''user_code'' (IdStr user_hash))), w\<lparr>aw_auth := auth\<rparr>)
          | (Inr (Some _), auth) \<Rightarrow> (Inr (), w\<lparr>aw_auth := auth\<rparr>)))"

section \<open>Access tokens\<close>

datatype token_service_error =
    TokenUnauthorized
  | TokenServiceTokenError token_error
  | TokenServiceDatabaseError database_error

text \<open>\<open>None\<close>: the format check panics.\<close>

definition validate_token ::
  "auth_env \<Rightarrow> time \<Rightarrow> string \<Rightarrow> token_type \<Rightarrow> auth_world \<Rightarrow> ((token_service_error + uuid) \<times> auth_world) option"
where
  "validate_token env now token ty w =
     (case validate_token_format (en_lib env) token of
        None \<Rightarrow> None
      | Some False \<Rightarrow> Some (Inl TokenUnauthorized, w)
      | Some True \<Rightarrow>
          if \<not> starts_with (token_prefix ty) token then Some (Inl TokenUnauthorized, w)
          else
            (case get_token_by_hash (hash_string (en_lib env) token) (aw_auth w) of
               None \<Rightarrow> Some (Inl TokenUnauthorized, w)
             | Some t \<Rightarrow>
                 Some (Inr (at_principal_id t), w\<lparr>aw_auth := touch_token now (at_id t) (aw_auth w)\<rparr>)))"

definition issue_task_token :: "auth_env \<Rightarrow> time \<Rightarrow> uuid \<Rightarrow> nat \<Rightarrow> token_service_error + string" where
  "issue_task_token env now task_id duration_secs =
     map_err TokenServiceTokenError (generate_jwt (en_lib env) (en_key env)
       (GITDOT_SERVER_ID, [GITDOT_SERVER_ID, S2_SERVER_ID], show_uuid (en_lib env) task_id,
        timestamp now, timestamp now + int duration_secs, None))"

end
