(* ===== verification/UserService.thy ===== *)
theory UserService
  imports Forge AccountService
begin

text \<open>
  \<open>service/core/user.rs\<close> with its responses and errors: the profile of the caller, renaming, and
  the listings of a user. A rename moves the directory of the repositories before it writes the
  row, and moves it back when the write fails.
\<close>

section \<open>Errors and responses\<close>

datatype user_error =
    UserInput input_error
  | UserNotFound not_found_error
  | UserConflict conflict_error
  | UserInvalidImage string
  | UserR2Error string
  | UserDatabaseError database_error
  | UserGitError git_error

type_synonym 'a user_call = "forge \<Rightarrow> (user_error + 'a) \<times> forge"

record user_repository_response =
  uy_owner :: string
  uy_name :: string
  uy_description :: "string option"
  uy_stars :: int
  uy_visibility :: string
  uy_commit_count :: "int option"
  uy_last_commit_at :: "time option"

definition from_repository :: "repository \<Rightarrow> int option \<Rightarrow> time option \<Rightarrow> user_repository_response" where
  "from_repository r commit_count last_commit_at =
     \<lparr>uy_owner = rp_owner_name r, uy_name = rp_name r, uy_description = rp_description r,
      uy_stars = as_u32 (rp_stars r), uy_visibility = visibility_into_string (rp_visibility r),
      uy_commit_count = map_option as_u32 commit_count, uy_last_commit_at = last_commit_at\<rparr>"

record user_organization_response =
  ug_id :: uuid
  ug_name :: string
  ug_display_name :: "string option"
  ug_role :: org_role
  ug_role_description :: "string option"
  ug_joined_at :: time
  ug_image_updated_at :: time

definition user_organization_response_from :: "user_organization \<Rightarrow> user_organization_response" where
  "user_organization_response_from x =
     \<lparr>ug_id = uo_id x, ug_name = uo_name x, ug_display_name = uo_display_name x, ug_role = uo_role x,
      ug_role_description = uo_role_description x, ug_joined_at = uo_joined_at x,
      ug_image_updated_at = uo_image_updated_at x\<rparr>"

record get_current_user_response =
  gu_id :: uuid
  gu_name :: string
  gu_emails :: "user_email_response list"
  gu_memberships :: "user_organization_response list"
  gu_location :: "string option"
  gu_readme :: "string option"
  gu_links :: "string list"
  gu_display_name :: "string option"
  gu_created_at :: time
  gu_image_updated_at :: time

section \<open>The caller\<close>

definition find_caller :: "uuid \<Rightarrow> core_db \<Rightarrow> user_error + user" where
  "find_caller i core = map_err UserNotFound (opt_or_not_found (user_get_by_id i core) ''user'' (IdUuid i))"

definition get_current_user :: "uuid \<Rightarrow> core_db \<Rightarrow> user_error + get_current_user_response" where
  "get_current_user user_id core =
     and_then (find_caller user_id core) (\<lambda>user.
     Inr \<lparr>gu_id = us_id user, gu_name = us_name user,
          gu_emails = map user_email_response_from (user_list_emails (us_id user) core),
          gu_memberships = map user_organization_response_from
            (fst (list_memberships_by_user_id (us_id user) core None MAX_PER_PAGE_LIMIT)),
          gu_location = us_location user, gu_readme = us_readme user, gu_links = us_links user,
          gu_display_name = us_display_name user, gu_created_at = us_created_at user,
          gu_image_updated_at = us_image_updated_at user\<rparr>)"

text \<open>The old and the new name of a rename that is wanted and allowed.\<close>

definition name_taken :: "string \<Rightarrow> user_error" where
  "name_taken name = UserConflict (ConflictError ''user name'' (IdStr (name @ '' is already taken'')))"

definition wanted_rename ::
  "forge_env \<Rightarrow> uuid \<Rightarrow> string option \<Rightarrow> core_db \<Rightarrow> user_error + (string \<times> string) option"
where
  "wanted_rename env user_id name core =
     (case name of
        None \<Rightarrow> Inr None
      | Some new_name \<Rightarrow>
          and_then (map_err UserConflict (validate_name (fe_lower env) (fe_offensive env) ''user name'' new_name)) (\<lambda>_.
          if is_name_taken new_name core then Inl (name_taken new_name)
          else
            and_then (find_caller user_id core) (\<lambda>user.
            Inr (if us_name user \<noteq> new_name then Some (us_name user, new_name) else None))))"

definition move_directory :: "bool \<Rightarrow> (string \<times> string) option \<Rightarrow> unit user_call" where
  "move_directory works rename =
     (case rename of
        None \<Rightarrow> answer_with (Inr ())
      | Some (old_name, new_name) \<Rightarrow> disk_do UserGitError (git_rename_owner works old_name new_name))"

text \<open>After a failing write: the directory moves back, if it can, and a race becomes a conflict.\<close>

definition undo_rename :: "bool \<Rightarrow> (string \<times> string) option \<Rightarrow> database_error \<Rightarrow> 'a user_call" where
  "undo_rename works rename err w =
     (case rename of
        None \<Rightarrow> (Inl (UserDatabaseError err), w)
      | Some (old_name, new_name) \<Rightarrow>
          (Inl (if is_unique_violation err then name_taken new_name else UserDatabaseError err),
           snd (disk_do UserGitError (git_rename_owner works new_name old_name) w)))"

definition update_current_user ::
  "forge_env \<Rightarrow> forge_io \<Rightarrow> uuid \<Rightarrow> string option \<Rightarrow> string option \<Rightarrow> string option \<Rightarrow> string list option
    \<Rightarrow> string option \<Rightarrow> user_response user_call"
where
  "update_current_user env io user_id name location readme links display_name w =
     then_do (wanted_rename env user_id name (fg_core w), w) (\<lambda>rename w1.
     then_do (move_directory (fi_rename io 0) rename w1) (\<lambda>_ w2.
     (case user_update user_id (map_option snd rename) location readme links display_name (fg_core w2) of
        (Inr user, core) \<Rightarrow> (Inr (user_response_from user), w2\<lparr>fg_core := core\<rparr>)
      | (Inl err, core) \<Rightarrow> undo_rename (fi_rename io 1) rename err (w2\<lparr>fg_core := core\<rparr>))))"

text \<open>Images are kept outside: only whether the conversion and the upload succeed matters here.\<close>

definition store_image :: "(string \<Rightarrow> 'e) \<Rightarrow> (string \<Rightarrow> 'e) \<Rightarrow> forge_io \<Rightarrow> 'e + unit" where
  "store_image invalid failed io =
     (case fi_webp io of
        None \<Rightarrow> Inl (invalid ''image'')
      | Some _ \<Rightarrow> if fi_upload io then Inr () else Inl (failed ''upload''))"

definition update_current_user_image :: "forge_io \<Rightarrow> uuid \<Rightarrow> unit user_call" where
  "update_current_user_image io user_id w =
     then_do (store_image UserInvalidImage UserR2Error io, w) (\<lambda>_ w1.
     (Inr (), w1\<lparr>fg_core := user_touch_image (fi_now io) user_id (fg_core w1)\<rparr>))"

section \<open>Other users\<close>

definition has_user :: "forge_env \<Rightarrow> string \<Rightarrow> core_db \<Rightarrow> user_error + unit" where
  "has_user env name core =
     (if is_reserved_name (fe_lower env) name \<or> fe_offensive env name \<or> is_name_taken name core
      then Inr () else Inl (UserNotFound (NotFoundError ''user'' (IdStr name))))"

definition find_named :: "string \<Rightarrow> core_db \<Rightarrow> user_error + user" where
  "find_named name core = map_err UserNotFound (opt_or_not_found (user_get name core) ''user'' (IdStr name))"

definition get_user :: "string \<Rightarrow> core_db \<Rightarrow> user_error + user_response" where
  "get_user name core = and_then (find_named name core) (\<lambda>user. Inr (user_response_from user))"

definition list_user_repositories ::
  "forge_env \<Rightarrow> string \<Rightarrow> uuid option \<Rightarrow> cursor option \<Rightarrow> nat \<Rightarrow> core_db \<Rightarrow> user_error + user_repository_response page"
where
  "list_user_repositories env name viewer cur limit core =
     and_then (find_named name core) (\<lambda>user.
     and_then (map_err UserDatabaseError (user_list_repositories (us_id user) viewer cur limit core)) (\<lambda>rows.
     Inr (page_of env (\<lambda>(r, n, t). from_repository r (map_option int n) t) rows)))"

definition list_starred_repositories ::
  "forge_env \<Rightarrow> string \<Rightarrow> uuid option \<Rightarrow> cursor option \<Rightarrow> nat \<Rightarrow> core_db \<Rightarrow> user_error + user_repository_response page"
where
  "list_starred_repositories env name viewer cur limit core =
     and_then (find_named name core) (\<lambda>user.
     and_then (map_err UserDatabaseError (user_list_starred_repositories (us_id user) viewer cur limit core)) (\<lambda>rows.
     Inr (page_of env (\<lambda>r. from_repository r None None) rows)))"

definition list_contributed_repositories ::
  "forge_env \<Rightarrow> string \<Rightarrow> uuid option \<Rightarrow> time \<Rightarrow> cursor option \<Rightarrow> nat \<Rightarrow> core_db
    \<Rightarrow> user_error + user_repository_response page"
where
  "list_contributed_repositories env name viewer from cur limit core =
     and_then (find_named name core) (\<lambda>user.
     and_then (map_err UserDatabaseError (user_list_contributed_repositories (us_id user) viewer from cur limit core)) (\<lambda>rows.
     Inr (page_of env (\<lambda>(r, n, t). from_repository r (Some (int n)) (Some t)) rows)))"

definition list_user_organizations ::
  "forge_env \<Rightarrow> string \<Rightarrow> cursor option \<Rightarrow> nat \<Rightarrow> core_db \<Rightarrow> user_error + user_organization_response page"
where
  "list_user_organizations env name cur limit core =
     and_then (find_named name core) (\<lambda>user.
     Inr (page_of env user_organization_response_from (list_memberships_by_user_id (us_id user) core cur limit)))"

definition list_user_reviews ::
  "forge_env \<Rightarrow> string \<Rightarrow> uuid option \<Rightarrow> string option \<Rightarrow> string option \<Rightarrow> string option \<Rightarrow> cursor option \<Rightarrow> nat
    \<Rightarrow> core_db \<Rightarrow> review_db \<Rightarrow> user_error + review_response page"
where
  "list_user_reviews env name viewer status owner repo cur limit core db =
     and_then (map_err UserDatabaseError (list_reviews_by_user core db name viewer status owner repo cur limit)) (\<lambda>rows.
     Inr (page_of env review_response_from rows))"

definition user_commit_response_of :: "commit \<times> bool \<Rightarrow> user_commit_response" where
  "user_commit_response_of ca = (if snd ca then visible_commit (fst ca) else redacted_commit (fst ca))"

definition list_user_commits ::
  "forge_env \<Rightarrow> string \<Rightarrow> uuid option \<Rightarrow> time \<Rightarrow> time \<Rightarrow> cursor option \<Rightarrow> nat \<Rightarrow> core_db
    \<Rightarrow> user_error + user_commit_response page"
where
  "list_user_commits env name viewer from to cur limit core =
     and_then (find_named name core) (\<lambda>user.
     and_then (map_err UserDatabaseError (list_by_user core (us_id user) viewer from to cur limit)) (\<lambda>rows.
     Inr (page_of env user_commit_response_of rows)))"

section \<open>Hidden commits\<close>

text \<open>The database with everything blanked that the commits of repositories hidden from a viewer say.\<close>

definition blank_commit :: "commit_row \<Rightarrow> commit_row" where
  "blank_commit c =
     c\<lparr>cm_git_author_name := [], cm_git_author_email := [], cm_ref_name := [], cm_sha := [], cm_parent_sha := [],
       cm_message := [], cm_review_number := None, cm_diff_position := None, cm_diffs := []\<rparr>"

definition hide_commits :: "uuid option \<Rightarrow> core_db \<Rightarrow> core_db" where
  "hide_commits viewer core =
     core\<lparr>db_commits := map (\<lambda>c. if viewer_has_access core viewer c then c else blank_commit c) (db_commits core)\<rparr>"

end
