(* ===== verification/OrgService.thy ===== *)
theory OrgService
  imports UserService
begin

text \<open>
  \<open>service/core/organization.rs\<close> with its responses and errors. A new organization must have a
  name that is neither reserved nor offensive and that no organization and no user has.
\<close>

section \<open>Errors, requests and responses\<close>

datatype organization_error =
    OrgInput input_error
  | OrgNotFound not_found_error
  | OrgConflict conflict_error
  | OrgInvalidImage string
  | OrgR2Error string
  | OrgDatabaseError database_error

type_synonym 'a org_call = "forge \<Rightarrow> (organization_error + 'a) \<times> forge"

record organization_member_response =
  mx_id :: uuid
  mx_user_id :: uuid
  mx_user_name :: string
  mx_role :: org_role
  mx_role_description :: "string option"
  mx_created_at :: time
  mx_image_updated_at :: time

definition member_response_from :: "org_member \<Rightarrow> organization_member_response" where
  "member_response_from m =
     \<lparr>mx_id = om_id m, mx_user_id = om_user_id m, mx_user_name = om_user_name m, mx_role = om_role m,
      mx_role_description = om_role_description m, mx_created_at = om_created_at m,
      mx_image_updated_at = om_image_updated_at m\<rparr>"

record organization_response =
  gx_id :: uuid
  gx_name :: string
  gx_display_name :: "string option"
  gx_location :: "string option"
  gx_readme :: "string option"
  gx_links :: "string list"
  gx_created_at :: time
  gx_image_updated_at :: time
  gx_members :: "organization_member_response list option"

definition organization_response_from :: "organization \<Rightarrow> organization_response" where
  "organization_response_from g =
     \<lparr>gx_id = og_id g, gx_name = og_name g, gx_display_name = og_display_name g, gx_location = og_location g,
      gx_readme = og_readme g, gx_links = og_links g, gx_created_at = og_created_at g,
      gx_image_updated_at = og_image_updated_at g,
      gx_members = map_option (map member_response_from) (og_members g)\<rparr>"

text \<open>The role of \<open>AddMemberRequest::new\<close>.\<close>

definition role_parse :: "string \<Rightarrow> organization_error + org_role" where
  "role_parse s =
     (if s = ''admin'' then Inr Admin else if s = ''member'' then Inr Member
      else Inl (OrgInput (InputError ''role'' s)))"

definition add_member_request_new ::
  "(string \<Rightarrow> string) \<Rightarrow> string \<Rightarrow> string \<Rightarrow> string \<Rightarrow> organization_error + string \<times> string \<times> org_role"
where
  "add_member_request_new lower org_name user_name role =
     and_then (role_parse role) (\<lambda>r.
     and_then (map_err OrgInput (owner_name_parse lower org_name ''organization name'')) (\<lambda>o'.
     and_then (map_err OrgInput (owner_name_parse lower user_name ''user name'')) (\<lambda>u'.
     Inr (o', u', r))))"

section \<open>Operations\<close>

definition org_name_taken :: "string \<Rightarrow> organization_error" where
  "org_name_taken name = OrgConflict (ConflictError ''organization name'' (IdStr name))"

text \<open>The image of a new organization is stored if it can be; the answer does not depend on it.\<close>

definition create_organization ::
  "forge_env \<Rightarrow> forge_io \<Rightarrow> string \<Rightarrow> uuid \<Rightarrow> string option \<Rightarrow> organization_response org_call"
where
  "create_organization env io name owner_id readme w =
     then_do (map_err OrgConflict (validate_name (fe_lower env) (fe_offensive env) ''organization name'' name), w) (\<lambda>_ w1.
       if org_get name (fg_core w1) \<noteq> None then (Inl (org_name_taken name), w1)
       else if user_get name (fg_core w1) \<noteq> None then (Inl (org_name_taken name), w1)
       else
         then_do (core_do OrgDatabaseError (org_create (fi_id io 0) (fi_id io 1) (fi_now io) name owner_id readme) w1)
           (\<lambda>org w2. (Inr (organization_response_from org), w2)))"

definition org_found :: "string \<Rightarrow> 'a option \<Rightarrow> organization_error + 'a" where
  "org_found name x = map_err OrgNotFound (opt_or_not_found x ''organization'' (IdStr name))"

definition get_organization :: "string \<Rightarrow> core_db \<Rightarrow> organization_error + organization_response" where
  "get_organization name core =
     and_then (org_found name (org_get name core)) (\<lambda>org. Inr (organization_response_from org))"

definition update_organization ::
  "string \<Rightarrow> string option \<Rightarrow> string option \<Rightarrow> string list option \<Rightarrow> string option \<Rightarrow> organization_response org_call"
where
  "update_organization name location readme links display_name w =
     then_do (core_do OrgDatabaseError (org_update name location readme links display_name) w) (\<lambda>found w1.
     then_do (org_found name found, w1) (\<lambda>org w2.
     (Inr (organization_response_from org), w2)))"

definition update_organization_image :: "forge_io \<Rightarrow> string \<Rightarrow> unit org_call" where
  "update_organization_image io name w =
     then_do (org_found name (org_get_id name (fg_core w)), w) (\<lambda>org_id w1.
     then_do (store_image OrgInvalidImage OrgR2Error io, w1) (\<lambda>_ w2.
     (Inr (), w2\<lparr>fg_core := org_touch_image (fi_now io) org_id (fg_core w2)\<rparr>)))"

definition service_add_member ::
  "forge_io \<Rightarrow> string \<Rightarrow> string \<Rightarrow> org_role \<Rightarrow> string option \<Rightarrow> organization_member_response org_call"
where
  "service_add_member io org_name user_name role description w =
     (case add_member (fi_id io 0) (fi_now io) org_name user_name role description (fg_core w) of
        (Some m, core) \<Rightarrow> (Inr (member_response_from m), w\<lparr>fg_core := core\<rparr>)
      | (None, core) \<Rightarrow>
          (if org_get org_name core = None
           then Inl (OrgNotFound (NotFoundError ''organization'' (IdStr org_name)))
           else if user_get user_name core = None
           then Inl (OrgNotFound (NotFoundError ''user'' (IdStr user_name)))
           else Inl (OrgConflict (ConflictError ''member'' (IdStr user_name))), w\<lparr>fg_core := core\<rparr>))"

definition service_update_member ::
  "forge_env \<Rightarrow> string \<Rightarrow> uuid \<Rightarrow> string option \<Rightarrow> organization_member_response org_call"
where
  "service_update_member env org_name member_id description w =
     (case update_member org_name member_id description (fg_core w) of
        (m, core) \<Rightarrow>
          then_do (map_err OrgNotFound (opt_or_not_found m ''member'' (IdStr (fe_show_uuid env member_id))), w\<lparr>fg_core := core\<rparr>)
            (\<lambda>m w1. (Inr (member_response_from m), w1)))"

definition list_organizations :: "forge_env \<Rightarrow> cursor option \<Rightarrow> nat \<Rightarrow> core_db \<Rightarrow> organization_response page" where
  "list_organizations env cur limit core = page_of env organization_response_from (org_list core cur limit)"

definition list_organization_repositories ::
  "forge_env \<Rightarrow> string \<Rightarrow> uuid option \<Rightarrow> cursor option \<Rightarrow> nat \<Rightarrow> core_db \<Rightarrow> organization_error + repository_response page"
where
  "list_organization_repositories env name viewer cur limit core =
     and_then (org_found name (org_get name core)) (\<lambda>_.
     and_then (map_err OrgDatabaseError (repo_list_by_owner name viewer cur limit core)) (\<lambda>rows.
     Inr (page_of env repository_response_from rows)))"

end
