(* ===== verification/RepoService.thy ===== *)
theory RepoService
  imports OrgService
begin

text \<open>
  \<open>service/core/repository.rs\<close> with its requests and errors: creation on disk and in the tables,
  deletion, stars, filters, commits, and the reading of files, for which git answers.
\<close>

section \<open>Errors\<close>

datatype repository_error =
    RepositoryInput input_error
  | RepositoryNotFound not_found_error
  | RepositoryConflict conflict_error
  | TooManyPaths
  | NotAFile string
  | RepositoryGitError git_error
  | RepositoryDatabaseError database_error

text \<open>\<open>From<Git2Error>\<close>.\<close>

fun from_git_error :: "git_error \<Rightarrow> repository_error" where
  "from_git_error (GitNotFound path) = RepositoryNotFound (NotFoundError ''repository'' (IdStr path))"
| "from_git_error (GitNotABlob path) = NotAFile path"
| "from_git_error e = RepositoryGitError e"

type_synonym 'a repository_call = "forge \<Rightarrow> (repository_error + 'a) \<times> forge"

section \<open>Requests\<close>

datatype gitignore_template = RustGitignore | NodeGitignore | PythonGitignore | GoGitignore
datatype license_template = Mit | Apache2

definition gitignore_try_from :: "string \<Rightarrow> repository_error + gitignore_template" where
  "gitignore_try_from s =
     (if s = ''rust'' then Inr RustGitignore else if s = ''node'' then Inr NodeGitignore
      else if s = ''python'' then Inr PythonGitignore else if s = ''go'' then Inr GoGitignore
      else Inl (RepositoryInput (InputError ''gitignore template'' s)))"

definition license_try_from :: "string \<Rightarrow> repository_error + license_template" where
  "license_try_from s =
     (if s = ''mit'' then Inr Mit else if s = ''apache-2.0'' then Inr Apache2
      else Inl (RepositoryInput (InputError ''license template'' s)))"

text \<open>\<open>Option::map(..).transpose()\<close>.\<close>

definition transposed :: "('a \<Rightarrow> 'e + 'b) \<Rightarrow> 'a option \<Rightarrow> 'e + 'b option" where
  "transposed f x = (case x of None \<Rightarrow> Inr None | Some v \<Rightarrow> map_sum id Some (f v))"

definition trimmed_text :: "string option \<Rightarrow> string option" where
  "trimmed_text d = (case d of None \<Rightarrow> None | Some s \<Rightarrow> if trim s = [] then None else Some (trim s))"

record create_repository_request =
  nr_name :: string
  nr_user_id :: uuid
  nr_owner_name :: string
  nr_owner_type :: owner_type
  nr_visibility :: visibility
  nr_description :: "string option"
  nr_init_readme :: bool
  nr_gitignore :: "gitignore_template option"
  nr_license :: "license_template option"

definition create_repository_request_new ::
  "(string \<Rightarrow> string) \<Rightarrow> string \<Rightarrow> uuid \<Rightarrow> string \<Rightarrow> string \<Rightarrow> string \<Rightarrow> string option \<Rightarrow> bool \<Rightarrow> string option
    \<Rightarrow> string option \<Rightarrow> repository_error + create_repository_request"
where
  "create_repository_request_new lower repo_name user_id owner_name type_name visibility_name description init_readme gitignore license =
     and_then (transposed gitignore_try_from gitignore) (\<lambda>gi.
     and_then (transposed license_try_from license) (\<lambda>li.
     and_then (map_err RepositoryInput (repository_name_parse lower repo_name ''repository name'')) (\<lambda>n.
     and_then (map_err RepositoryInput (owner_name_parse lower owner_name ''owner name'')) (\<lambda>o'.
     and_then (map_err RepositoryInput (owner_type_try_from type_name)) (\<lambda>t.
     and_then (map_err RepositoryInput (visibility_try_from visibility_name)) (\<lambda>v.
     Inr \<lparr>nr_name = n, nr_user_id = user_id, nr_owner_name = o', nr_owner_type = t, nr_visibility = v,
          nr_description = trimmed_text description, nr_init_readme = init_readme, nr_gitignore = gi, nr_license = li\<rparr>))))))"

definition DESCRIPTION_MAX_LEN :: nat where "DESCRIPTION_MAX_LEN = 255"

record update_repository_request =
  wr_owner :: string
  wr_repo :: string
  wr_description :: "string option"
  wr_readonly :: "bool option"

definition update_repository_request_new ::
  "(string \<Rightarrow> string) \<Rightarrow> string \<Rightarrow> string \<Rightarrow> string option \<Rightarrow> bool option \<Rightarrow> repository_error + update_repository_request"
where
  "update_repository_request_new lower owner repo description readonly =
     (let d = trimmed_text description
      in if (case d of None \<Rightarrow> False | Some s \<Rightarrow> DESCRIPTION_MAX_LEN < char_count s)
         then Inl (RepositoryInput (InputError ''description'' ''must be at most 255 characters''))
         else if readonly = Some True
         then Inl (RepositoryInput (InputError ''readonly'' ''a repository cannot be set to readonly''))
         else
           and_then (map_err RepositoryInput (owner_name_parse lower owner ''owner name'')) (\<lambda>o'.
           and_then (map_err RepositoryInput (repository_name_parse lower repo ''repository name'')) (\<lambda>r'.
           Inr \<lparr>wr_owner = o', wr_repo = r', wr_description = d, wr_readonly = readonly\<rparr>)))"

section \<open>Creation\<close>

text \<open>\<open>str::lines().count()\<close>: a last line without a newline counts, an empty one does not.\<close>

definition line_count :: "string \<Rightarrow> nat" where
  "line_count s = count_list s (CHR 0x0A) + (if s \<noteq> [] \<and> last s \<noteq> CHR 0x0A then 1 else 0)"

text \<open>The texts of the templates are files; \<open>fe_gitignore\<close> and \<open>fe_license\<close> give them by name.\<close>

definition gitignore_for :: "forge_env \<Rightarrow> gitignore_template \<Rightarrow> string" where
  "gitignore_for env t =
     fe_gitignore env (case t of RustGitignore \<Rightarrow> ''rust.gitignore'' | NodeGitignore \<Rightarrow> ''node.gitignore''
       | PythonGitignore \<Rightarrow> ''python.gitignore'' | GoGitignore \<Rightarrow> ''go.gitignore'')"

definition license_for :: "forge_env \<Rightarrow> license_template \<Rightarrow> string" where
  "license_for env t = fe_license env (case t of Mit \<Rightarrow> ''mit.txt'' | Apache2 \<Rightarrow> ''apache-2.0.txt'')"

definition get_initial_files :: "forge_env \<Rightarrow> create_repository_request \<Rightarrow> (string \<times> string) list" where
  "get_initial_files env req =
     (if nr_init_readme req then [(''README.md'', ''# '' @ nr_name req @ [CHR 0x0A])] else [])
     @ (case nr_gitignore req of None \<Rightarrow> [] | Some t \<Rightarrow> [(''.gitignore'', gitignore_for env t)])
     @ (case nr_license req of None \<Rightarrow> [] | Some t \<Rightarrow> [(''LICENSE'', license_for env t)])"

definition initial_row ::
  "forge_io \<Rightarrow> user \<Rightarrow> string \<Rightarrow> uuid \<Rightarrow> string \<Rightarrow> (string \<times> string) list \<Rightarrow> commit_row"
where
  "initial_row io user email repo_id sha files =
     \<lparr>cm_id = fi_id io 1, cm_repo_id = repo_id, cm_author_id = Some (us_id user), cm_git_author_name = us_name user,
      cm_git_author_email = email, cm_ref_name = ''refs/heads/'' @ DEFAULT_BRANCH, cm_sha = sha, cm_parent_sha = ZERO_SHA,
      cm_message = ''Initial commit'', cm_created_at = fi_now io, cm_review_number = None, cm_diff_position = None,
      cm_diffs = map (\<lambda>(p, c). \<lparr>cd_path = p, cd_lines_added = as_i32 (int (line_count c)), cd_lines_removed = 0\<rparr>) files\<rparr>"

definition create_initial_commit ::
  "forge_env \<Rightarrow> forge_io \<Rightarrow> create_repository_request \<Rightarrow> uuid \<Rightarrow> (string \<times> string) list \<Rightarrow> unit repository_call"
where
  "create_initial_commit env io req repo_id files w =
     (let i = IdStr (fe_show_uuid env (nr_user_id req)) in
     then_do (map_err RepositoryNotFound (opt_or_not_found (user_get_by_id (nr_user_id req) (fg_core w)) ''user'' i), w) (\<lambda>user w1.
     then_do (map_err RepositoryNotFound (opt_or_not_found (primary_email user) ''user_email'' i), w1) (\<lambda>email w2.
     then_do (map_err from_git_error (fi_commit io), w2) (\<lambda>sha w3.
     then_do (core_do RepositoryDatabaseError (create_bulk [initial_row io user (em_email email) repo_id sha files]) w3) (\<lambda>_ w4.
     (Inr (), w4))))))"

definition install_hooks :: "forge_io \<Rightarrow> unit repository_call" where
  "install_hooks io w =
     (if fi_hooks io 0 \<and> fi_hooks io 1 \<and> fi_hooks io 2 then (Inr (), w)
      else (Inl (RepositoryGitError (GitIoError ''hook'')), w))"

text \<open>\<open>let _ = ...\<close>: an undo whose failure is ignored.\<close>

definition undo_directory :: "forge_io \<Rightarrow> create_repository_request \<Rightarrow> forge \<Rightarrow> forge" where
  "undo_directory io req w = snd (disk_do from_git_error (git_delete_repo (fi_delete io) (nr_owner_name req) (nr_name req)) w)"

definition owner_id_of :: "create_repository_request \<Rightarrow> uuid repository_call" where
  "owner_id_of req w =
     (case nr_owner_type req of
        UserOwner \<Rightarrow> (Inr (nr_user_id req), w)
      | OrganizationOwner \<Rightarrow>
          (map_sum RepositoryNotFound og_id
             (opt_or_not_found (org_get (nr_owner_name req) (fg_core w)) ''owner'' (IdStr (nr_owner_name req))), w))"

definition insert_repository :: "forge_io \<Rightarrow> create_repository_request \<Rightarrow> uuid \<Rightarrow> repository repository_call" where
  "insert_repository io req owner_id w =
     (case core_do RepositoryDatabaseError
             (repo_create (fi_id io 0) (fi_now io) (nr_name req) owner_id (nr_owner_type req) (nr_visibility req)
                (nr_description req) False None) w of
        (Inl e, w1) \<Rightarrow> (Inl e, undo_directory io req w1)
      | (Inr r, w1) \<Rightarrow> (Inr r, w1))"

definition seed_repository :: "forge_env \<Rightarrow> forge_io \<Rightarrow> create_repository_request \<Rightarrow> repository \<Rightarrow> unit repository_call" where
  "seed_repository env io req repository w =
     (let files = get_initial_files env req
      in if files = [] then (Inr (), w)
         else (case create_initial_commit env io req (rp_id repository) files w of
                 (Inl e, w1) \<Rightarrow> (Inl e, undo_directory io req (snd (core_do RepositoryDatabaseError (repo_delete (rp_id repository)) w1)))
               | (Inr _, w1) \<Rightarrow> (Inr (), w1)))"

definition create_repository ::
  "forge_env \<Rightarrow> forge_io \<Rightarrow> create_repository_request \<Rightarrow> repository_response repository_call"
where
  "create_repository env io req w =
     (if fe_offensive env (nr_name req)
      then (Inl (RepositoryConflict (ConflictError ''repository'' (IdStr (nr_name req @ '' is not allowed'')))), w)
      else if on_disk (nr_owner_name req) (nr_name req) (fg_disk w)
      then (Inl (RepositoryConflict (ConflictError ''repository'' (IdStr (nr_name req)))), w)
      else
        then_do (owner_id_of req w) (\<lambda>owner_id w1.
        then_do (disk_do from_git_error (git_create_repo (fi_create io) (nr_owner_name req) (nr_name req)) w1) (\<lambda>_ w2.
        then_do (install_hooks io w2) (\<lambda>_ w3.
        then_do (insert_repository io req owner_id w3) (\<lambda>repository w4.
        then_do (seed_repository env io req repository w4) (\<lambda>_ w5.
        (Inr (repository_response_from repository), w5)))))))"

section \<open>One repository\<close>

definition repository_found :: "string \<Rightarrow> string \<Rightarrow> 'a option \<Rightarrow> repository_error + 'a" where
  "repository_found owner repo x =
     map_err RepositoryNotFound (opt_or_not_found x ''repository'' (IdStr (owner @ ''/'' @ repo)))"

definition lookup_repository :: "string \<Rightarrow> string \<Rightarrow> uuid option \<Rightarrow> core_db \<Rightarrow> repository_error + repository" where
  "lookup_repository owner repo viewer core =
     and_then (map_err RepositoryDatabaseError (repo_get owner repo viewer core)) (repository_found owner repo)"

definition get_repository :: "string \<Rightarrow> string \<Rightarrow> uuid option \<Rightarrow> core_db \<Rightarrow> repository_error + repository_response" where
  "get_repository owner repo viewer core =
     and_then (lookup_repository owner repo viewer core) (\<lambda>r. Inr (repository_response_from r))"

definition get_repository_by_id :: "uuid \<Rightarrow> core_db \<Rightarrow> repository_error + repository_response" where
  "get_repository_by_id i core =
     and_then (map_err RepositoryDatabaseError (repo_get_by_id i None core)) (\<lambda>found.
     and_then (map_err RepositoryNotFound (opt_or_not_found found ''repository'' (IdUuid i))) (\<lambda>r.
     Inr (repository_response_from r)))"

definition delete_repository :: "forge_io \<Rightarrow> string \<Rightarrow> string \<Rightarrow> unit repository_call" where
  "delete_repository io owner repo w =
     then_do (lookup_repository owner repo None (fg_core w), w) (\<lambda>repository w1.
     then_do (disk_do from_git_error (git_delete_repo (fi_delete io) owner repo) w1) (\<lambda>_ w2.
     core_do RepositoryDatabaseError (repo_delete (rp_id repository)) w2))"

definition update_repository :: "update_repository_request \<Rightarrow> repository_response repository_call" where
  "update_repository req w =
     then_do (lookup_repository (wr_owner req) (wr_repo req) None (fg_core w), w) (\<lambda>repository w1.
     then_do (core_do RepositoryDatabaseError (repo_update (rp_id repository) (wr_description req) (wr_readonly req)) w1) (\<lambda>found w2.
     then_do (repository_found (wr_owner req) (wr_repo req) found, w2) (\<lambda>updated w3.
     (Inr (repository_response_from updated), w3))))"

section \<open>Files\<close>

definition get_repository_blob :: "forge_env \<Rightarrow> repo_key \<Rightarrow> string \<Rightarrow> string \<Rightarrow> repository_error + string" where
  "get_repository_blob env key ref_name path = map_err from_git_error (fe_blob env key ref_name path)"

definition get_repository_blobs_request_new ::
  "(string \<Rightarrow> string) \<Rightarrow> string \<Rightarrow> string \<Rightarrow> string list \<Rightarrow> string list \<Rightarrow> repository_error + repo_key \<times> string list \<times> string list"
where
  "get_repository_blobs_request_new lower repo owner refs paths =
     (if 1 < length refs \<and> length paths \<noteq> 1 then Inl TooManyPaths
      else
        and_then (map_err RepositoryInput (repository_name_parse lower repo ''repository name'')) (\<lambda>r'.
        and_then (map_err RepositoryInput (owner_name_parse lower owner ''owner name'')) (\<lambda>o'.
        Inr ((o', r'), refs, paths))))"

definition get_repository_blobs :: "forge_env \<Rightarrow> repo_key \<Rightarrow> string list \<Rightarrow> string list \<Rightarrow> repository_error + string list" where
  "get_repository_blobs env key paths refs =
     map_sum from_git_error (\<lambda>blobs. concat (map (\<lambda>b. case b of None \<Rightarrow> [] | Some s \<Rightarrow> [s]) blobs)) (fe_blobs env key paths refs)"

definition get_repository_paths :: "forge_env \<Rightarrow> repo_key \<Rightarrow> string \<Rightarrow> repository_error + string list" where
  "get_repository_paths env key ref_name = map_err from_git_error (fe_paths env key ref_name)"

definition repository_ref_sha :: "forge_env \<Rightarrow> repo_key \<Rightarrow> string \<Rightarrow> repository_error + string" where
  "repository_ref_sha env key ref_name = map_err from_git_error (fe_ref_sha env key ref_name)"

end
