(* ===== verification/RepoBrowse.thy ===== *)
theory RepoBrowse
  imports RepoService
begin

text \<open>
  The rest of \<open>service/core/repository.rs\<close>: commits and their files, the discovery listings, stars,
  the activity feed and the commit filters. A result \<open>None\<close> is a panic of \<open>get_commit\<close>.
\<close>

section \<open>Commits\<close>

definition stored_commit ::
  "string \<Rightarrow> string \<Rightarrow> string \<Rightarrow> core_db \<Rightarrow> (repository_error + commit) option"
where
  "stored_commit owner repo sha core =
     (case lookup_repository owner repo None core of
        Inl e \<Rightarrow> Some (Inl e)
      | Inr repository \<Rightarrow>
          map_option (\<lambda>got. and_then (map_err RepositoryDatabaseError got) (\<lambda>found.
              map_err RepositoryNotFound (opt_or_not_found found ''commit'' (IdStr sha))))
            (get_commit core (rp_id repository) sha))"

definition get_repository_commit ::
  "string \<Rightarrow> string \<Rightarrow> string \<Rightarrow> core_db \<Rightarrow> (repository_error + commit_response) option"
where
  "get_repository_commit owner repo sha core =
     map_option (map_sum id commit_response_from) (stored_commit owner repo sha core)"

record blob_pair_response =
  bp_path :: string
  bp_old :: "string option"
  bp_new :: "string option"

text \<open>\<open>left.get(i).cloned().flatten()\<close>.\<close>

definition nth_blob :: "string option list \<Rightarrow> nat \<Rightarrow> string option" where
  "nth_blob blobs i = (if i < length blobs then blobs ! i else None)"

definition blob_pairs :: "string list \<Rightarrow> string option list \<Rightarrow> string option list \<Rightarrow> blob_pair_response list" where
  "blob_pairs paths left right =
     map (\<lambda>(i, path). \<lparr>bp_path = path, bp_old = nth_blob left i, bp_new = nth_blob right i\<rparr>) (enumerate 0 paths)"

text \<open>
  \<open>try_join!\<close> of the two sides: when both fail, the error is that of the side that fails first; here
  the old one.
\<close>

definition get_repository_commit_blobs ::
  "forge_env \<Rightarrow> string \<Rightarrow> string \<Rightarrow> string \<Rightarrow> core_db \<Rightarrow> (repository_error + blob_pair_response list) option"
where
  "get_repository_commit_blobs env owner repo sha core =
     map_option (\<lambda>got. and_then got (\<lambda>commit.
       (let paths = map cd_path (cm_diffs commit);
            parent_refs = (if cm_parent_sha commit = ZERO_SHA then [] else [cm_parent_sha commit])
        in and_then (map_err from_git_error (fe_blobs env (owner, repo) paths parent_refs)) (\<lambda>left.
           and_then (map_err from_git_error (fe_blobs env (owner, repo) paths [cm_sha commit])) (\<lambda>right.
           Inr (blob_pairs paths left right)))))) (stored_commit owner repo sha core)"

text \<open>
  \<open>ListRepositoryCommitsRequest::new\<close>; \<open>decode\<close> reads a cursor and \<open>now\<close> is the clock.
\<close>

record list_commits_request =
  lc_owner :: string
  lc_repo :: string
  lc_ref_name :: string
  lc_from :: time
  lc_to :: time
  lc_cursor :: "cursor option"
  lc_limit :: nat

definition list_commits_request_new ::
  "(string \<Rightarrow> string) \<Rightarrow> (string \<Rightarrow> input_error + cursor) \<Rightarrow> time \<Rightarrow> string \<Rightarrow> string \<Rightarrow> string
    \<Rightarrow> time option \<Rightarrow> time option \<Rightarrow> string option \<Rightarrow> nat option \<Rightarrow> commit_error + list_commits_request"
where
  "list_commits_request_new lower decode now owner repo ref_name from to cur limit =
     (if to \<noteq> None \<and> from = None
      then Inl (CommitInput (InputError ''date range'' (''`to` requires `from` to be set'')))
      else
        and_then (map_err CommitInput (owner_name_parse lower owner ''owner name'')) (\<lambda>o'.
        and_then (map_err CommitInput (repository_name_parse lower repo ''repository name'')) (\<lambda>r'.
        and_then (map_err CommitInput (transposed decode cur)) (\<lambda>c.
        Inr \<lparr>lc_owner = o', lc_repo = r', lc_ref_name = ref_name,
             lc_from = (case from of None \<Rightarrow> 0 | Some t \<Rightarrow> t), lc_to = (case to of None \<Rightarrow> now | Some t \<Rightarrow> t),
             lc_cursor = c, lc_limit = clamp_limit limit\<rparr>))))"

definition full_ref_name :: "forge_env \<Rightarrow> repo_key \<Rightarrow> string \<Rightarrow> repository_error + string" where
  "full_ref_name env key ref_name =
     (if ref_name = ''HEAD'' then map_err from_git_error (fe_default_ref env key)
      else if \<not> starts_with ''refs/'' ref_name then Inr (''refs/heads/'' @ ref_name)
      else Inr ref_name)"

definition list_repository_commits ::
  "forge_env \<Rightarrow> list_commits_request \<Rightarrow> core_db \<Rightarrow> repository_error + commit_response page"
where
  "list_repository_commits env req core =
     and_then (lookup_repository (lc_owner req) (lc_repo req) None core) (\<lambda>repository.
     and_then (full_ref_name env (lc_owner req, lc_repo req) (lc_ref_name req)) (\<lambda>full.
     and_then (map_err RepositoryDatabaseError
         (list_by_repository core (rp_id repository) full (lc_from req) (lc_to req) (lc_cursor req) (lc_limit req))) (\<lambda>rows.
     Inr (page_of env commit_response_from rows))))"

section \<open>Discovery and stars\<close>

definition LATEST_REPOSITORIES_LIMIT :: nat where "LATEST_REPOSITORIES_LIMIT = 100"
definition TRENDING_REPOSITORIES_LIMIT :: nat where "TRENDING_REPOSITORIES_LIMIT = 100"
definition ACTIVITY_EVENT_LIMIT :: nat where "ACTIVITY_EVENT_LIMIT = 25"

definition list_latest_repositories :: "core_db \<Rightarrow> repository_error + repository_response list" where
  "list_latest_repositories core =
     map_sum RepositoryDatabaseError (map repository_response_from) (repo_list_latest LATEST_REPOSITORIES_LIMIT core)"

definition list_trending_repositories :: "core_db \<Rightarrow> repository_error + repository_response list" where
  "list_trending_repositories core =
     map_sum RepositoryDatabaseError (map repository_response_from) (repo_list_trending TRENDING_REPOSITORIES_LIMIT core)"

definition star_conflict :: "string \<Rightarrow> string \<Rightarrow> repository_error" where
  "star_conflict owner repo = RepositoryConflict (ConflictError ''star'' (IdStr (owner @ ''/'' @ repo)))"

definition find_repository_id :: "string \<Rightarrow> string \<Rightarrow> core_db \<Rightarrow> repository_error + uuid" where
  "find_repository_id owner repo core =
     and_then (map_err RepositoryDatabaseError (repo_get_id owner repo core)) (repository_found owner repo)"

definition star_repository :: "forge_io \<Rightarrow> string \<Rightarrow> string \<Rightarrow> uuid \<Rightarrow> unit repository_call" where
  "star_repository io owner repo user_id w =
     then_do (find_repository_id owner repo (fg_core w), w) (\<lambda>i w1.
     then_do (core_do RepositoryDatabaseError (repo_star (fi_id io 0) (fi_now io) i user_id) w1) (\<lambda>star w2.
       if star = None then (Inl (star_conflict owner repo), w2) else (Inr (), w2)))"

definition unstar_repository :: "string \<Rightarrow> string \<Rightarrow> uuid \<Rightarrow> unit repository_call" where
  "unstar_repository owner repo user_id w =
     then_do (find_repository_id owner repo (fg_core w), w) (\<lambda>i w1.
     then_do (core_do RepositoryDatabaseError (repo_unstar i user_id) w1) (\<lambda>removed w2.
       if removed then (Inr (), w2) else (Inl (star_conflict owner repo), w2)))"

text \<open>An event of the feed is a star: who and when.\<close>

definition get_repository_activity :: "string \<Rightarrow> string \<Rightarrow> core_db \<Rightarrow> repository_error + (user_response \<times> time) list" where
  "get_repository_activity owner repo core =
     and_then (lookup_repository owner repo None core) (\<lambda>repository.
     map_sum RepositoryDatabaseError (map (\<lambda>(u, at). (user_response_from u, at)))
       (repo_list_recent_stars (rp_id repository) ACTIVITY_EVENT_LIMIT core))"

section \<open>Commit filters\<close>

record commit_filter_response =
  fx_id :: uuid
  fx_repository_id :: uuid
  fx_name :: string
  fx_authors :: "string list option"
  fx_tags :: "string list option"
  fx_paths :: "string list option"
  fx_created_at :: time
  fx_updated_at :: time

definition commit_filter_response_from :: "commit_filter \<Rightarrow> commit_filter_response" where
  "commit_filter_response_from f =
     \<lparr>fx_id = cf_id f, fx_repository_id = cf_repository_id f, fx_name = cf_name f, fx_authors = cf_authors f,
      fx_tags = cf_tags f, fx_paths = cf_paths f, fx_created_at = cf_created_at f, fx_updated_at = cf_updated_at f\<rparr>"

definition list_repository_commit_filters ::
  "forge_env \<Rightarrow> string \<Rightarrow> string \<Rightarrow> cursor option \<Rightarrow> nat \<Rightarrow> core_db \<Rightarrow> repository_error + commit_filter_response page"
where
  "list_repository_commit_filters env owner repo cur limit core =
     and_then (lookup_repository owner repo None core) (\<lambda>repository.
     Inr (page_of env commit_filter_response_from (repo_list_commit_filters (rp_id repository) core cur limit)))"

text \<open>The validated fields of \<open>CreateRepositoryCommitFilterRequest\<close> and of its update.\<close>

record commit_filter_request =
  fr_owner :: string
  fr_repo :: string
  fr_name :: string
  fr_authors :: "string list option"
  fr_tags :: "string list option"
  fr_paths :: "string list option"

definition commit_filter_request_new ::
  "(string \<Rightarrow> string) \<Rightarrow> string \<Rightarrow> string \<Rightarrow> string \<Rightarrow> string list option \<Rightarrow> string list option \<Rightarrow> string list option
    \<Rightarrow> repository_error + commit_filter_request"
where
  "commit_filter_request_new lower owner repo name authors tags paths =
     and_then (map_err RepositoryInput (owner_name_parse lower owner ''owner name'')) (\<lambda>o'.
     and_then (map_err RepositoryInput (repository_name_parse lower repo ''repository name'')) (\<lambda>r'.
     and_then (map_err RepositoryInput (filter_name_parse name ''filter name'')) (\<lambda>n.
     Inr \<lparr>fr_owner = o', fr_repo = r', fr_name = n, fr_authors = normalize_string_list authors,
          fr_tags = normalize_string_list tags, fr_paths = normalize_string_list paths\<rparr>)))"

text \<open>The name is looked up in the first page of filters before the row is inserted.\<close>

definition create_repository_commit_filter ::
  "forge_io \<Rightarrow> commit_filter_request \<Rightarrow> commit_filter_response repository_call"
where
  "create_repository_commit_filter io req w =
     then_do (lookup_repository (fr_owner req) (fr_repo req) None (fg_core w), w) (\<lambda>repository w1.
       if list_ex (\<lambda>f. cf_name f = fr_name req)
            (fst (repo_list_commit_filters (rp_id repository) (fg_core w1) None MAX_PER_PAGE_LIMIT))
       then (Inl (RepositoryConflict (ConflictError ''commit filter'' (IdStr (fr_owner req @ ''/'' @ fr_repo req @ ''/'' @ fr_name req)))), w1)
       else
         then_do (core_do RepositoryDatabaseError
             (repo_create_commit_filter (fi_id io 0) (fi_now io) (rp_id repository) (fr_name req) (fr_authors req) (fr_tags req) (fr_paths req)) w1) (\<lambda>f w2.
         (Inr (commit_filter_response_from f), w2)))"

definition update_repository_commit_filter ::
  "forge_io \<Rightarrow> commit_filter_request \<Rightarrow> uuid \<Rightarrow> commit_filter_response repository_call"
where
  "update_repository_commit_filter io req filter_id w =
     then_do (lookup_repository (fr_owner req) (fr_repo req) None (fg_core w), w) (\<lambda>repository w1.
     then_do (core_do RepositoryDatabaseError
         (repo_update_commit_filter (fi_now io) (rp_id repository) filter_id (fr_name req) (fr_authors req) (fr_tags req) (fr_paths req)) w1) (\<lambda>found w2.
     then_do (map_err RepositoryNotFound (opt_or_not_found found ''commit filter'' (IdUuid filter_id)), w2) (\<lambda>f w3.
     (Inr (commit_filter_response_from f), w3))))"

definition delete_repository_commit_filter :: "string \<Rightarrow> string \<Rightarrow> uuid \<Rightarrow> unit repository_call" where
  "delete_repository_commit_filter owner repo filter_id w =
     then_do (lookup_repository owner repo None (fg_core w), w) (\<lambda>repository w1.
     then_do (core_do RepositoryDatabaseError (repo_delete_commit_filter (rp_id repository) filter_id) w1) (\<lambda>deleted w2.
       if deleted then (Inr (), w2)
       else (Inl (RepositoryNotFound (NotFoundError ''commit filter'' (IdUuid filter_id))), w2)))"

end
