(* ===== verification/QuestionStore.thy ===== *)
theory QuestionStore
  imports ReviewStore
begin

text \<open>
  Questions, answers, comments and votes: \<open>model/core/question.rs\<close> and
  \<open>repository/core/question.rs\<close>. As for reviews, the nested users lack members that the
  structure \<open>User\<close> requires, so a row is decoded only if no nested user has a primary address.
\<close>

section \<open>Structures (model/core/question.rs)\<close>

record comment_row =
  co_id :: uuid
  co_parent_id :: uuid
  co_author_id :: uuid
  co_body :: string
  co_upvote :: int
  co_created_at :: time
  co_updated_at :: time

record comment = comment_row +
  co_user_vote :: "int option"
  co_author :: "user option"

record answer_row =
  an_id :: uuid
  an_question_id :: uuid
  an_author_id :: uuid
  an_body :: string
  an_upvote :: int
  an_created_at :: time
  an_updated_at :: time

record answer = answer_row +
  an_user_vote :: "int option"
  an_author :: "user option"
  an_comments :: "comment list option"

record question_row =
  qn_id :: uuid
  qn_number :: int
  qn_author_id :: uuid
  qn_repository_id :: uuid
  qn_title :: string
  qn_body :: string
  qn_upvote :: int
  qn_impression :: int
  qn_created_at :: time
  qn_updated_at :: time

record question = question_row +
  qn_user_vote :: "int option"
  qn_author :: "user option"
  qn_comments :: "comment list option"
  qn_answers :: "answer list option"

record vote_row =
  vo_user_id :: uuid
  vo_target_id :: uuid
  vo_value :: int
  vo_created_at :: time

record vote_result =
  vx_target_id :: uuid
  vx_new_score :: int
  vx_user_vote :: "int option"

datatype vote_target = QuestionTarget | AnswerTarget | CommentTarget

record question_db =
  qd_questions :: "question_row list"
  qd_answers :: "answer_row list"
  qd_comments :: "comment_row list"
  qd_votes :: "vote_row list"

definition questions_ok :: "question_row list \<Rightarrow> bool" where
  "questions_ok qs \<longleftrightarrow> distinct (map qn_id qs) \<and> distinct (map (\<lambda>q. (qn_repository_id q, qn_number q)) qs)"

definition account_exists :: "core_db \<Rightarrow> uuid \<Rightarrow> bool" where
  "account_exists core i \<longleftrightarrow> list_ex (\<lambda>u. us_id u = i) (db_users core)"

section \<open>Reading\<close>

definition vote_of :: "question_db \<Rightarrow> uuid option \<Rightarrow> uuid \<Rightarrow> int option" where
  "vote_of db viewer target =
     map_option vo_value (find (\<lambda>v. vo_target_id v = target \<and> Some (vo_user_id v) = viewer) (qd_votes db))"

definition qcomment_view :: "core_db \<Rightarrow> question_db \<Rightarrow> uuid option \<Rightarrow> comment_row \<Rightarrow> database_error + comment" where
  "qcomment_view core db viewer c =
     and_then (user_json core (co_author_id c)) (\<lambda>u.
       Inr (comment_row.extend c (comment.fields (vote_of db viewer (co_id c)) u)))"

definition qcomments_of :: "core_db \<Rightarrow> question_db \<Rightarrow> uuid option \<Rightarrow> uuid \<Rightarrow> database_error + comment list" where
  "qcomments_of core db viewer parent =
     fetch_all (qcomment_view core db viewer)
       (sort_key co_created_at (filter (\<lambda>c. co_parent_id c = parent) (qd_comments db)))"

definition answer_view :: "core_db \<Rightarrow> question_db \<Rightarrow> uuid option \<Rightarrow> answer_row \<Rightarrow> database_error + answer" where
  "answer_view core db viewer a =
     and_then (user_json core (an_author_id a)) (\<lambda>u.
     and_then (qcomments_of core db viewer (an_id a)) (\<lambda>cs.
       Inr (answer_row.extend a (answer.fields (vote_of db viewer (an_id a)) u (Some cs)))))"

text \<open>\<open>QUESTION_DETAILS_QUERY\<close> and \<open>QUESTION_LIST_QUERY\<close>, which differ in the numbering of a parameter.\<close>

definition question_details ::
  "core_db \<Rightarrow> question_db \<Rightarrow> uuid option \<Rightarrow> question_row \<Rightarrow> database_error + question"
where
  "question_details core db viewer q =
     and_then (user_json core (qn_author_id q)) (\<lambda>u.
     and_then (qcomments_of core db viewer (qn_id q)) (\<lambda>cs.
     and_then (fetch_all (answer_view core db viewer)
        (sort_key an_created_at (filter (\<lambda>a. an_question_id a = qn_id q) (qd_answers db)))) (\<lambda>as.
       Inr (question_row.extend q (question.fields (vote_of db viewer (qn_id q)) u (Some cs) (Some as))))))"

definition bare_question :: "question_row \<Rightarrow> question" where
  "bare_question q = question_row.extend q (question.fields None None None None)"

definition bare_answer :: "answer_row \<Rightarrow> answer" where
  "bare_answer a = answer_row.extend a (answer.fields None None None)"

definition bare_comment :: "comment_row \<Rightarrow> comment" where
  "bare_comment c = comment_row.extend c (comment.fields None None)"

definition repo_get_question ::
  "core_db \<Rightarrow> uuid \<Rightarrow> int \<Rightarrow> uuid option \<Rightarrow> question_db \<Rightarrow> database_error + question option"
where
  "repo_get_question core repository_id number viewer db =
     fetch_optional (question_details core db viewer)
       (filter (\<lambda>q. qn_repository_id q = repository_id \<and> qn_number q = number) (qd_questions db))"

definition question_key :: "'a question_row_scheme \<Rightarrow> time \<times> uuid" where
  "question_key q = (qn_created_at q, qn_id q)"

definition repo_list_questions ::
  "core_db \<Rightarrow> uuid \<Rightarrow> uuid option \<Rightarrow> cursor option \<Rightarrow> nat \<Rightarrow> question_db
    \<Rightarrow> database_error + question list \<times> cursor option"
where
  "repo_list_questions core repository_id viewer cur limit db =
     (let rows = filter (\<lambda>q. qn_repository_id q = repository_id) (qd_questions db)
      in (case fetch_all (question_details core db viewer) (keyset_fetch question_key rows cur (limit + 1)) of
            Inl e \<Rightarrow> Inl e
          | Inr got \<Rightarrow> Inr (pop_extra question_key limit got)))"

text \<open>The questions with a number in the repositories with a path.\<close>

definition questions_at :: "core_db \<Rightarrow> string \<Rightarrow> string \<Rightarrow> int \<Rightarrow> question_db \<Rightarrow> question_row list" where
  "questions_at core owner repo number db =
     filter (\<lambda>q. qn_number q = number \<and>
        list_ex (\<lambda>p. rp_id p = qn_repository_id q \<and> rp_name p = repo \<and> rp_owner_id p \<in> set (owner_ids core owner))
          (db_repos core)) (qd_questions db)"

definition get_question_id :: "core_db \<Rightarrow> string \<Rightarrow> string \<Rightarrow> int \<Rightarrow> question_db \<Rightarrow> database_error + uuid option" where
  "get_question_id core owner repo number db =
     fetch_optional (\<lambda>q. Inr (qn_id q)) (questions_at core owner repo number db)"

definition get_question_author_id ::
  "core_db \<Rightarrow> string \<Rightarrow> string \<Rightarrow> int \<Rightarrow> question_db \<Rightarrow> database_error + uuid option"
where
  "get_question_author_id core owner repo number db =
     fetch_optional (\<lambda>q. Inr (qn_author_id q)) (questions_at core owner repo number db)"

definition get_answer_author_id :: "uuid \<Rightarrow> question_db \<Rightarrow> uuid option" where
  "get_answer_author_id i db = map_option an_author_id (find (\<lambda>a. an_id a = i) (qd_answers db))"

definition get_comment_author_id :: "uuid \<Rightarrow> question_db \<Rightarrow> uuid option" where
  "get_comment_author_id i db = map_option co_author_id (find (\<lambda>c. co_id c = i) (qd_comments db))"

section \<open>Writing\<close>

definition next_question_number :: "question_db \<Rightarrow> uuid \<Rightarrow> int" where
  "next_question_number db i =
     (let ns = map qn_number (filter (\<lambda>q. qn_repository_id q = i) (qd_questions db))
      in if ns = [] then 1 else Max (set ns) + 1)"

definition repo_create_question ::
  "uuid \<Rightarrow> time \<Rightarrow> core_db \<Rightarrow> uuid \<Rightarrow> uuid \<Rightarrow> string \<Rightarrow> string \<Rightarrow> question_db
    \<Rightarrow> (database_error + question) \<times> question_db"
where
  "repo_create_question i now core author_id repository_id title body db =
     (let n = next_question_number db repository_id;
          q = \<lparr>qn_id = i, qn_number = n, qn_author_id = author_id, qn_repository_id = repository_id,
               qn_title = title, qn_body = body, qn_upvote = 0, qn_impression = 0, qn_created_at = now,
               qn_updated_at = now\<rparr>
      in if MAX_I32 < n \<or> 255 < char_count title then (Inl OtherDbError, db)
         else (case checked questions_ok (qd_questions db @ [q]) of
                 Inl e \<Rightarrow> (Inl e, db)
               | Inr qs \<Rightarrow>
                   if repo_exists core repository_id \<and> account_exists core author_id
                   then (Inr (bare_question q), db\<lparr>qd_questions := qs\<rparr>) else (Inl OtherDbError, db)))"

definition repo_update_question ::
  "time \<Rightarrow> uuid \<Rightarrow> int \<Rightarrow> string \<Rightarrow> string \<Rightarrow> question_db \<Rightarrow> (database_error + question option) \<times> question_db"
where
  "repo_update_question now repository_id number title body db =
     (let hit = (\<lambda>q. qn_repository_id q = repository_id \<and> qn_number q = number);
          qs = update_where hit (\<lambda>q. q\<lparr>qn_title := title, qn_body := body, qn_updated_at := now\<rparr>) (qd_questions db)
      in if list_ex hit (qd_questions db) \<and> 255 < char_count title then (Inl OtherDbError, db)
         else (Inr (map_option bare_question (find hit qs)), db\<lparr>qd_questions := qs\<rparr>))"

text \<open>\<open>INSERT ... SELECT\<close>: one row per selected question; the first one is returned.\<close>

definition repo_create_answer ::
  "(nat \<Rightarrow> uuid) \<Rightarrow> time \<Rightarrow> core_db \<Rightarrow> string \<Rightarrow> string \<Rightarrow> int \<Rightarrow> uuid \<Rightarrow> string \<Rightarrow> question_db
    \<Rightarrow> (database_error + answer option) \<times> question_db"
where
  "repo_create_answer ids now core owner repo number author_id body db =
     (let rows = map (\<lambda>(k, q). \<lparr>an_id = ids k, an_question_id = qn_id q, an_author_id = author_id, an_body = body,
                     an_upvote = 0, an_created_at = now, an_updated_at = now\<rparr>)
                   (enumerate 0 (questions_at core owner repo number db))
      in if rows = [] then (Inr None, db)
         else if \<not> distinct (map an_id (qd_answers db @ rows)) then (Inl UniqueViolation, db)
         else if \<not> account_exists core author_id then (Inl OtherDbError, db)
         else (Inr (Some (bare_answer (hd rows))), db\<lparr>qd_answers := qd_answers db @ rows\<rparr>))"

definition repo_update_answer ::
  "time \<Rightarrow> uuid \<Rightarrow> string \<Rightarrow> question_db \<Rightarrow> answer option \<times> question_db"
where
  "repo_update_answer now i body db =
     (let as = update_where (\<lambda>a. an_id a = i) (\<lambda>a. a\<lparr>an_body := body, an_updated_at := now\<rparr>) (qd_answers db)
      in (map_option bare_answer (find (\<lambda>a. an_id a = i) as), db\<lparr>qd_answers := as\<rparr>))"

text \<open>The column \<open>parent_id\<close> references no table.\<close>

definition insert_comments ::
  "core_db \<Rightarrow> comment_row list \<Rightarrow> question_db \<Rightarrow> (database_error + comment option) \<times> question_db"
where
  "insert_comments core rows db =
     (if rows = [] then (Inr None, db)
      else if \<not> distinct (map co_id (qd_comments db @ rows)) then (Inl UniqueViolation, db)
      else if \<not> list_all (\<lambda>c. account_exists core (co_author_id c)) rows then (Inl OtherDbError, db)
      else (Inr (Some (bare_comment (hd rows))), db\<lparr>qd_comments := qd_comments db @ rows\<rparr>))"

definition new_comment_row :: "uuid \<Rightarrow> time \<Rightarrow> uuid \<Rightarrow> uuid \<Rightarrow> string \<Rightarrow> comment_row" where
  "new_comment_row i now parent_id author_id body =
     \<lparr>co_id = i, co_parent_id = parent_id, co_author_id = author_id, co_body = body, co_upvote = 0,
      co_created_at = now, co_updated_at = now\<rparr>"

definition repo_create_qcomment ::
  "uuid \<Rightarrow> time \<Rightarrow> core_db \<Rightarrow> uuid \<Rightarrow> uuid \<Rightarrow> string \<Rightarrow> question_db
    \<Rightarrow> (database_error + comment option) \<times> question_db"
where
  "repo_create_qcomment i now core parent_id author_id body =
     insert_comments core [new_comment_row i now parent_id author_id body]"

definition repo_create_question_comment ::
  "(nat \<Rightarrow> uuid) \<Rightarrow> time \<Rightarrow> core_db \<Rightarrow> string \<Rightarrow> string \<Rightarrow> int \<Rightarrow> uuid \<Rightarrow> string \<Rightarrow> question_db
    \<Rightarrow> (database_error + comment option) \<times> question_db"
where
  "repo_create_question_comment ids now core owner repo number author_id body db =
     insert_comments core
       (map (\<lambda>(k, q). new_comment_row (ids k) now (qn_id q) author_id body)
          (enumerate 0 (questions_at core owner repo number db))) db"

definition repo_update_qcomment :: "time \<Rightarrow> uuid \<Rightarrow> string \<Rightarrow> question_db \<Rightarrow> comment option \<times> question_db" where
  "repo_update_qcomment now i body db =
     (let cs = update_where (\<lambda>c. co_id c = i) (\<lambda>c. c\<lparr>co_body := body, co_updated_at := now\<rparr>) (qd_comments db)
      in (map_option bare_comment (find (\<lambda>c. co_id c = i) cs), db\<lparr>qd_comments := cs\<rparr>))"

section \<open>Voting\<close>

text \<open>
  The transaction of a vote: it reads the present vote of the user, then replaces it and adds
  the difference to the score of the target. A failure rolls everything back. The two parts are
  apart because PostgreSQL's default isolation lets another transaction commit in between.
\<close>

definition vote_read :: "uuid \<Rightarrow> uuid \<Rightarrow> question_db \<Rightarrow> int option" where
  "vote_read user_id target_id db =
     map_option vo_value (find (\<lambda>v. vo_user_id v = user_id \<and> vo_target_id v = target_id) (qd_votes db))"

definition put_vote ::
  "time \<Rightarrow> core_db \<Rightarrow> uuid \<Rightarrow> uuid \<Rightarrow> int \<Rightarrow> int option \<Rightarrow> vote_row list \<Rightarrow> database_error + vote_row list"
where
  "put_vote now core user_id target_id value existing votes =
     (let hit = (\<lambda>v. vo_user_id v = user_id \<and> vo_target_id v = target_id)
      in if value = 0 then Inr (filter (\<lambda>v. \<not> hit v) votes)
         else if value \<noteq> 1 \<and> value \<noteq> -1 then Inl OtherDbError
         else if existing \<noteq> None then Inr (update_where hit (\<lambda>v. v\<lparr>vo_value := value\<rparr>) votes)
         else if list_ex hit votes then Inl UniqueViolation
         else if \<not> account_exists core user_id then Inl OtherDbError
         else Inr (votes @ [\<lparr>vo_user_id = user_id, vo_target_id = target_id, vo_value = value, vo_created_at = now\<rparr>]))"

definition in_i32 :: "int \<Rightarrow> bool" where
  "in_i32 n \<longleftrightarrow> - MAX_I32 - 1 \<le> n \<and> n \<le> MAX_I32"

definition bump :: "('r \<Rightarrow> bool) \<Rightarrow> ('r \<Rightarrow> int) \<Rightarrow> (int \<Rightarrow> 'r \<Rightarrow> 'r) \<Rightarrow> int \<Rightarrow> 'r list \<Rightarrow> database_error + (int \<times> 'r list)" where
  "bump hit score set_score delta rows =
     (case find hit rows of
        None \<Rightarrow> Inl RowNotFound
      | Some r \<Rightarrow>
          if \<not> in_i32 (score r + delta) then Inl OtherDbError
          else Inr (score r + delta, update_where hit (\<lambda>r. set_score (score r + delta) r) rows))"

fun add_upvote :: "vote_target \<Rightarrow> uuid \<Rightarrow> int \<Rightarrow> question_db \<Rightarrow> database_error + (int \<times> question_db)" where
  "add_upvote QuestionTarget i delta db =
     map_sum id (\<lambda>(n, rows). (n, db\<lparr>qd_questions := rows\<rparr>))
       (bump (\<lambda>q. qn_id q = i) qn_upvote (\<lambda>n q. q\<lparr>qn_upvote := n\<rparr>) delta (qd_questions db))"
| "add_upvote AnswerTarget i delta db =
     map_sum id (\<lambda>(n, rows). (n, db\<lparr>qd_answers := rows\<rparr>))
       (bump (\<lambda>a. an_id a = i) an_upvote (\<lambda>n a. a\<lparr>an_upvote := n\<rparr>) delta (qd_answers db))"
| "add_upvote CommentTarget i delta db =
     map_sum id (\<lambda>(n, rows). (n, db\<lparr>qd_comments := rows\<rparr>))
       (bump (\<lambda>c. co_id c = i) co_upvote (\<lambda>n c. c\<lparr>co_upvote := n\<rparr>) delta (qd_comments db))"

definition vote_write ::
  "time \<Rightarrow> core_db \<Rightarrow> uuid \<Rightarrow> uuid \<Rightarrow> vote_target \<Rightarrow> int \<Rightarrow> int option \<Rightarrow> question_db
    \<Rightarrow> (database_error + vote_result) \<times> question_db"
where
  "vote_write now core user_id target_id target_type value existing db =
     (case and_then (put_vote now core user_id target_id value existing (qd_votes db)) (\<lambda>votes.
             add_upvote target_type target_id (value - coalesce existing 0) (db\<lparr>qd_votes := votes\<rparr>)) of
        Inl e \<Rightarrow> (Inl e, db)
      | Inr (new_score, db') \<Rightarrow>
          (Inr \<lparr>vx_target_id = target_id, vx_new_score = new_score,
                vx_user_vote = (if value = 0 then None else Some value)\<rparr>, db'))"

definition vote ::
  "time \<Rightarrow> core_db \<Rightarrow> uuid \<Rightarrow> uuid \<Rightarrow> vote_target \<Rightarrow> int \<Rightarrow> question_db
    \<Rightarrow> (database_error + vote_result) \<times> question_db"
where
  "vote now core user_id target_id target_type value db =
     vote_write now core user_id target_id target_type value (vote_read user_id target_id db) db"

end
