(* ===== verification/QuestionService.thy ===== *)
theory QuestionService
  imports QuestionStore ReviewDto
begin

text \<open>
  \<open>service/core/question.rs\<close> with its responses and errors. An operation reads the core tables
  and works on the question tables; the first argument of those that report an identifier is its
  text form.
\<close>

section \<open>Errors, requests and responses\<close>

datatype question_error =
    QuestionInput input_error
  | QuestionNotFound not_found_error
  | QuestionDatabaseError database_error

record author_response =
  ar_id :: uuid
  ar_name :: string

definition author_response_from :: "user \<Rightarrow> author_response" where
  "author_response_from u = \<lparr>ar_id = us_id u, ar_name = us_name u\<rparr>"

record comment_response =
  cx_id :: uuid
  cx_parent_id :: uuid
  cx_author_id :: uuid
  cx_body :: string
  cx_upvote :: int
  cx_created_at :: time
  cx_updated_at :: time
  cx_user_vote :: "int option"
  cx_author :: "author_response option"

definition comment_response_from :: "comment \<Rightarrow> comment_response" where
  "comment_response_from c =
     \<lparr>cx_id = co_id c, cx_parent_id = co_parent_id c, cx_author_id = co_author_id c, cx_body = co_body c,
      cx_upvote = co_upvote c, cx_created_at = co_created_at c, cx_updated_at = co_updated_at c,
      cx_user_vote = co_user_vote c, cx_author = map_option author_response_from (co_author c)\<rparr>"

record answer_response =
  ax_id :: uuid
  ax_question_id :: uuid
  ax_author_id :: uuid
  ax_body :: string
  ax_upvote :: int
  ax_created_at :: time
  ax_updated_at :: time
  ax_user_vote :: "int option"
  ax_author :: "author_response option"
  ax_comments :: "comment_response list"

definition answer_response_from :: "answer \<Rightarrow> answer_response" where
  "answer_response_from a =
     \<lparr>ax_id = an_id a, ax_question_id = an_question_id a, ax_author_id = an_author_id a, ax_body = an_body a,
      ax_upvote = an_upvote a, ax_created_at = an_created_at a, ax_updated_at = an_updated_at a,
      ax_user_vote = an_user_vote a, ax_author = map_option author_response_from (an_author a),
      ax_comments = map comment_response_from (or_empty (an_comments a))\<rparr>"

record question_response =
  qx_id :: uuid
  qx_number :: int
  qx_author_id :: uuid
  qx_repository_id :: uuid
  qx_title :: string
  qx_body :: string
  qx_upvote :: int
  qx_impression :: int
  qx_created_at :: time
  qx_updated_at :: time
  qx_user_vote :: "int option"
  qx_author :: "author_response option"
  qx_comments :: "comment_response list"
  qx_answers :: "answer_response list"

definition question_response_from :: "question \<Rightarrow> question_response" where
  "question_response_from q =
     \<lparr>qx_id = qn_id q, qx_number = qn_number q, qx_author_id = qn_author_id q,
      qx_repository_id = qn_repository_id q, qx_title = qn_title q, qx_body = qn_body q,
      qx_upvote = qn_upvote q, qx_impression = qn_impression q, qx_created_at = qn_created_at q,
      qx_updated_at = qn_updated_at q, qx_user_vote = qn_user_vote q,
      qx_author = map_option author_response_from (qn_author q),
      qx_comments = map comment_response_from (or_empty (qn_comments q)),
      qx_answers = map answer_response_from (or_empty (qn_answers q))\<rparr>"

record vote_response =
  vy_target_id :: uuid
  vy_score :: int
  vy_user_vote :: "int option"

definition vote_response_from :: "vote_result \<Rightarrow> vote_response" where
  "vote_response_from v = \<lparr>vy_target_id = vx_target_id v, vy_score = vx_new_score v, vy_user_vote = vx_user_vote v\<rparr>"

text \<open>The check of \<open>VoteQuestionRequest::new\<close>, \<open>VoteAnswerRequest::new\<close> and \<open>VoteCommentRequest::new\<close>.\<close>

definition check_vote_value :: "int \<Rightarrow> question_error + int" where
  "check_vote_value value =
     (if value < -1 \<or> 1 < value
      then Inl (QuestionInput (InputError ''vote value'' (show_int value @ ''. Must be -1, 0, or 1'')))
      else Inr value)"

section \<open>Operations\<close>

type_synonym 'a question_call = "question_db \<Rightarrow> (question_error + 'a) \<times> question_db"

definition q_db :: "(database_error + 'a) \<times> question_db \<Rightarrow> (question_error + 'a) \<times> question_db" where
  "q_db x = (map_err QuestionDatabaseError (fst x), snd x)"

definition repo_path :: "string \<Rightarrow> string \<Rightarrow> string" where
  "repo_path owner repo = owner @ ''/'' @ repo"

definition question_path :: "string \<Rightarrow> string \<Rightarrow> int \<Rightarrow> string" where
  "question_path owner repo number = owner @ ''/'' @ repo @ ''/'' @ show_int number"

definition found :: "string \<Rightarrow> string \<Rightarrow> 'a option \<Rightarrow> 'a question_call" where
  "found entity i x db = (map_err QuestionNotFound (opt_or_not_found x entity (IdStr i)), db)"

definition question_repository :: "core_db \<Rightarrow> string \<Rightarrow> string \<Rightarrow> repository question_call" where
  "question_repository core owner repo db =
     then_do (map_err QuestionDatabaseError (repo_get owner repo None core), db)
       (found ''repository'' (repo_path owner repo))"

definition create_question ::
  "uuid \<Rightarrow> time \<Rightarrow> core_db \<Rightarrow> string \<Rightarrow> string \<Rightarrow> uuid \<Rightarrow> string \<Rightarrow> string \<Rightarrow> question_response question_call"
where
  "create_question i now core owner repo author_id title body db =
     then_do (question_repository core owner repo db) (\<lambda>repository db1.
     then_do (q_db (repo_create_question i now core author_id (rp_id repository) title body db1)) (\<lambda>q db2.
     (Inr (question_response_from q), db2)))"

definition update_question ::
  "time \<Rightarrow> core_db \<Rightarrow> string \<Rightarrow> string \<Rightarrow> int \<Rightarrow> string \<Rightarrow> string \<Rightarrow> question_response question_call"
where
  "update_question now core owner repo number title body db =
     then_do (question_repository core owner repo db) (\<lambda>repository db1.
     then_do (q_db (repo_update_question now (rp_id repository) number title body db1)) (\<lambda>q db2.
     then_do (found ''question'' (question_path owner repo number) q db2) (\<lambda>q db3.
     (Inr (question_response_from q), db3))))"

definition get_question ::
  "core_db \<Rightarrow> string \<Rightarrow> string \<Rightarrow> int \<Rightarrow> uuid option \<Rightarrow> question_response question_call"
where
  "get_question core owner repo number viewer db =
     then_do (question_repository core owner repo db) (\<lambda>repository db1.
     then_do (map_err QuestionDatabaseError (repo_get_question core (rp_id repository) number viewer db1), db1) (\<lambda>q db2.
     then_do (found ''question'' (question_path owner repo number) q db2) (\<lambda>q db3.
     (Inr (question_response_from q), db3))))"

definition list_questions ::
  "(cursor \<Rightarrow> string) \<Rightarrow> core_db \<Rightarrow> string \<Rightarrow> string \<Rightarrow> uuid option \<Rightarrow> cursor option \<Rightarrow> nat
    \<Rightarrow> (question_response list \<times> string option) question_call"
where
  "list_questions encode core owner repo viewer cur limit db =
     then_do (question_repository core owner repo db) (\<lambda>repository db1.
     then_do (map_err QuestionDatabaseError (repo_list_questions core (rp_id repository) viewer cur limit db1), db1)
       (\<lambda>(qs, next_cursor) db2.
     (Inr (map question_response_from qs, map_option encode next_cursor), db2)))"

definition create_answer ::
  "(nat \<Rightarrow> uuid) \<Rightarrow> time \<Rightarrow> core_db \<Rightarrow> string \<Rightarrow> string \<Rightarrow> int \<Rightarrow> uuid \<Rightarrow> string \<Rightarrow> answer_response question_call"
where
  "create_answer ids now core owner repo number author_id body db =
     then_do (q_db (repo_create_answer ids now core owner repo number author_id body db)) (\<lambda>a db1.
     then_do (found ''question'' (question_path owner repo number) a db1) (\<lambda>a db2.
     (Inr (answer_response_from a), db2)))"

definition update_answer :: "(uuid \<Rightarrow> string) \<Rightarrow> time \<Rightarrow> uuid \<Rightarrow> string \<Rightarrow> answer_response question_call" where
  "update_answer show now i body db =
     (case repo_update_answer now i body db of
        (a, db1) \<Rightarrow> then_do (found ''answer'' (show i) a db1) (\<lambda>a db2. (Inr (answer_response_from a), db2)))"

definition create_question_comment ::
  "(nat \<Rightarrow> uuid) \<Rightarrow> time \<Rightarrow> core_db \<Rightarrow> string \<Rightarrow> string \<Rightarrow> int \<Rightarrow> uuid \<Rightarrow> string \<Rightarrow> comment_response question_call"
where
  "create_question_comment ids now core owner repo number author_id body db =
     then_do (q_db (repo_create_question_comment ids now core owner repo number author_id body db)) (\<lambda>c db1.
     then_do (found ''question'' (question_path owner repo number) c db1) (\<lambda>c db2.
     (Inr (comment_response_from c), db2)))"

text \<open>\<open>fetch_one\<close> of the inserted row.\<close>

definition create_answer_comment ::
  "uuid \<Rightarrow> time \<Rightarrow> core_db \<Rightarrow> uuid \<Rightarrow> uuid \<Rightarrow> string \<Rightarrow> comment_response question_call"
where
  "create_answer_comment i now core answer_id author_id body db =
     then_do (q_db (repo_create_qcomment i now core answer_id author_id body db)) (\<lambda>c db1.
     (case c of
        None \<Rightarrow> (Inl (QuestionDatabaseError RowNotFound), db1)
      | Some c \<Rightarrow> (Inr (comment_response_from c), db1)))"

definition update_comment :: "(uuid \<Rightarrow> string) \<Rightarrow> time \<Rightarrow> uuid \<Rightarrow> string \<Rightarrow> comment_response question_call" where
  "update_comment show now i body db =
     (case repo_update_qcomment now i body db of
        (c, db1) \<Rightarrow> then_do (found ''comment'' (show i) c db1) (\<lambda>c db2. (Inr (comment_response_from c), db2)))"

definition vote_on :: "time \<Rightarrow> core_db \<Rightarrow> vote_target \<Rightarrow> uuid \<Rightarrow> uuid \<Rightarrow> int \<Rightarrow> vote_response question_call" where
  "vote_on now core kind target_id user_id value db =
     then_do (q_db (vote now core user_id target_id kind value db)) (\<lambda>v db1. (Inr (vote_response_from v), db1))"

definition vote_question ::
  "time \<Rightarrow> core_db \<Rightarrow> string \<Rightarrow> string \<Rightarrow> int \<Rightarrow> uuid \<Rightarrow> int \<Rightarrow> vote_response question_call"
where
  "vote_question now core owner repo number user_id value db =
     then_do (map_err QuestionDatabaseError (get_question_id core owner repo number db), db) (\<lambda>i db1.
     then_do (found ''question'' (question_path owner repo number) i db1) (\<lambda>i.
     vote_on now core QuestionTarget i user_id value))"

definition vote_answer :: "time \<Rightarrow> core_db \<Rightarrow> uuid \<Rightarrow> uuid \<Rightarrow> int \<Rightarrow> vote_response question_call" where
  "vote_answer now core = vote_on now core AnswerTarget"

definition vote_comment :: "time \<Rightarrow> core_db \<Rightarrow> uuid \<Rightarrow> uuid \<Rightarrow> int \<Rightarrow> vote_response question_call" where
  "vote_comment now core = vote_on now core CommentTarget"

end
