(* ===== verification/Authz.thy ===== *)
theory Authz
  imports OrgStore QuestionService
begin

text \<open>
  \<open>service/authorization.rs\<close> with its requests and errors: who may do what. Every check reads
  the tables and answers Ok or an error; the argument \<open>lower\<close> is \<open>str::to_lowercase\<close>.

  The lemmas say of each check when exactly it succeeds, and that the permissions of a repository
  are ordered: who may administer it may write to it unless it is readonly, who may write may read.
\<close>

section \<open>Permissions and requests\<close>

datatype repository_permission = Read | Write | AdminPermission

fun permission_into_string :: "repository_permission \<Rightarrow> string" where
  "permission_into_string Read = ''read''"
| "permission_into_string Write = ''write''"
| "permission_into_string AdminPermission = ''admin''"

text \<open>The strength of a permission.\<close>

fun strength :: "repository_permission \<Rightarrow> nat" where
  "strength Read = 0"
| "strength Write = 1"
| "strength AdminPermission = 2"

instantiation repository_permission :: linorder
begin

definition less_eq_repository_permission :: "repository_permission \<Rightarrow> repository_permission \<Rightarrow> bool" where
  "p \<le> q \<longleftrightarrow> strength p \<le> strength q"

definition less_repository_permission :: "repository_permission \<Rightarrow> repository_permission \<Rightarrow> bool" where
  "p < q \<longleftrightarrow> strength p < strength q"

instance
proof
  fix p q :: repository_permission
  show "p = q" if "p \<le> q" "q \<le> p"
    using that by (cases p; cases q) (simp_all add: less_eq_repository_permission_def)
qed (auto simp: less_eq_repository_permission_def less_repository_permission_def)

end

datatype authorization_error =
    Unauthorized
  | ReadonlyRepository
  | AuthInput input_error
  | AuthNotFound not_found_error
  | AuthDatabaseError database_error

text \<open>The text of an input error, as it ends up in the reason of another one.\<close>

definition input_error_text :: "input_error \<Rightarrow> string" where
  "input_error_text e = ''Invalid '' @ input_field e @ '': '' @ input_reason e"

definition parse_owner :: "(string \<Rightarrow> string) \<Rightarrow> string \<Rightarrow> string \<Rightarrow> authorization_error + string" where
  "parse_owner lower value field = map_err AuthInput (owner_name_parse lower value field)"

definition parse_repo :: "(string \<Rightarrow> string) \<Rightarrow> string \<Rightarrow> authorization_error + string" where
  "parse_repo lower value = map_err AuthInput (repository_name_parse lower value ''repository name'')"

record repository_authorization_request =
  qr_user_id :: "uuid option"
  qr_owner :: string
  qr_repo :: string
  qr_permission :: repository_permission

definition repository_authorization_request_new ::
  "(string \<Rightarrow> string) \<Rightarrow> uuid option \<Rightarrow> string \<Rightarrow> string \<Rightarrow> repository_permission
    \<Rightarrow> authorization_error + repository_authorization_request"
where
  "repository_authorization_request_new lower user_id owner repo permission =
     and_then (parse_owner lower owner ''owner name'') (\<lambda>o'.
     and_then (parse_repo lower repo) (\<lambda>r'.
     Inr \<lparr>qr_user_id = user_id, qr_owner = o', qr_repo = r', qr_permission = permission\<rparr>))"

text \<open>The requests to create a repository and to migrate one have the same members.\<close>

record owner_authorization_request =
  qo_user_id :: uuid
  qo_owner :: string
  qo_owner_type :: owner_type

definition owner_authorization_request_new ::
  "(string \<Rightarrow> string) \<Rightarrow> uuid \<Rightarrow> string \<Rightarrow> string \<Rightarrow> authorization_error + owner_authorization_request"
where
  "owner_authorization_request_new lower user_id owner type_name =
     and_then (parse_owner lower owner ''owner name'') (\<lambda>o'.
     and_then (map_err (\<lambda>e. AuthInput (InputError ''owner type'' (input_error_text e))) (owner_type_try_from type_name)) (\<lambda>t.
     Inr \<lparr>qo_user_id = user_id, qo_owner = o', qo_owner_type = t\<rparr>))"

record organization_authorization_request =
  qg_user_id :: uuid
  qg_org_name :: string

definition organization_authorization_request_new ::
  "(string \<Rightarrow> string) \<Rightarrow> uuid \<Rightarrow> string \<Rightarrow> authorization_error + organization_authorization_request"
where
  "organization_authorization_request_new lower user_id org_name =
     and_then (parse_owner lower org_name ''organization name'') (\<lambda>n.
     Inr \<lparr>qg_user_id = user_id, qg_org_name = n\<rparr>)"

record member_authorization_request =
  qm_auth_user_id :: uuid
  qm_org_name :: string
  qm_member_id :: uuid

definition member_authorization_request_new ::
  "(string \<Rightarrow> string) \<Rightarrow> uuid \<Rightarrow> string \<Rightarrow> uuid \<Rightarrow> authorization_error + member_authorization_request"
where
  "member_authorization_request_new lower auth_user_id org_name member_id =
     and_then (parse_owner lower org_name ''organization name'') (\<lambda>n.
     Inr \<lparr>qm_auth_user_id = auth_user_id, qm_org_name = n, qm_member_id = member_id\<rparr>)"

text \<open>The requests about a question, a review and the reviewing of one have the same members.\<close>

record numbered_authorization_request =
  qw_user_id :: uuid
  qw_owner :: string
  qw_repo :: string
  qw_number :: int

definition numbered_authorization_request_new ::
  "(string \<Rightarrow> string) \<Rightarrow> uuid \<Rightarrow> string \<Rightarrow> string \<Rightarrow> int \<Rightarrow> authorization_error + numbered_authorization_request"
where
  "numbered_authorization_request_new lower user_id owner repo number =
     and_then (parse_owner lower owner ''owner name'') (\<lambda>o'.
     and_then (parse_repo lower repo) (\<lambda>r'.
     Inr \<lparr>qw_user_id = user_id, qw_owner = o', qw_repo = r', qw_number = number\<rparr>))"

section \<open>Checks\<close>

definition or_unauthorized :: "'a option \<Rightarrow> authorization_error + 'a" where
  "or_unauthorized x = (case x of Some v \<Rightarrow> Inr v | None \<Rightarrow> Inl Unauthorized)"

definition require :: "bool \<Rightarrow> authorization_error + unit" where
  "require b = (if b then Inr () else Inl Unauthorized)"

lemma or_unauthorized_Inr [simp]: "or_unauthorized x = Inr v \<longleftrightarrow> x = Some v"
  by (cases x) (simp_all add: or_unauthorized_def)

lemma require_Inr [simp]: "require b = Inr u \<longleftrightarrow> b"
  by (simp add: require_def)

definition verify_authorized_for_repository_creation ::
  "(string \<Rightarrow> string) \<Rightarrow> core_db \<Rightarrow> owner_authorization_request \<Rightarrow> authorization_error + unit"
where
  "verify_authorized_for_repository_creation lower db req =
     (case qo_owner_type req of
        UserOwner \<Rightarrow>
          and_then (or_unauthorized (user_get_by_id (qo_user_id req) db)) (\<lambda>user.
          require (lower (us_name user) = lower (qo_owner req)))
      | OrganizationOwner \<Rightarrow>
          and_then (or_unauthorized (org_get (qo_owner req) db)) (\<lambda>org.
          require (is_member (og_id org) (qo_user_id req) db)))"

definition verify_authorized_for_repository ::
  "core_db \<Rightarrow> repository_authorization_request \<Rightarrow> authorization_error + unit"
where
  "verify_authorized_for_repository db req =
     and_then (map_err AuthDatabaseError (repo_get (qr_owner req) (qr_repo req) None db)) (\<lambda>found.
     and_then (map_err AuthNotFound (opt_or_not_found found ''repository'' (IdStr (repo_path (qr_owner req) (qr_repo req))))) (\<lambda>repository.
       if rp_readonly repository \<and> qr_permission req = Write then Inl ReadonlyRepository
       else if qr_permission req = Read \<and> is_public repository then Inr ()
       else
         and_then (or_unauthorized (qr_user_id req)) (\<lambda>user_id.
           if is_owned_by_user repository then require (rp_owner_id repository = user_id)
           else require
             (if qr_permission req = AdminPermission then get_member_role (qr_owner req) user_id db = Some Admin
              else is_member (rp_owner_id repository) user_id db))))"

definition verify_authorized_for_organization ::
  "core_db \<Rightarrow> organization_authorization_request \<Rightarrow> authorization_error + unit"
where
  "verify_authorized_for_organization db req =
     (case get_member_role (qg_org_name req) (qg_user_id req) db of
        Some Admin \<Rightarrow> Inr ()
      | _ \<Rightarrow> Inl Unauthorized)"

definition verify_authorized_for_organization_member ::
  "core_db \<Rightarrow> member_authorization_request \<Rightarrow> authorization_error + unit"
where
  "verify_authorized_for_organization_member db req =
     and_then (or_unauthorized (get_member (qm_org_name req) (qm_member_id req) db)) (\<lambda>member.
       if om_user_id member = qm_auth_user_id req then Inr ()
       else (case get_member_role (qm_org_name req) (qm_auth_user_id req) db of
               Some Admin \<Rightarrow> Inr ()
             | _ \<Rightarrow> Inl Unauthorized))"

definition verify_authorized_for_question ::
  "core_db \<Rightarrow> question_db \<Rightarrow> numbered_authorization_request \<Rightarrow> authorization_error + unit"
where
  "verify_authorized_for_question core db req =
     and_then (map_err AuthDatabaseError
       (get_question_author_id core (qw_owner req) (qw_repo req) (qw_number req) db)) (\<lambda>author.
     and_then (or_unauthorized author) (\<lambda>author_id.
     require (author_id = qw_user_id req)))"

definition verify_authorized_for_answer :: "question_db \<Rightarrow> uuid \<Rightarrow> uuid \<Rightarrow> authorization_error + unit" where
  "verify_authorized_for_answer db user_id answer_id =
     and_then (or_unauthorized (get_answer_author_id answer_id db)) (\<lambda>author_id.
     require (author_id = user_id))"

definition verify_authorized_for_comment :: "question_db \<Rightarrow> uuid \<Rightarrow> uuid \<Rightarrow> authorization_error + unit" where
  "verify_authorized_for_comment db user_id comment_id =
     and_then (or_unauthorized (get_comment_author_id comment_id db)) (\<lambda>author_id.
     require (author_id = user_id))"

definition verify_authorized_for_review ::
  "core_db \<Rightarrow> review_db \<Rightarrow> numbered_authorization_request \<Rightarrow> authorization_error + unit"
where
  "verify_authorized_for_review core db req =
     and_then (map_err AuthDatabaseError
       (get_review_by_number core db (qw_owner req) (qw_repo req) (qw_number req))) (\<lambda>found.
     and_then (or_unauthorized found) (\<lambda>review.
     require (re_author_id review = qw_user_id req)))"

definition verify_authorized_for_review_comment ::
  "core_db \<Rightarrow> review_db \<Rightarrow> uuid \<Rightarrow> uuid \<Rightarrow> authorization_error + unit"
where
  "verify_authorized_for_review_comment core db user_id comment_id =
     and_then (map_err AuthDatabaseError (get_comment core comment_id db)) (\<lambda>found.
     and_then (or_unauthorized found) (\<lambda>comment.
     require (rc_author_id comment = user_id)))"

definition verify_authorized_for_reviewing ::
  "core_db \<Rightarrow> review_db \<Rightarrow> numbered_authorization_request \<Rightarrow> authorization_error + unit"
where
  "verify_authorized_for_reviewing core db req =
     and_then (map_err AuthDatabaseError
       (get_review_by_number core db (qw_owner req) (qw_repo req) (qw_number req))) (\<lambda>found.
     and_then (or_unauthorized found) (\<lambda>review.
     require (re_author_id review = qw_user_id req
       \<or> list_ex (\<lambda>r. rr_reviewer_id r = qw_user_id req) (or_empty (re_reviewers review)))))"

text \<open>The check of a migration repeats the check of a creation.\<close>

definition verify_authorized_for_migration ::
  "(string \<Rightarrow> string) \<Rightarrow> core_db \<Rightarrow> owner_authorization_request \<Rightarrow> authorization_error + unit"
where
  "verify_authorized_for_migration lower db req =
     (case qo_owner_type req of
        UserOwner \<Rightarrow>
          and_then (or_unauthorized (user_get_by_id (qo_user_id req) db)) (\<lambda>user.
          require (lower (us_name user) = lower (qo_owner req)))
      | OrganizationOwner \<Rightarrow>
          and_then (or_unauthorized (org_get (qo_owner req) db)) (\<lambda>org.
          require (is_member (og_id org) (qo_user_id req) db)))"

section \<open>Who may do what\<close>

text \<open>The owner of a repository, or a member (an admin) of the organization that owns it.\<close>

definition belongs_to :: "core_db \<Rightarrow> uuid \<Rightarrow> 'a repo_row_scheme \<Rightarrow> bool" where
  "belongs_to db u r \<longleftrightarrow>
     (case rp_owner_type r of
        UserOwner \<Rightarrow> rp_owner_id r = u
      | OrganizationOwner \<Rightarrow> (\<exists>m \<in> set (db_members db). mr_organization_id m = rp_owner_id r \<and> mr_user_id m = u))"

definition administers :: "core_db \<Rightarrow> uuid \<Rightarrow> 'a repo_row_scheme \<Rightarrow> bool" where
  "administers db u r \<longleftrightarrow>
     (case rp_owner_type r of
        UserOwner \<Rightarrow> rp_owner_id r = u
      | OrganizationOwner \<Rightarrow>
          (\<exists>m \<in> set (db_members db). mr_organization_id m = rp_owner_id r \<and> mr_user_id m = u \<and> mr_role m = Admin))"

definition ids_disjoint :: "core_db \<Rightarrow> bool" where
  "ids_disjoint db \<longleftrightarrow> us_id ` set (db_users db) \<inter> og_id ` set (db_orgs db) = {}"

lemma administers_belongs: "administers db u r \<Longrightarrow> belongs_to db u r"
  by (auto simp: administers_def belongs_to_def split: owner_type.splits)

lemma visible_belongs:
  "visible_to db viewer r \<longleftrightarrow> is_public r \<or> (\<exists>u. viewer = Some u \<and> belongs_to db u r)"
  by (cases "rp_owner_type r"; cases viewer)
    (auto simp: visible_to_def is_public_def belongs_to_def viewer_orgs_def image_iff)

lemma truncate_owner [simp]:
  "is_public (repo_row.truncate v) = is_public v"
  "belongs_to db u (repo_row.truncate v) = belongs_to db u v"
  "rp_owner_type (repo_row.truncate v) = rp_owner_type v"
  "rp_owner_id (repo_row.truncate v) = rp_owner_id v"
  by (simp_all add: is_public_def belongs_to_def repo_row.truncate_def split: owner_type.split)

lemma repo_get_owner:
  assumes "repo_get owner repo viewer db = Inr (Some v)"
  shows "rp_owner_id v \<in> set (owner_ids db owner)" and "owner_name_of db (repo_row.truncate v) \<noteq> None"
proof -
  from assms obtain r where "r \<in> set (db_repos db)" "rp_owner_id r \<in> set (owner_ids db owner)" "repo_view db viewer r = Inr v"
    by (auto simp: repo_get_def fetch_optional_def map_sum_def filter_eq_Cons_iff split: list.splits sum.splits)
  moreover from repo_view_row(1) [OF this(3)] have "repo_row.truncate v = r" .
  ultimately show "rp_owner_id v \<in> set (owner_ids db owner)" "owner_name_of db (repo_row.truncate v) \<noteq> None"
    by (auto simp: repo_view_def repo_row.truncate_def split: option.splits)
qed

lemma owning_organization:
  assumes "repo_get owner repo viewer db = Inr (Some v)" and "ids_disjoint db" and "rp_owner_type v = OrganizationOwner"
  shows "\<exists>g \<in> set (db_orgs db). og_name g = owner \<and> og_id g = rp_owner_id v"
proof -
  have "find_org db (rp_owner_id v) \<noteq> None"
    using repo_get_owner(2) [OF assms(1)] assms(3) by (simp add: owner_name_of_def)
  then obtain g where "find_org db (rp_owner_id v) = Some g" by blast
  then have "g \<in> set (db_orgs db) \<and> og_id g = rp_owner_id v" unfolding find_org_def by (rule find_SomeD)
  then have "rp_owner_id v \<in> og_id ` set (db_orgs db)" by force
  then have "rp_owner_id v \<notin> us_id ` set (db_users db)" using assms(2) by (auto simp: ids_disjoint_def)
  then show ?thesis using repo_get_owner(1) [OF assms(1)] by (auto simp: owner_ids_def)
qed

lemma admin_role_administers:
  assumes "repo_get owner repo viewer db = Inr (Some v)" "orgs_wf db" "ids_disjoint db" "rp_owner_type v = OrganizationOwner"
  shows "get_member_role owner u db = Some Admin \<longleftrightarrow> administers db u v"
proof -
  from owning_organization [OF assms(1,3,4)] obtain g where g: "g \<in> set (db_orgs db)" "og_name g = owner" "og_id g = rp_owner_id v"
    by blast
  have "get_member_role (og_name g) u db = Some Admin \<longleftrightarrow>
      (\<exists>m \<in> set (db_members db). mr_organization_id m = og_id g \<and> mr_user_id m = u \<and> mr_role m = Admin)"
    by (rule member_role_iff) (use assms(2) g(1) in \<open>auto simp: orgs_wf_def\<close>)
  then show ?thesis using assms(4) by (simp add: g(2,3) administers_def)
qed

definition granted :: "core_db \<Rightarrow> uuid option \<Rightarrow> string \<Rightarrow> string \<Rightarrow> repository_permission \<Rightarrow> bool" where
  "granted db viewer owner repo p \<longleftrightarrow>
     verify_authorized_for_repository db
       \<lparr>qr_user_id = viewer, qr_owner = owner, qr_repo = repo, qr_permission = p\<rparr> = Inr ()"

text \<open>The check on a repository that exists, permission by permission.\<close>

lemma verify_repository_iff:
  assumes "orgs_wf db" "ids_disjoint db" "repo_get owner repo None db = Inr (Some v)"
  shows "granted db viewer owner repo p
    \<longleftrightarrow> (case p of
          Read \<Rightarrow> visible_to db viewer (repo_row.truncate v)
        | Write \<Rightarrow> \<not> rp_readonly v \<and> (\<exists>u. viewer = Some u \<and> belongs_to db u v)
        | AdminPermission \<Rightarrow> \<exists>u. viewer = Some u \<and> administers db u v)"
proof -
  show ?thesis
  proof (cases "rp_owner_type v")
    case UserOwner
    then show ?thesis
      by (cases p; cases viewer)
        (auto simp: granted_def verify_authorized_for_repository_def assms(3) visible_belongs is_owned_by_user_def belongs_to_def
          administers_def or_unauthorized_def require_def)
  next
    case OrganizationOwner
    then have m: "is_member (rp_owner_id v) u db \<longleftrightarrow> belongs_to db u v" for u
      by (auto simp: is_member_def belongs_to_def list_ex_iff)
    show ?thesis
      using admin_role_administers [OF assms(3,1,2) OrganizationOwner] OrganizationOwner
      by (cases p; cases viewer)
        (auto simp: granted_def verify_authorized_for_repository_def assms(3) visible_belongs m is_owned_by_user_def or_unauthorized_def
          require_def)
  qed
qed

text \<open>
  C10: on a repository that exists, Read is granted exactly to those whom the listings show the
  repository, Write to the owner and the members of the owning organization unless the repository
  is readonly, and Admin to the owner and the admins of the organization, readonly or not; and a
  granted permission entails the weaker ones, except for Write on a readonly repository.
\<close>

theorem repository_permissions_are_ordered:
  assumes "orgs_wf db" "ids_disjoint db" "repo_get owner repo None db = Inr (Some v)"
  shows "(granted db viewer owner repo Read \<longleftrightarrow> visible_to db viewer (repo_row.truncate v))
    \<and> (granted db viewer owner repo Write \<longleftrightarrow> \<not> rp_readonly v \<and> (\<exists>u. viewer = Some u \<and> belongs_to db u v))
    \<and> (granted db viewer owner repo AdminPermission \<longleftrightarrow> (\<exists>u. viewer = Some u \<and> administers db u v))
    \<and> (\<forall>p q. p \<le> q \<and> granted db viewer owner repo q \<and> \<not> (rp_readonly v \<and> p = Write) \<longrightarrow> granted db viewer owner repo p)"
proof -
  note iff = verify_repository_iff [OF assms, where viewer = viewer]
  have "granted db viewer owner repo p" if "p \<le> q" "granted db viewer owner repo q" "\<not> (rp_readonly v \<and> p = Write)" for p q
    using that unfolding iff visible_belongs
    by (cases p; cases q) (auto simp: less_eq_repository_permission_def dest: administers_belongs)
  then show ?thesis by (auto simp: iff)
qed

text \<open>A readonly private repository of an organization: its admin 9 may only administer and read it.\<close>

definition archive :: core_db where
  "archive = empty_core\<lparr>db_users := [demo_user 9 ''al'', demo_user 8 ''bo''],
     db_orgs := [\<lparr>og_id = 5, og_name = ''org'', og_display_name = None, og_location = None, og_readme = None,
       og_links = [], og_created_at = 0, og_image_updated_at = 0\<rparr>],
     db_members := [\<lparr>mr_id = 6, mr_user_id = 9, mr_organization_id = 5, mr_role = Admin,
       mr_role_description = None, mr_created_at = 0\<rparr>],
     db_repos := [(demo_row 7 0 Private ''r'')\<lparr>rp_owner_id := 5, rp_owner_type := OrganizationOwner, rp_readonly := True\<rparr>]\<rparr>"

theorem repository_permissions_are_ordered_witness:
  "granted archive (Some 9) ''org'' ''r'' Read \<and> \<not> granted archive (Some 9) ''org'' ''r'' Write
   \<and> granted archive (Some 9) ''org'' ''r'' AdminPermission \<and> \<not> granted archive (Some 8) ''org'' ''r'' Read"
proof -
  let ?r = "(demo_row 7 0 Private ''r'')\<lparr>rp_owner_id := 5, rp_owner_type := OrganizationOwner, rp_readonly := True\<rparr>"
  let ?v = "repo_row.extend ?r (repository.fields ''org'' False)"
  have g: "repo_get ''org'' ''r'' None archive = Inr (Some ?v)" by code_simp
  have "orgs_wf archive" "ids_disjoint archive"
    by (simp_all add: archive_def empty_core_def orgs_wf_def orgs_ok_def members_ok_def ids_disjoint_def demo_user_def)
  note perm = repository_permissions_are_ordered [OF this g]
  have v: "rp_readonly ?v" "repo_row.truncate ?v = ?r" by (simp_all add: repo_row.extend_def repo_row.truncate_def)
  have "visible_to archive (Some 9) ?r" "\<not> visible_to archive (Some 8) ?r" by code_simp+
  moreover have "administers archive 9 ?v"
    by (simp add: administers_def archive_def empty_core_def repo_row.extend_def)
  ultimately show ?thesis using perm [of "Some 9"] perm [of "Some 8"] v by simp
qed

end
