(* ===== verification/LimitedBody.thy ===== *)
theory LimitedBody
  imports Names
begin

text \<open>
  \<open>gitdot-server/src/util/limited_reader.rs\<close>: the reader that bounds what a compressed body may
  expand to, and what a copy of a body delivers to a process. \<open>tokio::io::copy\<close> is not modelled: how
  much it asks for at each read, and how much of what it read it has written when a read fails, are
  arguments. Numbers of bytes are natural numbers; the counter
  saturates where the source's \<open>u64\<close> does.
\<close>

section \<open>Readers\<close>

datatype body_error = InnerError | LimitExceeded

text \<open>
  What an inner reader will answer: each entry is what is ready at a read, \<open>None\<close> a failure. A read
  takes as much as its buffer holds; an empty answer is the end.
\<close>

type_synonym reads = "string option list"

fun inner_read :: "nat \<Rightarrow> reads \<Rightarrow> (body_error + string) \<times> reads" where
  "inner_read n [] = (Inr [], [])"
| "inner_read n (None # rs) = (Inl InnerError, rs)"
| "inner_read n (Some c # rs) = (Inr (take n c), if length c \<le> n then rs else Some (drop n c) # rs)"

record limited_reader =
  lr_inner :: reads
  lr_read :: nat
  lr_limit :: nat

definition limited_reader_new :: "reads \<Rightarrow> nat \<Rightarrow> limited_reader" where
  "limited_reader_new inner limit = \<lparr>lr_inner = inner, lr_read = 0, lr_limit = limit\<rparr>"

definition U64_MAX :: nat where "U64_MAX = 2 ^ 64 - 1"

text \<open>
  \<open>poll_read\<close> into a buffer of \<open>n\<close> bytes, once it is ready. At the limit a probe of one byte tells a
  clean end from more data.
\<close>

definition limited_poll_read :: "nat \<Rightarrow> limited_reader \<Rightarrow> (body_error + string) \<times> limited_reader" where
  "limited_poll_read n lr =
     (let remaining = lr_limit lr - lr_read lr in
      if remaining = 0
      then (case inner_read 1 (lr_inner lr) of
              (Inl e, rs) \<Rightarrow> (Inl e, lr\<lparr>lr_inner := rs\<rparr>)
            | (Inr probe, rs) \<Rightarrow> (if probe = [] then Inr [] else Inl LimitExceeded, lr\<lparr>lr_inner := rs\<rparr>))
      else (case inner_read (min n remaining) (lr_inner lr) of
              (Inl e, rs) \<Rightarrow> (Inl e, lr\<lparr>lr_inner := rs\<rparr>)
            | (Inr bytes, rs) \<Rightarrow>
                (Inr bytes, lr\<lparr>lr_inner := rs, lr_read := min U64_MAX (lr_read lr + length bytes)\<rparr>)))"

section \<open>Bodies\<close>

datatype body_reader = Plain reads | Limited limited_reader

fun body_read :: "nat \<Rightarrow> body_reader \<Rightarrow> (body_error + string) \<times> body_reader" where
  "body_read n (Plain rs) = (case inner_read n rs of (r, rs') \<Rightarrow> (r, Plain rs'))"
| "body_read n (Limited lr) = (case limited_poll_read n lr of (r, lr') \<Rightarrow> (r, Limited lr'))"

text \<open>\<open>create_body_reader\<close>: \<open>encoding\<close> is the header when it is there and is text.\<close>

definition create_body_reader :: "(reads \<Rightarrow> reads) \<Rightarrow> string option \<Rightarrow> reads \<Rightarrow> nat \<Rightarrow> body_reader" where
  "create_body_reader gunzip encoding body max_decompressed =
     (if (case encoding of None \<Rightarrow> False | Some v \<Rightarrow> map ascii_lower v = ''gzip'')
      then Limited (limited_reader_new (gunzip body) max_decompressed) else Plain body)"

section \<open>Copying\<close>

text \<open>
  What a copy reads before the body ends or fails, one read after the other. The free part of its
  buffer at each read is never empty and otherwise arbitrary: \<open>room i\<close> is its size less one at the
  \<open>i\<close>-th read.
\<close>

definition reads_size :: "reads \<Rightarrow> nat" where
  "reads_size rs = sum_list (map (\<lambda>c. case c of None \<Rightarrow> 1 | Some c \<Rightarrow> Suc (length c)) rs)"

fun body_size :: "body_reader \<Rightarrow> nat" where
  "body_size (Plain rs) = reads_size rs"
| "body_size (Limited lr) = reads_size (lr_inner lr)"

lemma reads_size_simps [simp]:
  "reads_size [] = 0" "reads_size (None # rs) = Suc (reads_size rs)"
  "reads_size (Some c # rs) = Suc (length c + reads_size rs)"
  by (simp_all add: reads_size_def)

lemma inner_read_size:
  assumes "inner_read n rs = (Inr bytes, rs')" and "bytes \<noteq> []"
  shows "reads_size rs' < reads_size rs"
  using assms by (induction n rs rule: inner_read.induct) (auto split: if_splits)

lemma limited_poll_read_size:
  assumes "limited_poll_read n lr = (Inr bytes, lr')" and "bytes \<noteq> []"
  shows "reads_size (lr_inner lr') < reads_size (lr_inner lr)"
  using assms by (auto simp: limited_poll_read_def Let_def dest: inner_read_size split: if_splits prod.splits sum.splits)

lemma body_read_size:
  "body_read n b = (Inr bytes, b') \<Longrightarrow> bytes \<noteq> [] \<Longrightarrow> body_size b' < body_size b"
  by (cases b) (auto dest: inner_read_size limited_poll_read_size split: prod.splits)

function drain :: "(nat \<Rightarrow> nat) \<Rightarrow> nat \<Rightarrow> body_reader \<Rightarrow> body_error option \<times> string" where
  "drain room i b =
     (case body_read (Suc (room i)) b of
        (Inl e, b') \<Rightarrow> (Some e, [])
      | (Inr bytes, b') \<Rightarrow>
          if bytes = [] then (None, [])
          else (case drain room (Suc i) b' of (e, rest) \<Rightarrow> (e, bytes @ rest)))"
  by pat_completeness auto
termination
  by (relation "measure (\<lambda>(room, i, b). body_size b)") (auto intro: body_read_size dest: sym)

declare drain.simps [simp del]

text \<open>
  What the writer has got when the copy returns: everything after a clean end. A copy reads ahead of
  what it has written and gives up when a read fails: then it is a prefix of what was read, \<open>kept\<close>
  its length.
\<close>

definition copied :: "(nat \<Rightarrow> nat) \<Rightarrow> (string \<Rightarrow> nat) \<Rightarrow> body_reader \<Rightarrow> string" where
  "copied room kept b =
     (case drain room 0 b of (None, bytes) \<Rightarrow> bytes | (Some e, bytes) \<Rightarrow> take (kept bytes) bytes)"

section \<open>The limit is exact\<close>

definition ready :: "string list \<Rightarrow> reads" where
  "ready cs = map Some cs"

lemma ready_simps [simp]: "ready [] = []" "ready (c # cs) = Some c # ready cs"
  by (simp_all add: ready_def)

text \<open>A read that may take \<open>n\<close> bytes from what is ready takes some, and leaves the rest ready.\<close>

lemma inner_read_ready:
  assumes "\<forall>c \<in> set cs. c \<noteq> []" and "0 < n" and "concat cs \<noteq> []"
  shows "\<exists>bytes cs'. inner_read n (ready cs) = (Inr bytes, ready cs') \<and> bytes \<noteq> [] \<and> length bytes \<le> n
    \<and> concat cs = bytes @ concat cs' \<and> (\<forall>c \<in> set cs'. c \<noteq> [])"
proof (cases cs)
  case (Cons c ds)
  show ?thesis
  proof (cases "length c \<le> n")
    case True
    then show ?thesis using Cons assms by (intro exI [of _ c] exI [of _ ds]) auto
  next
    case False
    then show ?thesis using Cons assms by (intro exI [of _ "take n c"] exI [of _ "drop n c # ds"]) auto
  qed
qed (use assms in simp)

lemma drain_limited:
  assumes "\<forall>c \<in> set cs. c \<noteq> []" and "k \<le> limit" and "limit \<le> U64_MAX"
  shows "drain room i (Limited \<lparr>lr_inner = ready cs, lr_read = k, lr_limit = limit\<rparr>) =
    (if length (concat cs) \<le> limit - k then (None, concat cs) else (Some LimitExceeded, take (limit - k) (concat cs)))"
  using assms
proof (induction "length (concat cs)" arbitrary: cs k i rule: less_induct)
  case less
  show ?case
  proof (cases "concat cs = []")
    case True
    with less.prems have "cs = []" by (cases cs) auto
    then show ?thesis by (simp add: drain.simps limited_poll_read_def)
  next
    case nonempty: False
    show ?thesis
    proof (cases "limit - k = 0")
      case True
      from inner_read_ready [OF less.prems(1) _ nonempty, of 1] obtain bytes cs'
        where "inner_read 1 (ready cs) = (Inr bytes, ready cs')" "bytes \<noteq> []" by auto
      with True nonempty show ?thesis by (simp add: drain.simps [of room i] limited_poll_read_def)
    next
      case False
      then have "0 < min (Suc (room i)) (limit - k)" by simp
      from inner_read_ready [OF less.prems(1) this nonempty] obtain bytes cs'
        where r: "inner_read (min (Suc (room i)) (limit - k)) (ready cs) = (Inr bytes, ready cs')" "bytes \<noteq> []"
          "length bytes \<le> limit - k" "concat cs = bytes @ concat cs'" "\<forall>c \<in> set cs'. c \<noteq> []" by auto
      have fits: "min U64_MAX (k + length bytes) = k + length bytes" "k + length bytes \<le> limit"
        using r(3) less.prems by auto
      have "length (concat cs') < length (concat cs)" using r(2,4) by simp
      from less.hyps [OF this r(5) fits(2) less.prems(3), of "Suc i"] r False fits(1) show ?thesis
        by (simp add: drain.simps [of room i "Limited \<lparr>lr_inner = ready cs, lr_read = k, lr_limit = limit\<rparr>"] limited_poll_read_def
              del: ready_simps) auto
    qed
  qed
qed

text \<open>A body that is ready as one piece is read whole.\<close>

lemma drain_plain: "drain room i (Plain (ready [bytes])) = (None, bytes)"
proof (induction "length bytes" arbitrary: bytes i rule: less_induct)
  case less
  consider "bytes = []" | "bytes \<noteq> []" "length bytes \<le> Suc (room i)" | "Suc (room i) < length bytes" by linarith
  then show ?case
  proof cases
    case 1
    then show ?thesis by (simp add: drain.simps)
  next
    case 2
    then show ?thesis by (simp add: drain.simps [of room i] drain.simps [of room "Suc i"])
  next
    case 3
    then have "drain room (Suc i) (Plain (ready [drop (Suc (room i)) bytes])) = (None, drop (Suc (room i)) bytes)"
      by (intro less) simp
    with 3 show ?thesis by (auto simp: drain.simps [of room i])
  qed
qed

lemma copied_plain: "copied room kept (Plain (ready [bytes])) = bytes"
  by (simp add: copied_def drain_plain del: ready_simps)

end
