(* ===== verification/GitHttp.thy ===== *)
theory GitHttp
  imports Forge LimitedBody
begin

text \<open>
  \<open>client/git_http.rs\<close> and \<open>service/core/git_http.rs\<close>: the smart HTTP protocol through
  \<open>git http-backend\<close>, whose CGI output is split into a status, headers and a body, either at once
  or from the chunks of a pipe. What the process writes, and how it ends, is an argument.
\<close>

section \<open>Errors and responses\<close>

datatype git_http_error =
    GitHttpInput input_error
  | SpawnError
  | WriteError
  | ReadError
  | ProcessFailed int string
  | GitHttpTimeout
  | InvalidCgiResponse string

text \<open>A streamed body is the list of the chunks that the client will see.\<close>

datatype git_http_body = Buffered string | Chunks "string list"

record git_http_response =
  gh_status :: nat
  gh_headers :: "(string \<times> string) list"
  gh_body :: git_http_body

section \<open>CGI output\<close>

abbreviation crlf :: string where "crlf \<equiv> [CHR 0x0D, CHR 0x0A]"
abbreviation newline :: string where "newline \<equiv> [CHR 0x0A]"

text \<open>The first position of a text, and \<open>split_once\<close>.\<close>

fun find_at :: "string \<Rightarrow> string \<Rightarrow> nat option" where
  "find_at pat [] = (if pat = [] then Some 0 else None)"
| "find_at pat (c # s) = (if take (length pat) (c # s) = pat then Some 0 else map_option Suc (find_at pat s))"

definition split_once :: "string \<Rightarrow> string \<Rightarrow> (string \<times> string) option" where
  "split_once pat s = map_option (\<lambda>i. (take i s, drop (i + length pat) s)) (find_at pat s)"

text \<open>\<open>str::lines\<close>: lines end with a newline, which goes with a carriage return before it.\<close>

definition chop_cr :: "string \<Rightarrow> string" where
  "chop_cr l = (if l \<noteq> [] \<and> last l = CHR 0x0D then butlast l else l)"

fun str_lines_from :: "string \<Rightarrow> string \<Rightarrow> string list" where
  "str_lines_from acc [] = (if acc = [] then [] else [rev acc])"
| "str_lines_from acc (c # s) =
     (if c = CHR 0x0A then chop_cr (rev acc) # str_lines_from [] s else str_lines_from (c # acc) s)"

definition str_lines :: "string \<Rightarrow> string list" where
  "str_lines s = str_lines_from [] s"

text \<open>\<open>split_whitespace().next()\<close> and \<open>u16::from_str\<close>, which accepts a plus sign.\<close>

fun up_to_space :: "string \<Rightarrow> string" where
  "up_to_space [] = []"
| "up_to_space (c # s) = (if list_ex (\<lambda>w. take (length w) (c # s) = w) white_space then [] else c # up_to_space s)"

definition first_word :: "string \<Rightarrow> string option" where
  "first_word s = (let t = strip_all white_space s in if t = [] then None else Some (up_to_space t))"

definition parse_u16 :: "string \<Rightarrow> nat option" where
  "parse_u16 s =
     (let ds = (case s of c # rest \<Rightarrow> if c = CHR ''+'' then rest else s | [] \<Rightarrow> s)
      in if ds = [] \<or> \<not> list_all is_digit ds \<or> 65535 < int (read_nat ds) then None else Some (read_nat ds))"

text \<open>
  The headers: \<open>Status\<close>, in any case, sets the status and is no header. \<open>lossy\<close> is
  \<open>String::from_utf8_lossy\<close>.
\<close>

definition is_status :: "string \<Rightarrow> bool" where
  "is_status name \<longleftrightarrow> map ascii_lower name = ''status''"

definition header_step :: "nat \<times> (string \<times> string) list \<Rightarrow> string \<Rightarrow> nat \<times> (string \<times> string) list" where
  "header_step st line =
     (case split_once '': '' line of
        None \<Rightarrow> st
      | Some (name, v) \<Rightarrow>
          if is_status name
          then (case first_word v of
                  None \<Rightarrow> st
                | Some code \<Rightarrow> ((case parse_u16 code of None \<Rightarrow> 200 | Some n \<Rightarrow> n), snd st))
          else (fst st, snd st @ [(name, v)]))"

definition parse_cgi_headers :: "(string \<Rightarrow> string) \<Rightarrow> string \<Rightarrow> nat \<times> (string \<times> string) list" where
  "parse_cgi_headers lossy bytes = foldl header_step (200, []) (str_lines (lossy bytes))"

definition find_header_separator :: "string \<Rightarrow> (nat \<times> nat) option" where
  "find_header_separator out =
     (case find_at (crlf @ crlf) out of
        Some i \<Rightarrow> Some (i, 4)
      | None \<Rightarrow> map_option (\<lambda>i. (i, 2)) (find_at (newline @ newline) out))"

definition parse_cgi_response :: "(string \<Rightarrow> string) \<Rightarrow> string \<Rightarrow> git_http_error + git_http_response" where
  "parse_cgi_response lossy out =
     (case find_header_separator out of
        None \<Rightarrow> Inl (InvalidCgiResponse ''Missing header/body separator'')
      | Some (i, n) \<Rightarrow>
          (case parse_cgi_headers lossy (take i out) of
             (status, headers) \<Rightarrow> Inr \<lparr>gh_status = status, gh_headers = headers, gh_body = Buffered (drop (i + n) out)\<rparr>))"

text \<open>
  \<open>read_until_cgi_separator\<close>: \<open>None\<close> is a read that fails, an empty read the end of the output. The
  result is the buffer, the separator in it and the reads that are left.
\<close>

fun read_until_cgi_separator ::
  "string \<Rightarrow> string option list \<Rightarrow> git_http_error + string \<times> (nat \<times> nat) \<times> string option list"
where
  "read_until_cgi_separator buf [] = Inl (InvalidCgiResponse ''EOF before CGI header separator'')"
| "read_until_cgi_separator buf (None # reads) = Inl ReadError"
| "read_until_cgi_separator buf (Some chunk # reads) =
     (if chunk = [] then Inl (InvalidCgiResponse ''EOF before CGI header separator'')
      else (case find_header_separator (buf @ chunk) of
              Some sep \<Rightarrow> Inr (buf @ chunk, sep, reads)
            | None \<Rightarrow> read_until_cgi_separator (buf @ chunk) reads))"

text \<open>The stream of a body ends with the output; a read that fails ends what the client sees.\<close>

fun chunks_until_end :: "string option list \<Rightarrow> string list" where
  "chunks_until_end (Some chunk # reads) = (if chunk = [] then [] else chunk # chunks_until_end reads)"
| "chunks_until_end _ = []"

definition stream_response :: "(string \<Rightarrow> string) \<Rightarrow> string option list \<Rightarrow> git_http_error + git_http_response" where
  "stream_response lossy reads =
     and_then (read_until_cgi_separator [] reads) (\<lambda>(buf, (i, n), rest).
       (case parse_cgi_headers lossy (take i buf) of
          (status, headers) \<Rightarrow>
            (let leftover = drop (i + n) buf
             in Inr \<lparr>gh_status = status, gh_headers = headers,
                     gh_body = Chunks ((if leftover = [] then [] else [leftover]) @ chunks_until_end rest)\<rparr>)))"

section \<open>The client and the service\<close>

text \<open>How a run of the process ends; without an exit code, -1 is reported.\<close>

datatype backend_run =
    NotSpawned
  | TimedOut
  | Unreadable
  | Exited "int option" string string

datatype backend_pipe =
    PipeNotSpawned
  | PipeTimedOut
  | Piped "string option list"

text \<open>
  \<open>ge_run\<close> and \<open>ge_pipe\<close> are the process, given \<open>PATH_INFO\<close> and the query string, or \<open>PATH_INFO\<close>, the
  content type, the bytes it is given and the variables of the environment. \<open>ge_room\<close> and
  \<open>ge_kept\<close> are how the copy to it reads and what it has written when a read fails (\<open>copied\<close>).
\<close>

record git_http_env =
  ge_lossy :: "string \<Rightarrow> string"
  ge_run :: "string \<Rightarrow> string \<Rightarrow> backend_run"
  ge_pipe :: "string \<Rightarrow> string \<Rightarrow> string \<Rightarrow> (string \<times> string) list \<Rightarrow> backend_pipe"
  ge_room :: "nat \<Rightarrow> nat"
  ge_kept :: "string \<Rightarrow> nat"

definition client_info_refs :: "git_http_env \<Rightarrow> string \<Rightarrow> string \<Rightarrow> string \<Rightarrow> git_http_error + git_http_response" where
  "client_info_refs genv owner repo service =
     (case ge_run genv (''/'' @ owner @ ''/'' @ normalize_repo_name repo @ ''/info/refs'') (''service='' @ service) of
        NotSpawned \<Rightarrow> Inl SpawnError
      | TimedOut \<Rightarrow> Inl GitHttpTimeout
      | Unreadable \<Rightarrow> Inl ReadError
      | Exited code stderr stdout \<Rightarrow>
          if code = Some 0 then parse_cgi_response (ge_lossy genv) stdout
          else Inl (ProcessFailed (case code of Some c \<Rightarrow> c | None \<Rightarrow> - 1) (ge_lossy genv stderr)))"

text \<open>The body is copied to the process until it ends or fails; a failure is dropped.\<close>

definition service_rpc ::
  "git_http_env \<Rightarrow> string \<Rightarrow> string \<Rightarrow> string \<Rightarrow> string \<Rightarrow> body_reader \<Rightarrow> (string \<times> string) list
    \<Rightarrow> git_http_error + git_http_response"
where
  "service_rpc genv owner repo service content_type body vars =
     (case ge_pipe genv (''/'' @ owner @ ''/'' @ normalize_repo_name repo @ ''/git-'' @ service) content_type
         (copied (ge_room genv) (ge_kept genv) body) vars of
        PipeNotSpawned \<Rightarrow> Inl SpawnError
      | PipeTimedOut \<Rightarrow> Inl GitHttpTimeout
      | Piped reads \<Rightarrow> stream_response (ge_lossy genv) reads)"

record info_refs_request =
  iq_owner :: string
  iq_repo :: string
  iq_service :: string

definition info_refs_request_new ::
  "(string \<Rightarrow> string) \<Rightarrow> string \<Rightarrow> string \<Rightarrow> string \<Rightarrow> git_http_error + info_refs_request"
where
  "info_refs_request_new lower owner repo service =
     and_then (map_err GitHttpInput (owner_name_parse lower owner ''owner name'')) (\<lambda>o'.
     and_then (map_err GitHttpInput (repository_name_parse lower repo ''repository name'')) (\<lambda>r'.
     and_then (map_err GitHttpInput (git_service_parse service ''service'')) (\<lambda>s'.
     Inr \<lparr>iq_owner = o', iq_repo = r', iq_service = s'\<rparr>)))"

text \<open>The requests of the two packs; only a push carries a pusher.\<close>

record pack_request =
  kq_pusher_id :: "uuid option"
  kq_owner :: string
  kq_repo :: string
  kq_content_type :: string
  kq_body :: body_reader

definition pack_request_new ::
  "(string \<Rightarrow> string) \<Rightarrow> uuid option \<Rightarrow> string \<Rightarrow> string \<Rightarrow> string \<Rightarrow> body_reader \<Rightarrow> git_http_error + pack_request"
where
  "pack_request_new lower pusher_id owner repo content_type body =
     and_then (map_err GitHttpInput (owner_name_parse lower owner ''owner name'')) (\<lambda>o'.
     and_then (map_err GitHttpInput (repository_name_parse lower repo ''repository name'')) (\<lambda>r'.
     and_then (map_err GitHttpInput (git_content_type_parse content_type ''content type'')) (\<lambda>t'.
     Inr \<lparr>kq_pusher_id = pusher_id, kq_owner = o', kq_repo = r', kq_content_type = t', kq_body = body\<rparr>)))"

definition info_refs :: "git_http_env \<Rightarrow> info_refs_request \<Rightarrow> git_http_error + git_http_response" where
  "info_refs genv q = client_info_refs genv (iq_owner q) (iq_repo q) (iq_service q)"

definition upload_pack :: "git_http_env \<Rightarrow> pack_request \<Rightarrow> git_http_error + git_http_response" where
  "upload_pack genv q = service_rpc genv (kq_owner q) (kq_repo q) ''upload-pack'' (kq_content_type q) (kq_body q) []"

definition receive_pack :: "(uuid \<Rightarrow> string) \<Rightarrow> git_http_env \<Rightarrow> pack_request \<Rightarrow> git_http_error + git_http_response" where
  "receive_pack to_text genv q =
     service_rpc genv (kq_owner q) (kq_repo q) ''receive-pack'' (kq_content_type q) (kq_body q)
       (case kq_pusher_id q of None \<Rightarrow> [] | Some i \<Rightarrow> [(''GITDOT_PUSHER_ID'', to_text i)])"


section \<open>A streamed answer is the buffered one\<close>

lemma find_at_Some:
  "pat \<noteq> [] \<Longrightarrow> find_at pat s = Some i \<longleftrightarrow>
     take (length pat) (drop i s) = pat \<and> (\<forall>j < i. take (length pat) (drop j s) \<noteq> pat)"
proof (induction pat s arbitrary: i rule: find_at.induct)
  case (2 pat c s)
  show ?case
  proof (cases i)
    case 0
    then show ?thesis by simp
  next
    case (Suc k)
    then show ?thesis using 2 by (auto simp: less_Suc_eq_0_disj)
  qed
qed auto

lemma find_at_None:
  "pat \<noteq> [] \<Longrightarrow> find_at pat s = None \<longleftrightarrow> (\<forall>j. take (length pat) (drop j s) \<noteq> pat)"
proof (induction pat s rule: find_at.induct)
  case (2 pat c s)
  have "(\<forall>j. take (length pat) (drop j (c # s)) \<noteq> pat)
      \<longleftrightarrow> take (length pat) (c # s) \<noteq> pat \<and> (\<forall>j. take (length pat) (drop j s) \<noteq> pat)"
    by (metis (no_types, lifting) drop0 drop_Suc_Cons old.nat.exhaust)
  then show ?case using 2 by simp
qed auto

lemma take_drop_take:
  assumes "pat \<noteq> []" and "n \<le> length s"
  shows "take (length pat) (drop j (take n s)) = pat \<longleftrightarrow> j + length pat \<le> n \<and> take (length pat) (drop j s) = pat"
proof (cases "j + length pat \<le> n")
  case True
  then show ?thesis by (simp add: drop_take take_take min_def)
next
  case False
  have "length (take (length pat) (drop j (take n s))) < length pat" using False assms by (cases pat) auto
  then show ?thesis using False by auto
qed

text \<open>
  When the headers end with an empty CRLF line and hold no empty LF line, the separator is found
  in every prefix of the output that reaches behind it, and in no shorter one.
\<close>

definition crlf_headers :: "string \<Rightarrow> nat \<Rightarrow> bool" where
  "crlf_headers out i \<longleftrightarrow> find_at (crlf @ crlf) out = Some i \<and> find_at (newline @ newline) (take i out) = None"

lemma separator_of_prefix:
  assumes h: "crlf_headers out i" and n: "n \<le> length out"
  shows "find_header_separator (take n out) = (if i + 4 \<le> n then Some (i, 4) else None)"
proof -
  let ?p = "crlf @ crlf" and ?q = "newline @ newline"
  have ne: "?p \<noteq> []" "?q \<noteq> []" and l: "length ?p = 4" "length ?q = 2" by simp_all
  note p_at = find_at_Some [OF ne(1), unfolded l] and p_none = find_at_None [OF ne(1), unfolded l]
  note q_none = find_at_None [OF ne(2), unfolded l]
  note p = take_drop_take [OF ne(1) n, unfolded l] and q = take_drop_take [OF ne(2), unfolded l]
  from h have at: "take 4 (drop i out) = ?p" and first: "\<And>j. j < i \<Longrightarrow> take 4 (drop j out) \<noteq> ?p"
    and none: "\<And>j. take 2 (drop j (take i out)) \<noteq> ?q"
    unfolding crlf_headers_def p_at q_none by blast+
  have len: "i + 4 \<le> length out"
  proof -
    have "length (take 4 (drop i out)) = 4" unfolding at by simp
    then show ?thesis by simp
  qed
  show ?thesis
  proof (cases "i + 4 \<le> n")
    case True
    then have "find_at ?p (take n out) = Some i" unfolding p_at p using at first by blast
    with True show ?thesis unfolding find_header_separator_def by simp
  next
    case False
    have "\<not> (j + 4 \<le> n \<and> take 4 (drop j out) = ?p)" for j
      using first [of j] False by (cases "j < i") auto
    then have 1: "find_at ?p (take n out) = None" unfolding p_none p by blast
    have "\<not> (j + 2 \<le> n \<and> take 2 (drop j out) = ?q)" for j
    proof
      assume j: "j + 2 \<le> n \<and> take 2 (drop j out) = ?q"
      show False
      proof (cases "j + 2 \<le> i")
        case True
        with q [of i out j] j none [of j] len show False by simp
      next
        case later: False
        have o: "out ! (i + k) = ?p ! k" if "k < 4" for k
          using arg_cong [OF at, of "\<lambda>l. l ! k"] that len by simp
        have q: "out ! (j + k) = ?q ! k" if "k < 2" for k
        proof -
          have "j \<le> length out" using conjunct1 [OF j] n by linarith
          then show ?thesis using arg_cong [OF conjunct2 [OF j], of "\<lambda>l. l ! k"] that by (simp del: nth_Cons')
        qed
        from later False j have "j + 1 = i \<or> j = i \<or> j = i + 1" by auto
        then show False
          using o [of 0] o [of 2] q [of 0] q [of 1] by auto
      qed
    qed
    then have "find_at ?q (take n out) = None" unfolding q_none q [OF n] by blast
    with 1 False show ?thesis unfolding find_header_separator_def by simp
  qed
qed


lemma read_until_cut:
  assumes sep: "\<And>n. n \<le> length out \<Longrightarrow> find_header_separator (take n out) = (if m \<le> n then Some s else None)"
    and "buf @ concat cs = out" and "length buf < m" and "m \<le> length out" and "\<forall>c \<in> set cs. c \<noteq> []"
  shows "\<exists>k rest. read_until_cgi_separator buf (ready cs) = Inr (take k out, s, ready rest) \<and> m \<le> k
    \<and> take k out @ concat rest = out \<and> (\<forall>c \<in> set rest. c \<noteq> [])"
  using assms(2-)
proof (induction cs arbitrary: buf)
  case (Cons c cs)
  let ?n = "length (buf @ c)"
  have t: "take ?n out = buf @ c" using Cons.prems(1) by auto
  have f: "find_header_separator (buf @ c) = (if m \<le> ?n then Some s else None)"
    using sep [of ?n] t Cons.prems(1) by auto
  show ?case
  proof (cases "m \<le> ?n")
    case True
    show ?thesis by (intro exI [of _ ?n] exI [of _ cs]) (use True f t Cons.prems in auto)
  next
    case False
    with Cons.IH [of "buf @ c"] Cons.prems f show ?thesis by auto
  qed
qed simp

lemma chunks_of_ready [simp]: "\<forall>c \<in> set cs. c \<noteq> [] \<Longrightarrow> chunks_until_end (ready cs) = cs"
  by (induction cs) auto

fun body_text :: "git_http_body \<Rightarrow> string" where
  "body_text (Buffered s) = s"
| "body_text (Chunks cs) = concat cs"

text \<open>
  C15: however the pipe cuts the output of the process, a streamed answer has the status, the headers
  and the body that parsing the whole output gives, provided that the headers end with an empty CRLF
  line and hold no empty LF line.
\<close>

theorem streamed_answer_is_the_buffered_one:
  assumes "crlf_headers (concat chunks) i" and "\<forall>c \<in> set chunks. c \<noteq> []"
  shows "\<exists>whole streamed. parse_cgi_response lossy (concat chunks) = Inr whole
    \<and> stream_response lossy (ready chunks) = Inr streamed
    \<and> gh_status streamed = gh_status whole \<and> gh_headers streamed = gh_headers whole
    \<and> body_text (gh_body streamed) = body_text (gh_body whole)"
proof -
  let ?out = "concat chunks"
  note sep = separator_of_prefix [OF assms(1)]
  have len: "i + 4 \<le> length ?out"
    using assms(1) sep [of "length ?out"]
    by (simp add: crlf_headers_def find_header_separator_def split: if_splits)
  then have whole: "find_header_separator ?out = Some (i, 4)" using sep [of "length ?out"] by simp
  from read_until_cut [OF sep, of "[]" chunks] assms(2) len obtain k rest
    where r: "read_until_cgi_separator [] (ready chunks) = Inr (take k ?out, (i, 4), ready rest)" "i + 4 \<le> k"
      "take k ?out @ concat rest = ?out" "\<forall>c \<in> set rest. c \<noteq> []" by auto
  have headers: "take i (take k ?out) = take i ?out" using r(2) by (simp add: min_def)
  have "drop (i + 4) (take k ?out @ concat rest) = drop (i + 4) (take k ?out) @ concat rest"
    using r(2) len arg_cong [OF r(3), of length] by simp
  then have body: "drop (i + 4) (take k ?out) @ concat rest = drop (i + 4) ?out" using r(3) by simp
  show ?thesis
    using whole r(1,4) headers body
    by (auto simp: parse_cgi_response_def stream_response_def Let_def split: prod.splits)
qed

section \<open>At work\<close>

text \<open>A process that answers a fixed text, cut into three reads.\<close>

definition demo_output :: "string list" where
  "demo_output = [''Status: 403 No'' @ [CHR 0x0D], newline @ ''A: b'' @ crlf @ [CHR 0x0D], newline @ ''no'', ''pe'']"

definition demo_backend :: git_http_env where
  "demo_backend = \<lparr>ge_lossy = id, ge_run = (\<lambda>_ _. Exited (Some 0) [] (concat demo_output)),
     ge_pipe = (\<lambda>_ _ _ _. Piped (ready demo_output)), ge_room = (\<lambda>_. 8191), ge_kept = (\<lambda>_. 3)\<rparr>"

lemma demo_answer: "\<exists>r. stream_response id (ready demo_output) = Inr r"
proof -
  have "map_sum (\<lambda>_. ()) gh_status (stream_response id (ready demo_output)) = Inr 403" by code_simp
  then show ?thesis by (cases "stream_response id (ready demo_output)") simp_all
qed

theorem streamed_answer_is_the_buffered_one_witness:
  "crlf_headers (concat demo_output) 20
   \<and> (\<exists>streamed. stream_response id (ready demo_output) = Inr streamed \<and> gh_status streamed = 403
       \<and> gh_headers streamed = [(''A'', ''b'')] \<and> body_text (gh_body streamed) = ''nope'')"
proof -
  have h: "crlf_headers (concat demo_output) 20" by code_simp
  have "\<forall>c \<in> set demo_output. c \<noteq> []" by (simp add: demo_output_def)
  note same = streamed_answer_is_the_buffered_one [OF h this, of id]
  have "parse_cgi_response id (concat demo_output)
      = Inr \<lparr>gh_status = 403, gh_headers = [(''A'', ''b'')], gh_body = Buffered ''nope''\<rparr>" by code_simp
  with same h show ?thesis by auto
qed

end
