(* ===== verification/AppErrors.thy ===== *)
theory AppErrors
  imports RepoBrowse Authz GitHttp
begin

text \<open>
  \<open>gitdot-server/src/app/error.rs\<close>: the errors of the services as HTTP responses, and what the
  handlers share: reading the names in a path, asking the authorization service, answering.
\<close>

section \<open>Errors and their status\<close>

datatype token_extraction_error = MissingHeader | InvalidHeaderFormat | InvalidPublicKey string | InvalidToken string | TokenUnauthorized

text \<open>The variants that the modelled handlers raise.\<close>

datatype app_error =
    AppTokenExtraction token_extraction_error
  | AppAuthorization authorization_error
  | AppUser user_error
  | AppOrganization organization_error
  | AppRepository repository_error
  | AppCommit commit_error
  | AppQuestion question_error
  | AppGitHttp git_http_error

fun authorization_status :: "authorization_error \<Rightarrow> nat" where
  "authorization_status Unauthorized = 401"
| "authorization_status ReadonlyRepository = 403"
| "authorization_status (AuthInput _) = 400"
| "authorization_status (AuthNotFound _) = 404"
| "authorization_status (AuthDatabaseError _) = 500"

fun user_status :: "user_error \<Rightarrow> nat" where
  "user_status (UserInput _) = 400"
| "user_status (UserNotFound _) = 404"
| "user_status (UserConflict _) = 409"
| "user_status (UserInvalidImage _) = 422"
| "user_status (UserR2Error _) = 500"
| "user_status (UserDatabaseError _) = 500"
| "user_status (UserGitError _) = 500"

fun organization_status :: "organization_error \<Rightarrow> nat" where
  "organization_status (OrgInput _) = 400"
| "organization_status (OrgNotFound _) = 404"
| "organization_status (OrgConflict _) = 409"
| "organization_status (OrgInvalidImage _) = 422"
| "organization_status (OrgR2Error _) = 500"
| "organization_status (OrgDatabaseError _) = 500"

fun repository_status :: "repository_error \<Rightarrow> nat" where
  "repository_status (RepositoryInput _) = 400"
| "repository_status TooManyPaths = 400"
| "repository_status (RepositoryNotFound _) = 404"
| "repository_status (NotAFile _) = 404"
| "repository_status (RepositoryConflict _) = 409"
| "repository_status (RepositoryGitError _) = 500"
| "repository_status (RepositoryDatabaseError _) = 500"

fun commit_status :: "commit_error \<Rightarrow> nat" where
  "commit_status (CommitInput _) = 400"
| "commit_status (CommitNotFound _) = 404"
| "commit_status (CommitGitError _) = 500"
| "commit_status (CommitDatabaseError _) = 500"

fun question_status :: "question_error \<Rightarrow> nat" where
  "question_status (QuestionInput _) = 400"
| "question_status (QuestionNotFound _) = 404"
| "question_status (QuestionDatabaseError _) = 500"

fun git_http_status :: "git_http_error \<Rightarrow> nat" where
  "git_http_status (GitHttpInput _) = 400"
| "git_http_status GitHttpTimeout = 504"
| "git_http_status _ = 500"

fun app_status :: "app_error \<Rightarrow> nat" where
  "app_status (AppTokenExtraction _) = 401"
| "app_status (AppAuthorization e) = authorization_status e"
| "app_status (AppUser e) = user_status e"
| "app_status (AppOrganization e) = organization_status e"
| "app_status (AppRepository e) = repository_status e"
| "app_status (AppCommit e) = commit_status e"
| "app_status (AppQuestion e) = question_status e"
| "app_status (AppGitHttp e) = git_http_status e"

text \<open>
  \<open>into_response\<close>: an internal error shows only the canonical reason of its status. \<open>to_text\<close> is
  \<open>to_string\<close> of the error.
\<close>

definition canonical_reason :: "nat \<Rightarrow> string" where
  "canonical_reason status = (if status = 504 then ''Gateway Timeout'' else ''Internal Server Error'')"

definition into_response :: "(app_error \<Rightarrow> string) \<Rightarrow> app_error \<Rightarrow> nat \<times> string" where
  "into_response to_text e =
     (let status = app_status e
      in (status, if 500 \<le> status \<and> status < 600 then canonical_reason status else to_text e))"

section \<open>Handlers\<close>

text \<open>
  A handler answers an error, or a status and a value. The caller is the user whose token the
  extractor accepted, if any: \<open>Principal<User>\<close> demands one, \<open>Option<Principal<User>>\<close> does not.
\<close>

type_synonym 'a handler = "forge \<Rightarrow> (app_error + nat \<times> 'a) \<times> forge"

definition signed_in :: "uuid option \<Rightarrow> (uuid \<Rightarrow> 'a handler) \<Rightarrow> 'a handler" where
  "signed_in caller f = (case caller of None \<Rightarrow> answer_with (Inl (AppTokenExtraction MissingHeader)) | Some u \<Rightarrow> f u)"

definition authorized_repository ::
  "forge_env \<Rightarrow> uuid option \<Rightarrow> string \<Rightarrow> string \<Rightarrow> repository_permission \<Rightarrow> 'a handler \<Rightarrow> 'a handler"
where
  "authorized_repository env caller owner repo p f w =
     then_do (map_err AppAuthorization
         (and_then (repository_authorization_request_new (fe_lower env) caller owner repo p)
           (verify_authorized_for_repository (fg_core w))), w) (\<lambda>_. f)"

definition authorized_creation ::
  "forge_env \<Rightarrow> uuid \<Rightarrow> string \<Rightarrow> string \<Rightarrow> 'a handler \<Rightarrow> 'a handler"
where
  "authorized_creation env caller owner type_name f w =
     then_do (map_err AppAuthorization
         (and_then (owner_authorization_request_new (fe_lower env) caller owner type_name)
           (verify_authorized_for_repository_creation (fe_lower env) (fg_core w))), w) (\<lambda>_. f)"

definition authorized_organization :: "forge_env \<Rightarrow> uuid \<Rightarrow> string \<Rightarrow> 'a handler \<Rightarrow> 'a handler" where
  "authorized_organization env caller org f w =
     then_do (map_err AppAuthorization
         (and_then (organization_authorization_request_new (fe_lower env) caller org)
           (verify_authorized_for_organization (fg_core w))), w) (\<lambda>_. f)"

definition authorized_member :: "forge_env \<Rightarrow> uuid \<Rightarrow> string \<Rightarrow> uuid \<Rightarrow> 'a handler \<Rightarrow> 'a handler" where
  "authorized_member env caller org member_id f w =
     then_do (map_err AppAuthorization
         (and_then (member_authorization_request_new (fe_lower env) caller org member_id)
           (verify_authorized_for_organization_member (fg_core w))), w) (\<lambda>_. f)"

text \<open>The names of a path, as the requests of the repository service parse them.\<close>

definition path_names :: "(input_error \<Rightarrow> app_error) \<Rightarrow> forge_env \<Rightarrow> string \<Rightarrow> string \<Rightarrow> app_error + string \<times> string" where
  "path_names err env owner repo =
     and_then (map_err err (owner_name_parse (fe_lower env) owner ''owner name'')) (\<lambda>o'.
     and_then (map_err err (repository_name_parse (fe_lower env) repo ''repository name'')) (\<lambda>r'.
     Inr (o', r')))"

text \<open>\<open>map_err(AppError::from).map(..)\<close> of an answer that reads, and of one that may write.\<close>

definition reply :: "('e \<Rightarrow> app_error) \<Rightarrow> nat \<Rightarrow> 'e + 'a \<Rightarrow> app_error + nat \<times> 'a" where
  "reply err status r = map_sum err (\<lambda>v. (status, v)) r"

definition replying :: "('e \<Rightarrow> app_error) \<Rightarrow> nat \<Rightarrow> ('e + 'a) \<times> forge \<Rightarrow> (app_error + nat \<times> 'a) \<times> forge" where
  "replying err status rw = (reply err status (fst rw), snd rw)"

lemma reply_Inr [simp]: "reply err status r = Inr a \<longleftrightarrow> (\<exists>v. r = Inr v \<and> a = (status, v))"
  by (cases r) (auto simp: reply_def)

lemma replying_simps [simp]:
  "fst (replying err status rw) = reply err status (fst rw)" "snd (replying err status rw) = snd rw"
  by (simp_all add: replying_def)

end
