(* ===== verification/RepoHandlers.thy ===== *)
theory RepoHandlers
  imports AppErrors
begin

text \<open>
  \<open>gitdot-server/src/handler/repository\<close>: the endpoints of a repository. Every handler asks the
  authorization service, builds the request of the core service and answers what the service
  answers. \<open>dec\<close> decodes a cursor and \<open>now\<close> is the clock. The result \<open>None\<close> is a panic.
\<close>

section \<open>One repository\<close>

record create_repository_body =
  by_owner_type :: string
  by_visibility :: string
  by_description :: "string option"
  by_init_readme :: bool
  by_gitignore :: "string option"
  by_license :: "string option"

definition http_create_repository ::
  "forge_env \<Rightarrow> forge_io \<Rightarrow> uuid option \<Rightarrow> string \<Rightarrow> string \<Rightarrow> create_repository_body \<Rightarrow> repository_response handler"
where
  "http_create_repository env io caller owner repo body =
     signed_in caller (\<lambda>user.
     authorized_creation env user owner (by_owner_type body) (\<lambda>w.
     then_do (map_err AppRepository (create_repository_request_new (fe_lower env) repo user owner (by_owner_type body)
         (by_visibility body) (by_description body) (by_init_readme body) (by_gitignore body) (by_license body)), w)
       (\<lambda>req w. replying AppRepository 201 (create_repository env io req w))))"

definition http_get_repository :: "forge_env \<Rightarrow> uuid option \<Rightarrow> string \<Rightarrow> string \<Rightarrow> repository_response handler" where
  "http_get_repository env caller owner repo =
     authorized_repository env caller owner repo Read (\<lambda>w.
     then_do (path_names (AppRepository \<circ> RepositoryInput) env owner repo, w) (\<lambda>(o', r') w.
     (reply AppRepository 200 (get_repository o' r' caller (fg_core w)), w)))"

definition http_update_repository ::
  "forge_env \<Rightarrow> uuid option \<Rightarrow> string \<Rightarrow> string \<Rightarrow> string option \<Rightarrow> bool option \<Rightarrow> repository_response handler"
where
  "http_update_repository env caller owner repo description readonly =
     signed_in caller (\<lambda>user.
     authorized_repository env (Some user) owner repo AdminPermission (\<lambda>w.
     then_do (map_err AppRepository (update_repository_request_new (fe_lower env) owner repo description readonly), w)
       (\<lambda>req w. replying AppRepository 200 (update_repository req w))))"

definition http_delete_repository :: "forge_env \<Rightarrow> forge_io \<Rightarrow> uuid option \<Rightarrow> string \<Rightarrow> string \<Rightarrow> unit handler" where
  "http_delete_repository env io caller owner repo =
     signed_in caller (\<lambda>user.
     authorized_repository env (Some user) owner repo AdminPermission (\<lambda>w.
     then_do (path_names (AppRepository \<circ> RepositoryInput) env owner repo, w) (\<lambda>(o', r') w.
     replying AppRepository 200 (delete_repository io o' r' w))))"

section \<open>Files\<close>

text \<open>The requests for files parse the repository before the owner.\<close>

definition file_names :: "forge_env \<Rightarrow> string \<Rightarrow> string \<Rightarrow> app_error + repo_key" where
  "file_names env repo owner =
     map_err (AppRepository \<circ> RepositoryInput)
       (and_then (repository_name_parse (fe_lower env) repo ''repository name'') (\<lambda>r'.
        and_then (owner_name_parse (fe_lower env) owner ''owner name'') (\<lambda>o'.
        Inr (o', r'))))"

definition http_get_repository_blob ::
  "forge_env \<Rightarrow> uuid option \<Rightarrow> string \<Rightarrow> string \<Rightarrow> string \<Rightarrow> string \<Rightarrow> string handler"
where
  "http_get_repository_blob env caller owner repo ref_name path =
     authorized_repository env caller owner repo Read (\<lambda>w.
     then_do (file_names env repo owner, w) (\<lambda>key w.
     (reply AppRepository 200 (get_repository_blob env key ref_name path), w)))"

definition http_get_repository_blobs ::
  "forge_env \<Rightarrow> uuid option \<Rightarrow> string \<Rightarrow> string \<Rightarrow> string list \<Rightarrow> string list \<Rightarrow> string list handler"
where
  "http_get_repository_blobs env caller owner repo refs paths =
     authorized_repository env caller owner repo Read (\<lambda>w.
     then_do (map_err AppRepository (get_repository_blobs_request_new (fe_lower env) repo owner refs paths), w)
       (\<lambda>(key, refs, paths) w. (reply AppRepository 200 (get_repository_blobs env key paths refs), w)))"

definition http_get_repository_paths ::
  "forge_env \<Rightarrow> uuid option \<Rightarrow> string \<Rightarrow> string \<Rightarrow> string \<Rightarrow> string list handler"
where
  "http_get_repository_paths env caller owner repo ref_name =
     authorized_repository env caller owner repo Read (\<lambda>w.
     then_do (file_names env repo owner, w) (\<lambda>key w.
     (reply AppRepository 200 (get_repository_paths env key ref_name), w)))"

section \<open>Commits\<close>

definition http_get_repository_commit ::
  "forge_env \<Rightarrow> uuid option \<Rightarrow> string \<Rightarrow> string \<Rightarrow> string \<Rightarrow> forge \<Rightarrow> (app_error + nat \<times> commit_response) option"
where
  "http_get_repository_commit env caller owner repo sha w =
     (case fst (authorized_repository env caller owner repo Read
             (\<lambda>w. (map_sum id (\<lambda>k. (200, k)) (path_names (AppCommit \<circ> CommitInput) env owner repo), w)) w) of
        Inl e \<Rightarrow> Some (Inl e)
      | Inr (_, o', r') \<Rightarrow> map_option (reply AppRepository 200) (get_repository_commit o' r' sha (fg_core w)))"

definition http_get_repository_commit_blobs ::
  "forge_env \<Rightarrow> uuid option \<Rightarrow> string \<Rightarrow> string \<Rightarrow> string \<Rightarrow> forge \<Rightarrow> (app_error + nat \<times> blob_pair_response list) option"
where
  "http_get_repository_commit_blobs env caller owner repo sha w =
     (case fst (authorized_repository env caller owner repo Read
             (\<lambda>w. (map_sum id (\<lambda>k. (200, k)) (path_names (AppCommit \<circ> CommitInput) env owner repo), w)) w) of
        Inl e \<Rightarrow> Some (Inl e)
      | Inr (_, o', r') \<Rightarrow> map_option (reply AppRepository 200) (get_repository_commit_blobs env o' r' sha (fg_core w)))"

definition http_list_repository_commits ::
  "forge_env \<Rightarrow> (string \<Rightarrow> input_error + cursor) \<Rightarrow> time \<Rightarrow> uuid option \<Rightarrow> string \<Rightarrow> string \<Rightarrow> string
    \<Rightarrow> time option \<Rightarrow> time option \<Rightarrow> string option \<Rightarrow> nat option \<Rightarrow> commit_response page handler"
where
  "http_list_repository_commits env dec now caller owner repo ref_name from to cur limit =
     authorized_repository env caller owner repo Read (\<lambda>w.
     then_do (map_err AppCommit (list_commits_request_new (fe_lower env) dec now owner repo ref_name from to cur limit), w)
       (\<lambda>req w. (reply AppRepository 200 (list_repository_commits env req (fg_core w)), w)))"

text \<open>
  The resources that a page of the front end needs. The content is left out when the front end
  has the head commit; the commits start at its last update unless that is over an hour old.
  \<open>try_join!\<close> runs the two in turn here: when both fail, the error is that of the content.
\<close>

definition MICROS_PER_HOUR :: int where "MICROS_PER_HOUR = 3600 * 1000000"

definition resource_contents ::
  "forge_env \<Rightarrow> string \<Rightarrow> string \<Rightarrow> string \<Rightarrow> string option \<Rightarrow> app_error + (string list \<times> string list) option"
where
  "resource_contents env owner repo head_sha last_commit =
     (if last_commit = Some head_sha then Inr None
      else
        and_then (file_names env repo owner) (\<lambda>key.
        and_then (map_err AppRepository (get_repository_paths env key head_sha)) (\<lambda>paths.
        and_then (map_err AppRepository (get_repository_blobs_request_new (fe_lower env) repo owner [head_sha] paths)) (\<lambda>(key', refs, ps).
        and_then (map_err AppRepository (get_repository_blobs env key' ps refs)) (\<lambda>blobs.
        Inr (Some (paths, blobs)))))))"

definition resource_commits ::
  "forge_env \<Rightarrow> (string \<Rightarrow> input_error + cursor) \<Rightarrow> time \<Rightarrow> string \<Rightarrow> string \<Rightarrow> time option \<Rightarrow> core_db
    \<Rightarrow> app_error + commit_response page"
where
  "resource_commits env dec now owner repo last_updated core =
     (let everything = (case last_updated of None \<Rightarrow> True | Some lu \<Rightarrow> MICROS_PER_HOUR < now - lu);
          from = (if everything then None else last_updated);
          to = (if everything then None else Some now)
      in and_then (map_err AppCommit (list_commits_request_new (fe_lower env) dec now owner repo ''HEAD'' from to None None)) (\<lambda>req.
         map_err AppRepository (list_repository_commits env req core)))"

record resources_response =
  sx_last_commit :: string
  sx_last_updated :: time
  sx_contents :: "(string list \<times> string list) option"
  sx_commits :: "commit_response list"

definition http_get_repository_resources ::
  "forge_env \<Rightarrow> (string \<Rightarrow> input_error + cursor) \<Rightarrow> time \<Rightarrow> uuid option \<Rightarrow> string \<Rightarrow> string \<Rightarrow> string option \<Rightarrow> time option
    \<Rightarrow> resources_response handler"
where
  "http_get_repository_resources env dec now caller owner repo last_commit last_updated =
     authorized_repository env caller owner repo Read (\<lambda>w.
     then_do (map_err AppRepository (repository_ref_sha env (owner, repo) ''HEAD''), w) (\<lambda>head_sha w.
     then_do (resource_contents env owner repo head_sha last_commit, w) (\<lambda>contents w.
     then_do (resource_commits env dec now owner repo last_updated (fg_core w), w) (\<lambda>commits w.
     (Inr (200, \<lparr>sx_last_commit = head_sha, sx_last_updated = now, sx_contents = contents,
                 sx_commits = pg_data commits\<rparr>), w)))))"

section \<open>Stars and activity\<close>

definition http_star_repository :: "forge_env \<Rightarrow> forge_io \<Rightarrow> uuid option \<Rightarrow> string \<Rightarrow> string \<Rightarrow> unit handler" where
  "http_star_repository env io caller owner repo =
     signed_in caller (\<lambda>user.
     authorized_repository env (Some user) owner repo Read (\<lambda>w.
     then_do (path_names (AppRepository \<circ> RepositoryInput) env owner repo, w) (\<lambda>(o', r') w.
     replying AppRepository 200 (star_repository io o' r' user w))))"

definition http_unstar_repository :: "forge_env \<Rightarrow> uuid option \<Rightarrow> string \<Rightarrow> string \<Rightarrow> unit handler" where
  "http_unstar_repository env caller owner repo =
     signed_in caller (\<lambda>user.
     authorized_repository env (Some user) owner repo Read (\<lambda>w.
     then_do (path_names (AppRepository \<circ> RepositoryInput) env owner repo, w) (\<lambda>(o', r') w.
     replying AppRepository 200 (unstar_repository o' r' user w))))"

definition http_get_repository_activity ::
  "forge_env \<Rightarrow> uuid option \<Rightarrow> string \<Rightarrow> string \<Rightarrow> (user_response \<times> time) list handler"
where
  "http_get_repository_activity env caller owner repo =
     authorized_repository env caller owner repo Read (\<lambda>w.
     then_do (path_names (AppRepository \<circ> RepositoryInput) env owner repo, w) (\<lambda>(o', r') w.
     (reply AppRepository 200 (get_repository_activity o' r' (fg_core w)), w)))"

definition http_list_latest_repositories :: "repository_response list handler" where
  "http_list_latest_repositories w = (reply AppRepository 200 (list_latest_repositories (fg_core w)), w)"

definition http_list_trending_repositories :: "repository_response list handler" where
  "http_list_trending_repositories w = (reply AppRepository 200 (list_trending_repositories (fg_core w)), w)"

section \<open>Commit filters\<close>

record commit_filter_body =
  fb_name :: string
  fb_authors :: "string list option"
  fb_tags :: "string list option"
  fb_paths :: "string list option"

definition filter_request :: "forge_env \<Rightarrow> string \<Rightarrow> string \<Rightarrow> commit_filter_body \<Rightarrow> app_error + commit_filter_request" where
  "filter_request env owner repo body =
     map_err AppRepository
       (commit_filter_request_new (fe_lower env) owner repo (fb_name body) (fb_authors body) (fb_tags body) (fb_paths body))"

definition http_create_repository_commit_filter ::
  "forge_env \<Rightarrow> forge_io \<Rightarrow> uuid option \<Rightarrow> string \<Rightarrow> string \<Rightarrow> commit_filter_body \<Rightarrow> commit_filter_response handler"
where
  "http_create_repository_commit_filter env io caller owner repo body =
     signed_in caller (\<lambda>user.
     authorized_repository env (Some user) owner repo Write (\<lambda>w.
     then_do (filter_request env owner repo body, w) (\<lambda>req w.
     replying AppRepository 201 (create_repository_commit_filter io req w))))"

definition http_update_repository_commit_filter ::
  "forge_env \<Rightarrow> forge_io \<Rightarrow> uuid option \<Rightarrow> string \<Rightarrow> string \<Rightarrow> uuid \<Rightarrow> commit_filter_body \<Rightarrow> commit_filter_response handler"
where
  "http_update_repository_commit_filter env io caller owner repo filter_id body =
     signed_in caller (\<lambda>user.
     authorized_repository env (Some user) owner repo Write (\<lambda>w.
     then_do (filter_request env owner repo body, w) (\<lambda>req w.
     replying AppRepository 200 (update_repository_commit_filter io req filter_id w))))"

definition http_delete_repository_commit_filter ::
  "forge_env \<Rightarrow> uuid option \<Rightarrow> string \<Rightarrow> string \<Rightarrow> uuid \<Rightarrow> unit handler"
where
  "http_delete_repository_commit_filter env caller owner repo filter_id =
     signed_in caller (\<lambda>user.
     authorized_repository env (Some user) owner repo Write (\<lambda>w.
     then_do (path_names (AppRepository \<circ> RepositoryInput) env owner repo, w) (\<lambda>(o', r') w.
     replying AppRepository 200 (delete_repository_commit_filter o' r' filter_id w))))"

definition http_list_repository_commit_filters ::
  "forge_env \<Rightarrow> (string \<Rightarrow> input_error + cursor) \<Rightarrow> uuid option \<Rightarrow> string \<Rightarrow> string \<Rightarrow> string option \<Rightarrow> nat option
    \<Rightarrow> commit_filter_response page handler"
where
  "http_list_repository_commit_filters env dec caller owner repo cur limit =
     authorized_repository env caller owner repo Read (\<lambda>w.
     then_do (path_names (AppRepository \<circ> RepositoryInput) env owner repo, w) (\<lambda>(o', r') w.
     then_do (map_err (AppRepository \<circ> RepositoryInput) (transposed dec cur), w) (\<lambda>c w.
     (reply AppRepository 200 (list_repository_commit_filters env o' r' c (clamp_limit limit) (fg_core w)), w))))"

end
