(* ===== verification/OwnerHandlers.thy ===== *)
theory OwnerHandlers
  imports AppErrors
begin

text \<open>
  \<open>gitdot-server/src/handler/organization\<close> and \<open>handler/user\<close>: the endpoints of organizations and
  users. \<open>dec\<close> decodes a cursor, \<open>now\<close> is the clock and \<open>year_ago\<close> the clock twelve months earlier.
\<close>

section \<open>Organizations\<close>

definition org_name_of :: "forge_env \<Rightarrow> string \<Rightarrow> app_error + string" where
  "org_name_of env org = map_err (AppOrganization \<circ> OrgInput) (owner_name_parse (fe_lower env) org ''organization name'')"

definition http_create_organization ::
  "forge_env \<Rightarrow> forge_io \<Rightarrow> uuid option \<Rightarrow> string \<Rightarrow> string option \<Rightarrow> organization_response handler"
where
  "http_create_organization env io caller org readme =
     signed_in caller (\<lambda>user w.
     then_do (org_name_of env org, w) (\<lambda>name w.
     replying AppOrganization 201 (create_organization env io name user readme w)))"

definition http_get_organization :: "forge_env \<Rightarrow> string \<Rightarrow> organization_response handler" where
  "http_get_organization env org w =
     then_do (org_name_of env org, w) (\<lambda>name w.
     (reply AppOrganization 200 (get_organization name (fg_core w)), w))"

definition http_update_organization ::
  "forge_env \<Rightarrow> uuid option \<Rightarrow> string \<Rightarrow> string option \<Rightarrow> string option \<Rightarrow> string list option \<Rightarrow> string option
    \<Rightarrow> organization_response handler"
where
  "http_update_organization env caller org location readme links display_name =
     signed_in caller (\<lambda>user.
     authorized_organization env user org (\<lambda>w.
     then_do (org_name_of env org, w) (\<lambda>name w.
     replying AppOrganization 200 (update_organization name location readme links display_name w))))"

text \<open>Images: the content type is checked before the caller is authorized.\<close>

definition IMAGE_TYPES :: "string list" where
  "IMAGE_TYPES = [''image/jpeg'', ''image/png'', ''image/webp'']"

definition http_upload_organization_image ::
  "forge_env \<Rightarrow> forge_io \<Rightarrow> uuid option \<Rightarrow> string \<Rightarrow> string option \<Rightarrow> unit handler"
where
  "http_upload_organization_image env io caller org content_type =
     signed_in caller (\<lambda>user w.
       let kind = (case content_type of None \<Rightarrow> [] | Some t \<Rightarrow> t)
       in if kind \<notin> set IMAGE_TYPES
          then (Inl (AppOrganization (OrgInvalidImage (''unsupported image type: '' @ kind))), w)
          else authorized_organization env user org (\<lambda>w.
            then_do (org_name_of env org, w) (\<lambda>name w.
            replying AppOrganization 204 (update_organization_image io name w))) w)"

definition http_add_member ::
  "forge_env \<Rightarrow> forge_io \<Rightarrow> uuid option \<Rightarrow> string \<Rightarrow> string \<Rightarrow> string \<Rightarrow> string option
    \<Rightarrow> organization_member_response handler"
where
  "http_add_member env io caller org user_name role role_description =
     signed_in caller (\<lambda>user.
     authorized_organization env user org (\<lambda>w.
     then_do (map_err AppOrganization (add_member_request_new (fe_lower env) org user_name role), w) (\<lambda>(o', u', r') w.
     replying AppOrganization 201 (service_add_member io o' u' r' role_description w))))"

definition http_update_member ::
  "forge_env \<Rightarrow> uuid option \<Rightarrow> string \<Rightarrow> uuid \<Rightarrow> string option \<Rightarrow> organization_member_response handler"
where
  "http_update_member env caller org member_id role_description =
     signed_in caller (\<lambda>user.
     authorized_member env user org member_id (\<lambda>w.
     then_do (org_name_of env org, w) (\<lambda>name w.
     replying AppOrganization 200 (service_update_member env name member_id role_description w))))"

definition http_list_organizations ::
  "forge_env \<Rightarrow> (string \<Rightarrow> input_error + cursor) \<Rightarrow> string option \<Rightarrow> nat option \<Rightarrow> organization_response page handler"
where
  "http_list_organizations env dec cur limit w =
     then_do (map_err (AppOrganization \<circ> OrgInput) (transposed dec cur), w) (\<lambda>c w.
     (Inr (200, list_organizations env c (clamp_limit limit) (fg_core w)), w))"

definition http_list_organization_repositories ::
  "forge_env \<Rightarrow> (string \<Rightarrow> input_error + cursor) \<Rightarrow> uuid option \<Rightarrow> string \<Rightarrow> string option \<Rightarrow> nat option
    \<Rightarrow> repository_response page handler"
where
  "http_list_organization_repositories env dec caller org cur limit w =
     then_do (org_name_of env org, w) (\<lambda>name w.
     then_do (map_err (AppOrganization \<circ> OrgInput) (transposed dec cur), w) (\<lambda>c w.
     (reply AppOrganization 200 (list_organization_repositories env name caller c (clamp_limit limit) (fg_core w)), w)))"

section \<open>Users\<close>

definition user_name_of :: "forge_env \<Rightarrow> string \<Rightarrow> app_error + string" where
  "user_name_of env name = map_err (AppUser \<circ> UserInput) (owner_name_parse (fe_lower env) name ''user name'')"

definition user_cursor :: "(string \<Rightarrow> input_error + cursor) \<Rightarrow> string option \<Rightarrow> app_error + cursor option" where
  "user_cursor dec cur = map_err (AppUser \<circ> UserInput) (transposed dec cur)"

definition http_get_current_user :: "uuid option \<Rightarrow> get_current_user_response handler" where
  "http_get_current_user caller =
     signed_in caller (\<lambda>user w. (reply AppUser 200 (get_current_user user (fg_core w)), w))"

definition http_update_current_user ::
  "forge_env \<Rightarrow> forge_io \<Rightarrow> uuid option \<Rightarrow> string option \<Rightarrow> string option \<Rightarrow> string option \<Rightarrow> string list option
    \<Rightarrow> string option \<Rightarrow> user_response handler"
where
  "http_update_current_user env io caller name location readme links display_name =
     signed_in caller (\<lambda>user w.
     then_do (map_err (AppUser \<circ> UserInput) (transposed (\<lambda>n. owner_name_parse (fe_lower env) n ''user name'') name), w) (\<lambda>n w.
     replying AppUser 200 (update_current_user env io user n location readme links display_name w)))"

definition http_upload_user_image :: "forge_io \<Rightarrow> uuid option \<Rightarrow> string option \<Rightarrow> unit handler" where
  "http_upload_user_image io caller content_type =
     signed_in caller (\<lambda>user w.
       let kind = (case content_type of None \<Rightarrow> [] | Some t \<Rightarrow> t)
       in if kind \<notin> set IMAGE_TYPES
          then (Inl (AppUser (UserInvalidImage (''unsupported image type: '' @ kind))), w)
          else replying AppUser 204 (update_current_user_image io user w))"

definition http_has_user :: "forge_env \<Rightarrow> string \<Rightarrow> unit handler" where
  "http_has_user env name w =
     then_do (user_name_of env name, w) (\<lambda>n w. (reply AppUser 200 (has_user env n (fg_core w)), w))"

definition http_get_user :: "forge_env \<Rightarrow> string \<Rightarrow> user_response handler" where
  "http_get_user env name w =
     then_do (user_name_of env name, w) (\<lambda>n w. (reply AppUser 200 (get_user n (fg_core w)), w))"

definition http_list_user_repositories ::
  "forge_env \<Rightarrow> (string \<Rightarrow> input_error + cursor) \<Rightarrow> uuid option \<Rightarrow> string \<Rightarrow> string option \<Rightarrow> nat option
    \<Rightarrow> user_repository_response page handler"
where
  "http_list_user_repositories env dec caller name cur limit w =
     then_do (user_name_of env name, w) (\<lambda>n w.
     then_do (user_cursor dec cur, w) (\<lambda>c w.
     (reply AppUser 200 (list_user_repositories env n caller c (clamp_limit limit) (fg_core w)), w)))"

definition http_list_user_starred_repositories ::
  "forge_env \<Rightarrow> (string \<Rightarrow> input_error + cursor) \<Rightarrow> uuid option \<Rightarrow> string \<Rightarrow> string option \<Rightarrow> nat option
    \<Rightarrow> user_repository_response page handler"
where
  "http_list_user_starred_repositories env dec caller name cur limit w =
     then_do (user_name_of env name, w) (\<lambda>n w.
     then_do (user_cursor dec cur, w) (\<lambda>c w.
     (reply AppUser 200 (list_starred_repositories env n caller c (clamp_limit limit) (fg_core w)), w)))"

definition http_list_user_contributed_repositories ::
  "forge_env \<Rightarrow> (string \<Rightarrow> input_error + cursor) \<Rightarrow> time \<Rightarrow> uuid option \<Rightarrow> string \<Rightarrow> time option \<Rightarrow> string option \<Rightarrow> nat option
    \<Rightarrow> user_repository_response page handler"
where
  "http_list_user_contributed_repositories env dec year_ago caller name from cur limit w =
     then_do (user_name_of env name, w) (\<lambda>n w.
     then_do (user_cursor dec cur, w) (\<lambda>c w.
     (reply AppUser 200 (list_contributed_repositories env n caller (case from of None \<Rightarrow> year_ago | Some t \<Rightarrow> t) c
        (clamp_limit limit) (fg_core w)), w)))"

definition http_list_user_organizations ::
  "forge_env \<Rightarrow> (string \<Rightarrow> input_error + cursor) \<Rightarrow> string \<Rightarrow> string option \<Rightarrow> nat option
    \<Rightarrow> user_organization_response page handler"
where
  "http_list_user_organizations env dec name cur limit w =
     then_do (user_name_of env name, w) (\<lambda>n w.
     then_do (user_cursor dec cur, w) (\<lambda>c w.
     (reply AppUser 200 (list_user_organizations env n c (clamp_limit limit) (fg_core w)), w)))"

definition http_list_user_reviews ::
  "forge_env \<Rightarrow> (string \<Rightarrow> input_error + cursor) \<Rightarrow> uuid option \<Rightarrow> string \<Rightarrow> string option \<Rightarrow> string option \<Rightarrow> string option
    \<Rightarrow> string option \<Rightarrow> nat option \<Rightarrow> review_response page handler"
where
  "http_list_user_reviews env dec caller name status owner repo cur limit w =
     then_do (user_name_of env name, w) (\<lambda>n w.
     then_do (user_cursor dec cur, w) (\<lambda>c w.
     (reply AppUser 200 (list_user_reviews env n caller status owner repo c (clamp_limit limit) (fg_core w) (fg_reviews w)), w)))"

definition http_list_user_commits ::
  "forge_env \<Rightarrow> (string \<Rightarrow> input_error + cursor) \<Rightarrow> time \<Rightarrow> uuid option \<Rightarrow> string \<Rightarrow> time option \<Rightarrow> time option
    \<Rightarrow> string option \<Rightarrow> nat option \<Rightarrow> user_commit_response page handler"
where
  "http_list_user_commits env dec now caller name from to cur limit w =
     (if to \<noteq> None \<and> from = None
      then (Inl (AppUser (UserInput (InputError ''date range'' ''`to` requires `from` to be set''))), w)
      else
        then_do (user_name_of env name, w) (\<lambda>n w.
        then_do (user_cursor dec cur, w) (\<lambda>c w.
        (reply AppUser 200 (list_user_commits env n caller (case from of None \<Rightarrow> 0 | Some t \<Rightarrow> t)
           (case to of None \<Rightarrow> now | Some t \<Rightarrow> t) c (clamp_limit limit) (fg_core w)), w))))"

end
