(* ===== verification/ForgeProps.thy ===== *)
theory ForgeProps
  imports RepoBrowse
begin

text \<open>
  The tables and the disk together. A repository has a row and a directory, in two places that no
  transaction spans; \<open>forge_ok\<close> says that every row has its directory under the name of its owner,
  and the lemmas show that every operation of the services keeps it, whatever fails on the way, as
  long as the undo of a rename works.
\<close>

section \<open>Owners and their names\<close>

definition names_apart :: "core_db \<Rightarrow> bool" where
  "names_apart core \<longleftrightarrow>
     list_all (\<lambda>u. list_all (\<lambda>g. us_name u \<noteq> og_name g \<and> us_id u \<noteq> og_id g) (db_orgs core)) (db_users core)"

definition owners_ok :: "core_db \<Rightarrow> bool" where
  "owners_ok core \<longleftrightarrow> users_ok (db_users core) \<and> orgs_ok (db_orgs core) \<and> names_apart core"

lemma names_apartD: "names_apart core \<Longrightarrow> u \<in> set (db_users core) \<Longrightarrow> g \<in> set (db_orgs core) \<Longrightarrow> us_name u \<noteq> og_name g \<and> us_id u \<noteq> og_id g"
  by (simp add: names_apart_def list_all_iff)

text \<open>The owners of the two tables, as pairs of an identifier and a name.\<close>

definition owners :: "core_db \<Rightarrow> (uuid \<times> string) list" where
  "owners core = map (\<lambda>u. (us_id u, us_name u)) (db_users core) @ map (\<lambda>g. (og_id g, og_name g)) (db_orgs core)"

lemma owners_distinct:
  assumes "owners_ok core"
  shows "distinct (map fst (owners core))" and "distinct (map snd (owners core))"
  using assms names_apartD [of core]
  by (auto simp: owners_ok_def owners_def table_ok_defs comp_def)

lemma owner_ids_owners: "i \<in> set (owner_ids core n) \<longleftrightarrow> (i, n) \<in> set (owners core)"
  by (auto simp: owner_ids_def owners_def)

lemma owners_inj:
  assumes "owners_ok core" and "(i, n) \<in> set (owners core)" and "(j, m) \<in> set (owners core)"
  shows "i = j \<longleftrightarrow> n = m"
  using eq_key_imp_eq_value [OF owners_distinct(1) [OF assms(1)]] assms
    distinct_map [of snd "owners core"] owners_distinct(2) [OF assms(1)]
  by (metis inj_onD snd_conv fst_conv)

lemma owner_name_owners:
  assumes "owner_name_of core r = Some n"
  shows "(rp_owner_id r, n) \<in> set (owners core)"
  using assms
  by (force simp: owner_name_of_def owners_def find_user_def find_org_def dest!: find_SomeD split: owner_type.splits)

lemma owner_name_iff:
  assumes "owners_ok core" and "owner_name_of core r = Some n"
  shows "rp_owner_id r \<in> set (owner_ids core k) \<longleftrightarrow> n = k"
  using owners_inj [OF assms(1) owner_name_owners [OF assms(2)]] owner_name_owners [OF assms(2)]
  by (auto simp: owner_ids_owners)

section \<open>Every row has its directory\<close>

definition housed :: "core_db \<Rightarrow> disk \<Rightarrow> repo_row \<Rightarrow> bool" where
  "housed core d r \<longleftrightarrow>
     plain_name (rp_name r)
     \<and> (case owner_name_of core r of None \<Rightarrow> False | Some n \<Rightarrow> on_disk n (rp_name r) d)"

definition forge_ok :: "forge \<Rightarrow> bool" where
  "forge_ok w \<longleftrightarrow> owners_ok (fg_core w) \<and> repos_ok (db_repos (fg_core w))
     \<and> list_all (housed (fg_core w) (fg_disk w)) (db_repos (fg_core w))"

lemma housedD: "housed core d r \<Longrightarrow> \<exists>n. owner_name_of core r = Some n \<and> plain_name (rp_name r) \<and> on_disk n (rp_name r) d"
  by (auto simp: housed_def split: option.splits)

lemma forge_okD:
  assumes "forge_ok w"
  shows "owners_ok (fg_core w)" "repos_ok (db_repos (fg_core w))"
    and "r \<in> set (db_repos (fg_core w)) \<Longrightarrow> housed (fg_core w) (fg_disk w) r"
  using assms by (auto simp: forge_ok_def list_all_iff)

text \<open>The owner of a row, when the row is housed.\<close>

definition the_owner :: "core_db \<Rightarrow> repo_row \<Rightarrow> string" where
  "the_owner core r = the (owner_name_of core r)"

lemma housed_owner: "housed core d r \<longleftrightarrow> owner_name_of core r = Some (the_owner core r) \<and> plain_name (rp_name r) \<and> on_disk (the_owner core r) (rp_name r) d"
  by (auto simp: housed_def the_owner_def split: option.splits)

text \<open>Two rows with the same owner and name are one row.\<close>

lemma address_unique:
  assumes "forge_ok w" and "r \<in> set (db_repos (fg_core w))" and "q \<in> set (db_repos (fg_core w))"
    and "rp_name r = rp_name q" and "the_owner (fg_core w) r = the_owner (fg_core w) q"
  shows "r = q"
proof -
  have "housed (fg_core w) (fg_disk w) r" "housed (fg_core w) (fg_disk w) q"
    using assms by (auto dest: forge_okD)
  then have "rp_owner_id r = rp_owner_id q"
    using owners_inj [OF forge_okD(1) [OF assms(1)]] owner_name_owners assms(5) by (metis housed_owner)
  with assms forge_okD(2) [OF assms(1)] show ?thesis
    by (auto simp: repos_ok_def distinct_map dest: inj_onD)
qed

text \<open>What a lookup finds, by the two names.\<close>

lemma repo_get_found:
  assumes "forge_ok w" and "repo_get owner repo viewer (fg_core w) = Inr (Some v)"
  obtains r where "r \<in> set (db_repos (fg_core w))" "rp_name r = repo" "the_owner (fg_core w) r = owner"
    "on_disk owner repo (fg_disk w)" "rp_id v = rp_id r"
proof -
  let ?rows = "filter (\<lambda>r. rp_name r = repo \<and> rp_owner_id r \<in> set (owner_ids (fg_core w) owner)) (db_repos (fg_core w))"
  obtain r rest where rows: "?rows = r # rest" and v: "repo_view (fg_core w) viewer r = Inr v"
    using assms(2) by (auto simp: repo_get_def fetch_optional_def split: list.splits sum.splits)
  from rows have "r \<in> set ?rows" by simp
  then have r: "r \<in> set (db_repos (fg_core w))" "rp_name r = repo" "rp_owner_id r \<in> set (owner_ids (fg_core w) owner)"
    by auto
  have h: "housed (fg_core w) (fg_disk w) r" using forge_okD(3) [OF assms(1) r(1)] .
  then have "the_owner (fg_core w) r = owner"
    using owner_name_iff [OF forge_okD(1) [OF assms(1)]] r(3) by (metis housed_owner)
  moreover have "rp_id v = rp_id r" using repo_view_row(1) [OF v] by (auto simp: repo_row.truncate_def)
  ultimately show ?thesis using that r h by (auto simp: housed_owner)
qed

section \<open>What touches neither names nor directories\<close>

definition row_key :: "repo_row \<Rightarrow> uuid \<times> string \<times> uuid \<times> owner_type" where
  "row_key r = (rp_id r, rp_name r, rp_owner_id r, rp_owner_type r)"

definition same_shape :: "core_db \<Rightarrow> core_db \<Rightarrow> bool" where
  "same_shape core core' \<longleftrightarrow>
     map (\<lambda>u. (us_id u, us_name u)) (db_users core') = map (\<lambda>u. (us_id u, us_name u)) (db_users core)
     \<and> map (\<lambda>g. (og_id g, og_name g)) (db_orgs core') = map (\<lambda>g. (og_id g, og_name g)) (db_orgs core)
     \<and> map row_key (db_repos core') = map row_key (db_repos core)"

definition kept :: "forge \<Rightarrow> forge \<Rightarrow> bool" where
  "kept w w' \<longleftrightarrow> same_shape (fg_core w) (fg_core w') \<and> fg_disk w' = fg_disk w"

lemma same_shape_refl [simp]: "same_shape core core"
  by (simp add: same_shape_def)

lemma kept_refl [simp]: "kept w w"
  by (simp add: kept_def)

lemma find_as_map_of: "map_option f (find (\<lambda>x. k x = i) xs) = map_of (map (\<lambda>x. (k x, f x)) xs) i"
  by (induction xs) auto

lemma owner_name_tables:
  "owner_name_of core r =
     (case rp_owner_type r of
        UserOwner \<Rightarrow> map_of (map (\<lambda>u. (us_id u, us_name u)) (db_users core)) (rp_owner_id r)
      | OrganizationOwner \<Rightarrow> map_of (map (\<lambda>g. (og_id g, og_name g)) (db_orgs core)) (rp_owner_id r))"
  by (simp add: owner_name_of_def find_user_def find_org_def find_as_map_of split: owner_type.split)

lemma same_shape_owner:
  assumes "same_shape core core'" and "row_key r' = row_key r"
  shows "owner_name_of core' r' = owner_name_of core r"
  using assms by (simp add: owner_name_tables same_shape_def row_key_def split: owner_type.split)

lemma same_shape_housed:
  assumes "same_shape core core'" and "row_key r' = row_key r"
  shows "housed core' d r' \<longleftrightarrow> housed core d r"
  using same_shape_owner [OF assms] assms(2) by (simp add: housed_def row_key_def split: option.split)

lemma list_all_keys:
  "map k xs = map k ys \<Longrightarrow> (\<And>x y. k x = k y \<Longrightarrow> P x \<longleftrightarrow> Q y) \<Longrightarrow> list_all P xs \<longleftrightarrow> list_all Q ys"
proof (induction xs arbitrary: ys)
  case (Cons x xs)
  then obtain y ys' where "ys = y # ys'" "k x = k y" "map k xs = map k ys'" by auto
  with Cons.IH [of ys'] Cons.prems(2) show ?case by auto
qed simp

lemma owners_ok_owners:
  "owners_ok core \<longleftrightarrow> distinct (map fst (owners core)) \<and> distinct (map snd (owners core))"
proof
  assume "distinct (map fst (owners core)) \<and> distinct (map snd (owners core))"
  then show "owners_ok core"
    by (auto simp: owners_ok_def owners_def table_ok_defs names_apart_def list_all_iff comp_def image_iff)
qed (simp add: owners_distinct)

lemma repos_ok_keys:
  assumes "map row_key rs' = map row_key rs"
  shows "repos_ok rs' \<longleftrightarrow> repos_ok rs"
proof -
  have "map rp_id rs = map fst (map row_key rs)" "map (\<lambda>r. (rp_owner_id r, rp_name r)) rs = map (\<lambda>(i, n, w, _). (w, n)) (map row_key rs)" for rs
    by (simp_all add: row_key_def)
  with assms show ?thesis by (simp add: repos_ok_def del: map_map)
qed

lemma kept_ok:
  assumes "kept w w'" and "forge_ok w"
  shows "forge_ok w'"
proof -
  from assms(1) have shape: "same_shape (fg_core w) (fg_core w')" and disk: "fg_disk w' = fg_disk w"
    by (simp_all add: kept_def)
  have "owners (fg_core w') = owners (fg_core w)" using shape by (simp add: owners_def same_shape_def)
  moreover have "repos_ok (db_repos (fg_core w')) \<longleftrightarrow> repos_ok (db_repos (fg_core w))"
    by (rule repos_ok_keys) (use shape in \<open>simp add: same_shape_def\<close>)
  moreover have "list_all (housed (fg_core w') (fg_disk w)) (db_repos (fg_core w'))
      \<longleftrightarrow> list_all (housed (fg_core w) (fg_disk w)) (db_repos (fg_core w))"
    by (rule list_all_keys [where k = row_key]) (use shape in \<open>auto simp: same_shape_def same_shape_housed [OF shape]\<close>)
  ultimately show ?thesis using assms(2) by (simp add: forge_ok_def owners_ok_owners disk)
qed

lemma same_shape_trans: "same_shape c c' \<Longrightarrow> same_shape c' c'' \<Longrightarrow> same_shape c c''"
  unfolding same_shape_def by (metis (no_types, lifting))

lemma kept_core_do:
  "(\<And>core. same_shape core (snd (f core))) \<Longrightarrow> kept w0 w \<Longrightarrow> kept w0 (snd (core_do err f w))"
  using same_shape_trans [of "fg_core w0" "fg_core w" "snd (f (fg_core w))"] by (simp add: kept_def)

lemma same_shape_repo_statements:
  "same_shape core (snd (repo_update i d ro core))"
  "same_shape core (snd (repo_star k now i u core))"
  "same_shape core (snd (repo_unstar i u core))"
  "same_shape core (snd (repo_create_commit_filter k now i name authors tags paths core))"
  "same_shape core (snd (repo_update_commit_filter now i k name authors tags paths core))"
  "same_shape core (snd (repo_delete_commit_filter i k core))"
  "same_shape core (snd (create_bulk rows core))"
  by (auto simp: same_shape_def repo_update_def repo_star_def repo_unstar_def repo_create_commit_filter_def
      repo_update_commit_filter_def repo_delete_commit_filter_def create_bulk_def Let_def map_key_update_where
      row_key_def set_repo_def add_stars_def drop_star_def split: sum.split)

lemma same_shape_owner_statements:
  "same_shape core (snd (org_update name location readme links display_name core))"
  "same_shape core (snd (add_member k now name user role role_description core))"
  "same_shape core (snd (update_member name k role_description core))"
  "same_shape core (org_touch_image now i core)"
  "same_shape core (user_touch_image now i core)"
  "same_shape core (mark_user_as_deleted now i core)"
  by (auto simp: same_shape_def org_update_def add_member_def update_member_def org_touch_image_def
      user_touch_image_def mark_user_as_deleted_def Let_def map_key_update_where split: option.split)

lemmas kept_chain = then_do_inv [where P = "kept w0" for w0] kept_core_do same_shape_repo_statements same_shape_owner_statements

lemma kept_core:
  "same_shape (fg_core w) core \<Longrightarrow> kept w (w\<lparr>fg_core := core\<rparr>)"
  "kept w0 w \<Longrightarrow> same_shape (fg_core w) core \<Longrightarrow> kept w0 (w\<lparr>fg_core := core\<rparr>)"
  by (auto simp: kept_def intro: same_shape_trans)

lemma kept_repository_operations:
  "kept w (snd (update_repository ureq w))"
  "kept w (snd (star_repository io owner repo user_id w))"
  "kept w (snd (unstar_repository owner repo user_id w))"
  "kept w (snd (create_repository_commit_filter io freq w))"
  "kept w (snd (update_repository_commit_filter io freq filter_id w))"
  "kept w (snd (delete_repository_commit_filter owner repo filter_id w))"
  "kept w (snd (create_initial_commit env io creq repo_id files w))"
  by (auto simp: update_repository_def star_repository_def unstar_repository_def create_repository_commit_filter_def
      update_repository_commit_filter_def delete_repository_commit_filter_def create_initial_commit_def Let_def
      intro!: kept_chain)

lemma kept_owner_operations:
  "kept w (snd (update_organization name location readme links display_name w))"
  "kept w (snd (update_organization_image io name w))"
  "kept w (snd (service_add_member io name user role role_description w))"
  "kept w (snd (service_update_member env name member_id role_description w))"
  "kept w (snd (update_current_user_image io user_id w))"
  using same_shape_owner_statements(2) [of "fg_core w" "fi_id io 0" "fi_now io" name user role role_description]
    same_shape_owner_statements(3) [of "fg_core w" name member_id role_description]
  by (auto simp: update_organization_def update_organization_image_def service_add_member_def service_update_member_def
      update_current_user_image_def intro!: kept_chain kept_core split: prod.split option.split)

section \<open>Rows and directories that come and go\<close>

lemma owner_name_tables_only:
  "db_users core' = db_users core \<Longrightarrow> db_orgs core' = db_orgs core \<Longrightarrow> owner_name_of core' r = owner_name_of core r"
  by (simp add: owner_name_tables split: owner_type.split)

lemma housed_tables_only:
  "db_users core' = db_users core \<Longrightarrow> db_orgs core' = db_orgs core \<Longrightarrow> housed core' d r = housed core d r"
  using owner_name_tables_only [of core' core r] by (simp add: housed_def)

lemma owners_ok_tables_only:
  "db_users core' = db_users core \<Longrightarrow> db_orgs core' = db_orgs core \<Longrightarrow> owners_ok core' = owners_ok core"
  by (simp add: owners_ok_def names_apart_def)

lemma forge_ok_swap [simp]: "forge_ok (w\<lparr>fg_disk := d, fg_core := c\<rparr>) = forge_ok (w\<lparr>fg_core := c, fg_disk := d\<rparr>)"
  by (simp add: forge_ok_def)

lemma forge_ok_rows:
  assumes "forge_ok w" and "db_users core = db_users (fg_core w)" "db_orgs core = db_orgs (fg_core w)"
    and "repos_ok (db_repos core)" and "\<And>r. r \<in> set (db_repos core) \<Longrightarrow> housed (fg_core w) d r"
  shows "forge_ok (w\<lparr>fg_core := core, fg_disk := d\<rparr>)"
  using assms owners_ok_tables_only [OF assms(2,3)] housed_tables_only [OF assms(2,3)]
  by (auto simp: forge_ok_def list_all_iff)

lemma forge_ok_disk:
  assumes "forge_ok w" and "\<And>r. r \<in> set (db_repos (fg_core w)) \<Longrightarrow> housed (fg_core w) d r"
  shows "forge_ok (w\<lparr>fg_disk := d\<rparr>)"
  using forge_ok_rows [OF assms(1), of "fg_core w" d] assms forge_okD(2) [OF assms(1)] by auto

lemma all_housed:
  assumes "forge_ok w"
  shows "\<And>r. r \<in> set (db_repos (fg_core w)) \<Longrightarrow> plain_name (rp_name r) \<and> on_disk (the_owner (fg_core w) r) (rp_name r) (fg_disk w)"
  using forge_okD(3) [OF assms] by (simp add: housed_owner)

lemma forge_ok_put:
  assumes "forge_ok w" and "plain_name name"
  shows "forge_ok (w\<lparr>fg_disk := put_repo owner name (fg_disk w)\<rparr>)"
  by (rule forge_ok_disk [OF assms(1)])
    (use dirs.all_mk(1) [OF all_housed [OF assms(1)] assms(2)] forge_okD(3) [OF assms(1)] in \<open>simp add: housed_owner\<close>)

lemma forge_ok_drop:
  assumes "forge_ok w" and "plain_name name"
    and "\<And>r. r \<in> set (db_repos (fg_core w)) \<Longrightarrow> (the_owner (fg_core w) r, rp_name r) \<noteq> (owner, name)"
  shows "forge_ok (w\<lparr>fg_disk := drop_repo owner name (fg_disk w)\<rparr>)"
  by (rule forge_ok_disk [OF assms(1)])
    (use dirs.all_rm [OF all_housed [OF assms(1)] assms(2,3)] forge_okD(3) [OF assms(1)] in \<open>simp add: housed_owner\<close>)

lemma forge_ok_create_disk:
  assumes "forge_ok w" and "plain_name name"
  shows "forge_ok (w\<lparr>fg_disk := snd (git_create_repo fate owner name (fg_disk w))\<rparr>)"
proof -
  have same: "on_disk k n (d(owner \<mapsto> owner_dir owner d)) = on_disk k n d" for k n d
    by (simp add: on_disk_def owner_dir_def)
  have "forge_ok (w\<lparr>fg_disk := (fg_disk w)(owner \<mapsto> owner_dir owner (fg_disk w))\<rparr>)"
    by (rule forge_ok_disk [OF assms(1)]) (use forge_okD(3) [OF assms(1)] in \<open>simp add: housed_owner same\<close>)
  then show ?thesis
    using forge_ok_put [OF assms] assms(1)
    by (cases "(fate, owner, name, fg_disk w)" rule: git_create_repo.cases) auto
qed

lemma forge_ok_delete_row:
  assumes "forge_ok w"
  shows "forge_ok (w\<lparr>fg_core := snd (repo_delete i (fg_core w))\<rparr>)"
  using forge_ok_rows [OF assms, of "snd (repo_delete i (fg_core w))" "fg_disk w"] forge_okD [OF assms]
  by (simp add: repo_delete_def repos_ok_def distinct_map_filter)

lemma forge_ok_drop_row:
  assumes "forge_ok w" and "r \<in> set (db_repos (fg_core w))" and "the_owner (fg_core w) r = owner" and "rp_name r = name"
  shows "forge_ok (w\<lparr>fg_core := snd (repo_delete (rp_id r) (fg_core w)), fg_disk := drop_repo owner name (fg_disk w)\<rparr>)"
proof -
  have "(the_owner (fg_core w) q, rp_name q) \<noteq> (owner, name)" if "q \<in> set (db_repos (fg_core w))" "rp_id q \<noteq> rp_id r" for q
    using address_unique [OF assms(1) that(1) assms(2)] assms(3,4) that(2) by auto
  then have "housed (fg_core w) (drop_repo owner name (fg_disk w)) q" if "q \<in> set (db_repos (fg_core w))" "rp_id q \<noteq> rp_id r" for q
    using that all_housed [OF assms(1)] forge_okD(3) [OF assms(1)] assms(2,4) by (auto simp: housed_owner dirs.has_rm)
  then show ?thesis
    using forge_ok_rows [OF assms(1), of "snd (repo_delete (rp_id r) (fg_core w))"] forge_okD(2) [OF assms(1)]
    by (simp add: repo_delete_def repos_ok_def distinct_map_filter)
qed

lemma delete_repository_keeps:
  assumes "forge_ok w"
  shows "forge_ok (snd (delete_repository io owner repo w))"
proof (cases "lookup_repository owner repo None (fg_core w)")
  case (Inr v)
  then have "repo_get owner repo None (fg_core w) = Inr (Some v)"
    by (auto simp: lookup_repository_def repository_found_def)
  from repo_get_found [OF assms this] obtain r where r: "r \<in> set (db_repos (fg_core w))" "rp_name r = repo"
    "the_owner (fg_core w) r = owner" "rp_id v = rp_id r" by metis
  from forge_ok_drop_row [OF assms r(1,3,2)] r(4) assms show ?thesis
    by (auto simp: delete_repository_def Inr disk_do_def git_delete_repo_def core_do_def split: prod.split)
qed (use assms in \<open>simp add: delete_repository_def\<close>)

section \<open>Creation\<close>

text \<open>
  The owner a request names, once it is authorized: the user itself, or an organization. The
  name has been through \<open>RepositoryName::parse\<close>.
\<close>

definition request_ok :: "core_db \<Rightarrow> create_repository_request \<Rightarrow> bool" where
  "request_ok core req \<longleftrightarrow> plain_name (nr_name req)
     \<and> (nr_owner_type req = UserOwner \<longrightarrow> map_option us_name (find_user core (nr_user_id req)) = Some (nr_owner_name req))"

definition fresh_row :: "forge_io \<Rightarrow> create_repository_request \<Rightarrow> uuid \<Rightarrow> repo_row" where
  "fresh_row io req owner_id =
     \<lparr>rp_id = fi_id io 0, rp_name = nr_name req, rp_owner_id = owner_id, rp_owner_type = nr_owner_type req,
      rp_visibility = nr_visibility req, rp_description = nr_description req, rp_stars = 0, rp_readonly = False,
      rp_created_at = fi_now io\<rparr>"

lemma org_get_name:
  assumes "owners_ok core" and "org_get n core = Some g"
  shows "map_option og_name (find_org core (og_id g)) = Some n"
proof -
  obtain r where r: "find (\<lambda>g. og_name g = n) (db_orgs core) = Some r" and "og_id g = og_id r"
    using assms(2) by (auto simp: org_get_def org_view_def org_row.defs)
  from find_SomeD [OF r] assms(1) find_key_unique [of og_id "db_orgs core" r] this(2)
  show ?thesis by (simp add: find_org_def owners_ok_def orgs_ok_def)
qed

lemma owner_of_request:
  assumes "owners_ok (fg_core w)" and "request_ok (fg_core w) req" and "owner_id_of req w = (Inr owner_id, w')"
  shows "owner_name_of (fg_core w) (fresh_row io req owner_id) = Some (nr_owner_name req)" and "w' = w"
  using assms org_get_name [OF assms(1)]
  by (cases "org_get (nr_owner_name req) (fg_core w)"; cases "nr_owner_type req";
      auto simp: owner_id_of_def request_ok_def owner_name_of_def fresh_row_def)+

text \<open>The insert: either it fails and the directory is removed, or the new row is there.\<close>

lemma insert_repository_cases:
  assumes "owner_name_of (fg_core w) (fresh_row io req owner_id) = Some (nr_owner_name req)"
  shows "(\<exists>e. insert_repository io req owner_id w = (Inl e, undo_directory io req w))
    \<or> (\<exists>v. insert_repository io req owner_id w
             = (Inr v, w\<lparr>fg_core := (fg_core w)\<lparr>db_repos := db_repos (fg_core w) @ [fresh_row io req owner_id]\<rparr>\<rparr>)
         \<and> rp_id v = fi_id io 0 \<and> repos_ok (db_repos (fg_core w) @ [fresh_row io req owner_id]))"
  using assms
  by (auto simp: insert_repository_def core_do_def repo_create_def fresh_row_def repo_view_def repo_row.extend_def
      repository.fields_def checked_def Let_def)

lemma undo_directory_cases:
  "undo_directory io req w = w
   \<or> undo_directory io req w = w\<lparr>fg_disk := drop_repo (nr_owner_name req) (nr_name req) (fg_disk w)\<rparr>"
  by (auto simp: undo_directory_def git_delete_repo_def)

lemma forge_ok_insert:
  assumes "forge_ok w" and "owner_name_of (fg_core w) r = Some n" and "plain_name (rp_name r)"
    and "on_disk n (rp_name r) (fg_disk w)" and "repos_ok (db_repos (fg_core w) @ [r])"
  shows "forge_ok (w\<lparr>fg_core := (fg_core w)\<lparr>db_repos := db_repos (fg_core w) @ [r]\<rparr>\<rparr>)"
proof -
  have "housed (fg_core w) (fg_disk w) q" if "q \<in> set (db_repos (fg_core w) @ [r])" for q
    using that forge_okD(3) [OF assms(1), of q] assms(2-4) by (cases "q = r") (auto simp: housed_def)
  then show ?thesis
    using forge_ok_rows [OF assms(1), of "(fg_core w)\<lparr>db_repos := db_repos (fg_core w) @ [r]\<rparr>" "fg_disk w"] assms(5)
    by simp
qed

text \<open>A commit that cannot be made: the row goes, and then the directory if it can.\<close>

lemma seed_repository_keeps:
  assumes "forge_ok w" and "r \<in> set (db_repos (fg_core w))" and "rp_id v = rp_id r"
    and "the_owner (fg_core w) r = nr_owner_name req" and "rp_name r = nr_name req"
  shows "forge_ok (snd (seed_repository env io req v w))"
proof -
  let ?files = "get_initial_files env req"
  obtain res w1 where made: "create_initial_commit env io req (rp_id v) ?files w = (res, w1)" by fastforce
  have kept: "kept w w1"
    using kept_repository_operations(7) [of w env io req "rp_id v" ?files] by (simp add: made)
  have ok: "forge_ok w1" using kept_ok [OF kept assms(1)] .
  have "row_key r \<in> set (map row_key (db_repos (fg_core w1)))"
    using kept assms(2) by (simp add: kept_def same_shape_def)
  then obtain q where q: "q \<in> set (db_repos (fg_core w1))" "row_key q = row_key r" by auto
  then have "the_owner (fg_core w1) q = nr_owner_name req" "rp_name q = nr_name req" "rp_id q = rp_id v"
    using kept assms(3-5) same_shape_owner [of "fg_core w" "fg_core w1" q r]
    by (auto simp: kept_def the_owner_def row_key_def)
  from forge_ok_drop_row [OF ok q(1) this(1,2)] this(3)
  have dropped: "forge_ok (w1\<lparr>fg_core := snd (repo_delete (rp_id v) (fg_core w1)),
      fg_disk := drop_repo (nr_owner_name req) (nr_name req) (fg_disk w1)\<rparr>)" by simp
  show ?thesis
    using undo_directory_cases [of io req "snd (core_do RepositoryDatabaseError (repo_delete (rp_id v)) w1)"]
      dropped forge_ok_delete_row [OF ok, of "rp_id v"] ok assms(1)
    by (auto simp: seed_repository_def made Let_def split: sum.split)
qed

lemma create_repository_keeps:
  assumes "forge_ok w" and "request_ok (fg_core w) req"
  shows "forge_ok (snd (create_repository env io req w))"
proof (cases "fe_offensive env (nr_name req) \<or> on_disk (nr_owner_name req) (nr_name req) (fg_disk w)")
  case False
  let ?o = "nr_owner_name req" and ?n = "nr_name req"
  have plain: "plain_name ?n" using assms(2) by (simp add: request_ok_def)
  have free: "(the_owner (fg_core w) r, rp_name r) \<noteq> (?o, ?n)" if "r \<in> set (db_repos (fg_core w))" for r
    using False all_housed [OF assms(1) that] by auto
  show ?thesis
  proof (cases "owner_id_of req w")
    case (Pair res w')
    then have same: "w' = w" by (auto simp: owner_id_of_def split: owner_type.splits)
    show ?thesis
    proof (cases res)
      case (Inl e)
      show ?thesis using assms(1) by (simp add: create_repository_def Pair Inl same)
    next
      case (Inr owner_id)
      note owner = owner_of_request [OF forge_okD(1) [OF assms(1)] assms(2) Pair [unfolded Inr]]
      obtain made d where disk: "git_create_repo (fi_create io) ?o ?n (fg_disk w) = (made, d)" by fastforce
      let ?w2 = "w\<lparr>fg_disk := d\<rparr>"
      have ok2: "forge_ok ?w2" using forge_ok_create_disk [OF assms(1) plain, of "fi_create io" ?o] by (simp add: disk)
      have undone: "forge_ok (undo_directory io req ?w2)"
        using undo_directory_cases [of io req ?w2] ok2 forge_ok_drop [OF ok2 plain, of ?o] free by auto
      have rest: "forge_ok (snd (then_do (insert_repository io req owner_id ?w2) (\<lambda>v w4.
          then_do (seed_repository env io req v w4) (\<lambda>_ w5. (Inr (repository_response_from v), w5)))))"
        if "on_disk ?o ?n d"
      proof (rule then_do_post)
        fix e s assume "insert_repository io req owner_id ?w2 = (Inl e, s)"
        with insert_repository_cases [of ?w2 io req owner_id] owner(1) undone show "forge_ok s" by auto
      next
        fix v s assume ins: "insert_repository io req owner_id ?w2 = (Inr v, s)"
        let ?r = "fresh_row io req owner_id"
        have s: "s = ?w2\<lparr>fg_core := (fg_core w)\<lparr>db_repos := db_repos (fg_core w) @ [?r]\<rparr>\<rparr>"
          and r: "repos_ok (db_repos (fg_core w) @ [?r])" "rp_id v = fi_id io 0"
          using insert_repository_cases [of ?w2 io req owner_id] owner(1) ins by auto
        have ok: "forge_ok s"
          using forge_ok_insert [OF ok2, of ?r ?o] owner(1) plain that r by (simp add: s fresh_row_def)
        have "the_owner (fg_core s) ?r = ?o"
          using owner(1) owner_name_tables_only [of "fg_core s" "fg_core w" ?r] by (simp add: the_owner_def s)
        then have "forge_ok (snd (seed_repository env io req v s))"
          using seed_repository_keeps [OF ok, of ?r v req env io] by (simp add: s r fresh_row_def)
        then show "forge_ok (snd (then_do (seed_repository env io req v s) (\<lambda>_ w5. (Inr (repository_response_from v), w5))))"
          by (rule then_do_inv) simp
      qed
      show ?thesis
        using False rest ok2 owner(2) disk
        by (cases made)
          (auto simp: create_repository_def Pair Inr disk_do_def install_hooks_def on_disk_def plain
            elim: git_create_repo_ok)
    qed
  qed
qed (use assms in \<open>auto simp: create_repository_def\<close>)

section \<open>Renaming an owner\<close>

definition new_profile ::
  "string option \<Rightarrow> string option \<Rightarrow> string option \<Rightarrow> string list option \<Rightarrow> string option \<Rightarrow> user_row \<Rightarrow> user_row"
where
  "new_profile name location readme links display_name u =
     u\<lparr>us_name := keep name (us_name u), us_location := keep_some (map_option (cut_blanks PROFILE_WIDTH) location) (us_location u),
       us_readme := keep_some readme (us_readme u), us_links := keep links (us_links u),
       us_display_name := keep_some (map_option (cut_blanks PROFILE_WIDTH) display_name) (us_display_name u)\<rparr>"

lemma new_profile_simps [simp]:
  "us_id (new_profile name location readme links display_name u) = us_id u"
  "us_name (new_profile (Some n) location readme links display_name u) = n"
  "us_name (new_profile None location readme links display_name u) = us_name u"
  by (simp_all add: new_profile_def keep_def)

lemma user_update_profile:
  "user_update i name location readme links display_name core =
     (if name = None \<and> location = None \<and> readme = None \<and> links = None \<and> display_name = None
      then (Inl OtherDbError, core)
      else if profile_has_nul location readme links display_name
        \<or> list_ex (\<lambda>u. us_id u = i) (db_users core) \<and> profile_overflows location display_name
      then (Inl OtherDbError, core)
      else
        (case checked users_ok (update_where (\<lambda>u. us_id u = i) (new_profile name location readme links display_name) (db_users core)) of
           Inl e \<Rightarrow> (Inl e, core)
         | Inr us \<Rightarrow>
             (case find (\<lambda>u. us_id u = i) us of
                None \<Rightarrow> (Inl RowNotFound, core\<lparr>db_users := us\<rparr>)
              | Some u \<Rightarrow> (Inr (user_view core u), core\<lparr>db_users := us\<rparr>))))"
  by (simp add: user_update_def new_profile_def [abs_def])

lemma same_shape_profile: "same_shape core (snd (user_update i None location readme links display_name core))"
  by (auto simp: user_update_profile same_shape_def map_key_update_where split: sum.split option.split)

lemma renamed_distinct:
  assumes "distinct (map us_id us)" "distinct (map us_name us)" "new \<notin> us_name ` set us" "\<And>u. us_name (f u) = new"
  shows "distinct (map us_name (update_where (\<lambda>u. us_id u = i) f us))"
  using assms
proof (induction us)
  case (Cons u us)
  show ?case
  proof (cases "us_id u = i")
    case True
    with Cons.prems have "update_where (\<lambda>u. us_id u = i) f us = us" by (intro update_where_id) (auto simp: image_iff)
    with True Cons.prems show ?thesis by simp
  next
    case False
    with Cons show ?thesis by (auto simp: set_update_where)
  qed
qed simp

text \<open>A rename that is allowed is a rename that the tables accept.\<close>

lemma rename_row:
  assumes "forge_ok w" and "\<not> is_name_taken new (fg_core w)" and "find (\<lambda>u. us_id u = i) (db_users (fg_core w)) = Some u"
    and us_def: "us = update_where (\<lambda>u. us_id u = i) (new_profile (Some new) location readme links display_name) (db_users (fg_core w))"
  shows "(\<exists>v. user_update i (Some new) location readme links display_name (fg_core w) = (Inr v, (fg_core w)\<lparr>db_users := us\<rparr>))
    \<or> user_update i (Some new) location readme links display_name (fg_core w) = (Inl OtherDbError, fg_core w)"
    and "owners_ok ((fg_core w)\<lparr>db_users := us\<rparr>)"
proof -
  let ?core = "fg_core w"
  have ok: "users_ok (db_users ?core)" "orgs_ok (db_orgs ?core)" "names_apart ?core"
    using forge_okD(1) [OF assms(1)] by (simp_all add: owners_ok_def)
  have new: "new \<notin> us_name ` set (db_users ?core)" "new \<notin> og_name ` set (db_orgs ?core)"
    using assms(2) by (auto simp: is_name_taken_def list_ex_iff)
  have names: "users_ok us"
    using ok(1) renamed_distinct [of "db_users ?core" new _ i] new(1) by (simp add: us_def users_ok_def map_key_update_where)
  have "find (\<lambda>u. us_id u = i) us = Some (new_profile (Some new) location readme links display_name u)"
    using find_SomeD [OF assms(3)] assms(3)
      find_update_where_same [of "\<lambda>u. us_id u = i" "new_profile (Some new) location readme links display_name"]
    by (simp add: us_def)
  then show "(\<exists>v. user_update i (Some new) location readme links display_name ?core = (Inr v, ?core\<lparr>db_users := us\<rparr>))
      \<or> user_update i (Some new) location readme links display_name ?core = (Inl OtherDbError, ?core)"
    using names by (simp add: user_update_profile checked_def us_def)
  show "owners_ok (?core\<lparr>db_users := us\<rparr>)"
    using names ok new(2) names_apartD [OF ok(3)]
    by (auto simp: owners_ok_def names_apart_def list_all_iff us_def set_update_where)
qed

text \<open>Who owns a row after the rename.\<close>

lemma rename_owner:
  assumes "forge_ok w" and "find (\<lambda>u. us_id u = i) (db_users (fg_core w)) = Some u" and "r \<in> set (db_repos (fg_core w))"
    and "\<And>u. us_id (f u) = us_id u" "\<And>u. us_name (f u) = new"
  shows "owner_name_of ((fg_core w)\<lparr>db_users := update_where (\<lambda>u. us_id u = i) f (db_users (fg_core w))\<rparr>) r
    = Some (if the_owner (fg_core w) r = us_name u then new else the_owner (fg_core w) r)"
proof -
  let ?core = "fg_core w"
  have own: "owner_name_of ?core r = Some (the_owner ?core r)"
    using forge_okD(3) [OF assms(1,3)] by (simp add: housed_owner)
  have u: "u \<in> set (db_users ?core)" "us_id u = i" using find_SomeD [OF assms(2)] by auto
  have "(i, us_name u) \<in> set (owners ?core)" using u by (auto simp: owners_def)
  then have who: "rp_owner_id r = i \<longleftrightarrow> the_owner ?core r = us_name u"
    using owners_inj [OF forge_okD(1) [OF assms(1)] owner_name_owners [OF own]] by blast
  show ?thesis
  proof (cases "rp_owner_type r")
    case UserOwner
    have "find (\<lambda>x. us_id x = rp_owner_id r) (update_where (\<lambda>u. us_id u = i) f (db_users ?core))
        = map_option (\<lambda>x. if us_id x = i then f x else x) (find (\<lambda>x. us_id x = rp_owner_id r) (db_users ?core))"
      by (rule find_update_where_same) (simp add: assms(4))
    moreover obtain z where "find (\<lambda>x. us_id x = rp_owner_id r) (db_users ?core) = Some z" "us_name z = the_owner ?core r"
      using own UserOwner by (auto simp: owner_name_of_def find_user_def)
    moreover from this(1) have "us_id z = rp_owner_id r" using find_SomeD by fastforce
    ultimately show ?thesis
      using UserOwner who assms(5) by (simp add: owner_name_of_def find_user_def)
  next
    case OrganizationOwner
    then obtain g where "g \<in> set (db_orgs ?core)" "og_id g = rp_owner_id r"
      using own by (auto simp: owner_name_of_def find_org_def dest!: find_SomeD)
    then have "rp_owner_id r \<noteq> i"
      using names_apartD [of ?core u g] u forge_okD(1) [OF assms(1)] by (auto simp: owners_ok_def)
    with who own OrganizationOwner show ?thesis by (simp add: owner_name_of_def find_org_def)
  qed
qed

text \<open>Moving the directory and writing the name, together.\<close>

lemma forge_ok_rename:
  assumes "forge_ok w" and "\<not> is_name_taken new (fg_core w)" and "find (\<lambda>u. us_id u = i) (db_users (fg_core w)) = Some u"
    and "us_name u \<noteq> new" and "git_rename_owner works (us_name u) new (fg_disk w) = (Inr x, d)"
    and us_def: "us = update_where (\<lambda>u. us_id u = i) (new_profile (Some new) location readme links display_name) (db_users (fg_core w))"
  shows "forge_ok (w\<lparr>fg_core := (fg_core w)\<lparr>db_users := us\<rparr>, fg_disk := d\<rparr>)"
proof -
  let ?core = "fg_core w" and ?core' = "(fg_core w)\<lparr>db_users := us\<rparr>"
  have moved: "on_disk (if the_owner ?core r = us_name u then new else the_owner ?core r) (rp_name r) d"
    if "r \<in> set (db_repos ?core)" for r
  proof (cases "fg_disk w (us_name u)")
    case None
    then have "\<not> on_disk (us_name u) (rp_name r) (fg_disk w)" by (simp add: on_disk_def owner_dir_def)
    then show ?thesis using None all_housed [OF assms(1) that] assms(5) by (auto simp: git_rename_owner_def)
  next
    case (Some rs)
    then have d: "d = move_owner (us_name u) new (fg_disk w)" and free: "\<not> on_disk new k (fg_disk w)" for k
      using assms(4,5) by (auto simp: git_rename_owner_def on_disk_def split: if_splits)
    show ?thesis
      using dirs.all_mv [of "set (db_repos ?core)" "the_owner ?core" rp_name "fg_disk w" "us_name u" new r]
        all_housed [OF assms(1)] assms(4) free that by (simp add: d)
  qed
  have "housed ?core' d r" if "r \<in> set (db_repos ?core)" for r
  proof -
    have "owner_name_of ?core' r = Some (if the_owner ?core r = us_name u then new else the_owner ?core r)"
      unfolding us_def by (rule rename_owner [OF assms(1,3) that]) simp_all
    with moved [OF that] all_housed [OF assms(1) that] show ?thesis
      by (simp add: housed_def)
  qed
  then show ?thesis
    using rename_row(2) [OF assms(1-3) us_def] forge_okD(2) [OF assms(1)]
    by (auto simp: forge_ok_def list_all_iff)
qed

text \<open>A rename that the tables reject is undone: the rows find their directories where they were.\<close>

lemma taken_owner:
  assumes "owner_name_of core r = Some n"
  shows "is_name_taken n core"
  using assms by (auto simp: owner_name_of_def is_name_taken_def list_ex_iff find_user_def find_org_def
      split: owner_type.splits dest!: find_SomeD)

lemma forge_ok_undone:
  assumes "forge_ok w" and "\<not> is_name_taken new (fg_core w)" and "old \<noteq> new"
    and "git_rename_owner works old new (fg_disk w) = (Inr x, d)"
  shows "forge_ok (w\<lparr>fg_disk := snd (git_rename_owner True new old d)\<rparr>)"
proof (rule forge_ok_disk [OF assms(1)])
  fix r assume r: "r \<in> set (db_repos (fg_core w))"
  have home: "on_disk (the_owner (fg_core w) r) (rp_name r) (fg_disk w)"
    and "owner_name_of (fg_core w) r = Some (the_owner (fg_core w) r)"
    using forge_okD(3) [OF assms(1) r] by (simp_all add: housed_owner)
  then have "the_owner (fg_core w) r \<noteq> new" using taken_owner assms(2) by metis
  then have "on_disk (the_owner (fg_core w) r) (rp_name r) (snd (git_rename_owner True new old d))"
    using home assms(3,4)
    by (auto simp: git_rename_owner_def move_owner_def on_disk_def owner_dir_def split: option.splits if_splits)
  then show "housed (fg_core w) (snd (git_rename_owner True new old d)) r"
    using forge_okD(3) [OF assms(1) r] by (simp add: housed_owner)
qed

lemma update_current_user_keeps:
  assumes "forge_ok w" and "fi_rename io 1"
  shows "forge_ok (snd (update_current_user env io user_id name location readme links display_name w))"
proof (cases "wanted_rename env user_id name (fg_core w)")
  case (Inr rename)
  show ?thesis
  proof (cases rename)
    case None
    have "kept w (w\<lparr>fg_core := snd (user_update user_id None location readme links display_name (fg_core w))\<rparr>)"
      by (rule kept_core(1) [OF same_shape_profile])
    from kept_ok [OF this assms(1)] show ?thesis
      by (auto simp: update_current_user_def Inr None move_directory_def answer_with_def undo_rename_def split: prod.split sum.split)
  next
    case (Some names)
    obtain old new where names: "names = (old, new)" by fastforce
    from Inr obtain u where u: "find (\<lambda>u. us_id u = user_id) (db_users (fg_core w)) = Some u" "us_name u = old"
      and new: "\<not> is_name_taken new (fg_core w)" "old \<noteq> new"
      by (auto simp: wanted_rename_def Some names find_caller_def user_get_by_id_def user_view_def user_row.defs
          split: option.splits if_splits)
    show ?thesis
    proof (cases "git_rename_owner (fi_rename io 0) old new (fg_disk w)")
      case (Pair res d)
      show ?thesis
      proof (cases res)
        case (Inl e)
        with Pair have "d = fg_disk w" by (auto simp: git_rename_owner_def split: option.splits if_splits)
        then show ?thesis
          using assms by (simp add: update_current_user_def \<open>wanted_rename _ _ _ _ = _\<close> Some names move_directory_def disk_do_def Pair Inl)
      next
        case (Inr x)
        let ?us = "update_where (\<lambda>u. us_id u = user_id) (new_profile (Some new) location readme links display_name) (db_users (fg_core w))"
        note run = update_current_user_def \<open>wanted_rename _ _ _ _ = _\<close> Some names move_directory_def disk_do_def Pair Inr
        consider v where "user_update user_id (Some new) location readme links display_name (fg_core w) = (Inr v, (fg_core w)\<lparr>db_users := ?us\<rparr>)"
          | "user_update user_id (Some new) location readme links display_name (fg_core w) = (Inl OtherDbError, fg_core w)"
          using rename_row(1) [OF assms(1) new(1) u(1) refl] by blast
        then show ?thesis
        proof cases
          case (1 v)
          have "forge_ok (w\<lparr>fg_core := (fg_core w)\<lparr>db_users := ?us\<rparr>, fg_disk := d\<rparr>)"
            by (rule forge_ok_rename [OF assms(1) new(1) u(1) _ _ refl]) (use u(2) new(2) Pair Inr in simp_all)
          with 1 show ?thesis by (simp add: run)
        next
          case 2
          have "forge_ok (w\<lparr>fg_disk := snd (git_rename_owner True new old d)\<rparr>)"
            by (rule forge_ok_undone [OF assms(1) new(1,2)]) (use Pair Inr in simp)
          then show ?thesis using assms(2)
            by (simp add: run 2 undo_rename_def split_beta)
        qed
      qed
    qed
  qed
qed (use assms in \<open>simp add: update_current_user_def\<close>)

section \<open>New owners\<close>

text \<open>A new owner at the end of its table does not change who owns the rows that have an owner.\<close>

lemma forge_ok_new_owners:
  assumes "forge_ok w" and "owners_ok core" and "db_repos core = db_repos (fg_core w)"
    and "db_users core = db_users (fg_core w) @ us" and "db_orgs core = db_orgs (fg_core w) @ gs"
  shows "forge_ok (w\<lparr>fg_core := core\<rparr>)"
proof -
  have "owner_name_of core r = Some n" if "owner_name_of (fg_core w) r = Some n" for r n
    using that assms(4,5)
    by (auto simp: owner_name_of_def find_user_def find_org_def find_append split: owner_type.splits option.splits)
  then have "housed core (fg_disk w) r" if "r \<in> set (db_repos (fg_core w))" for r
    using forge_okD(3) [OF assms(1) that] by (auto simp: housed_def split: option.splits)
  then show ?thesis
    using assms(2,3) forge_okD(2) [OF assms(1)] by (simp add: forge_ok_def list_all_iff)
qed

lemma create_organization_keeps:
  assumes "forge_ok w" and "fi_id io 0 \<notin> us_id ` set (db_users (fg_core w))"
  shows "forge_ok (snd (create_organization env io name owner_id readme w))"
proof (cases "validate_name (fe_lower env) (fe_offensive env) ''organization name'' name = Inr ()
    \<and> org_get name (fg_core w) = None \<and> user_get name (fg_core w) = None")
  case True
  let ?core = "fg_core w"
  obtain res core where made: "org_create (fi_id io 0) (fi_id io 1) (fi_now io) name owner_id readme ?core = (res, core)" by fastforce
  have free: "name \<notin> us_name ` set (db_users ?core)"
    using True by (auto simp: user_get_def find_None_iff)
  have "core = ?core \<or> (\<exists>g ms. og_id g = fi_id io 0 \<and> og_name g = name \<and> orgs_ok (db_orgs ?core @ [g])
      \<and> core = ?core\<lparr>db_orgs := db_orgs ?core @ [g], db_members := ms\<rparr>)"
    using made by (fastforce simp: org_create_def Let_def checked_def split: if_splits)
  then have "forge_ok (w\<lparr>fg_core := core\<rparr>)"
  proof (elim disjE exE conjE)
    fix g ms assume g: "og_id g = fi_id io 0" "og_name g = name" "orgs_ok (db_orgs ?core @ [g])"
      "core = ?core\<lparr>db_orgs := db_orgs ?core @ [g], db_members := ms\<rparr>"
    show ?thesis
      by (rule forge_ok_new_owners [where us = "[]" and gs = "[g]"])
        (use assms g free forge_okD(1) [OF assms(1)] in \<open>auto simp: owners_ok_def names_apart_def list_all_iff image_iff\<close>)
  qed (use assms in simp)
  with True made show ?thesis by (cases res) (auto simp: create_organization_def core_do_def)
qed (use assms in \<open>auto simp: create_organization_def then_do_def split: sum.splits prod.splits\<close>)

text \<open>
  Sign-up looks at the users only: that the handle is no organization's name is an assumption on
  what the random generator draws.
\<close>

lemma user_insert_keeps:
  assumes "forge_ok (w\<lparr>fg_core := core\<rparr>)" and "name \<notin> og_name ` set (db_orgs core)" and "new_id \<notin> og_id ` set (db_orgs core)"
  shows "forge_ok (w\<lparr>fg_core := snd (user_insert readme new_id email_id now name email verified provider core)\<rparr>)"
proof -
  let ?core = "snd (user_insert readme new_id email_id now name email verified provider core)"
  have "?core = core \<or> (\<exists>u es. us_id u = new_id \<and> us_name u = name \<and> users_ok (db_users core @ [u])
      \<and> ?core = put_emails es (core\<lparr>db_users := db_users core @ [u]\<rparr>))"
    by (fastforce simp: user_insert_def Let_def checked_def)
  then show ?thesis
  proof (elim disjE exE conjE)
    fix u es assume u: "us_id u = new_id" "us_name u = name" "users_ok (db_users core @ [u])"
      and core: "?core = put_emails es (core\<lparr>db_users := db_users core @ [u]\<rparr>)"
    have "forge_ok ((w\<lparr>fg_core := core\<rparr>)\<lparr>fg_core := ?core\<rparr>)"
      by (rule forge_ok_new_owners [where us = "[u]" and gs = "[]"])
        (use assms u forge_okD(1) [OF assms(1)] in \<open>auto simp: core owners_ok_def names_apart_def list_all_iff image_iff\<close>)
    then show ?thesis by simp
  qed (use assms in simp)
qed

lemma user_insert_orgs [simp]:
  "db_orgs (snd (user_insert readme new_id email_id now name email verified provider core)) = db_orgs core"
  by (simp add: user_insert_def Let_def checked_def)

lemma user_create_from_keeps:
  assumes "forge_ok (w\<lparr>fg_core := core\<rparr>)"
    and "\<And>k. generated_name (handle k) \<notin> og_name ` set (db_orgs core) \<and> fst (ids k) \<notin> og_id ` set (db_orgs core)"
  shows "forge_ok (w\<lparr>fg_core := snd (user_create_from readme handle ids now email verified provider attempt core)\<rparr>)"
  using assms
proof (induction readme handle ids now email verified provider attempt core rule: user_create_from.induct)
  case (1 readme handle ids now email verified provider attempt core)
  let ?call = "user_insert readme (fst (ids attempt)) (snd (ids attempt)) now (generated_name (handle attempt)) email verified provider core"
  have ok: "forge_ok (w\<lparr>fg_core := snd ?call\<rparr>)" using user_insert_keeps "1.prems" by blast
  have orgs: "db_orgs (snd ?call) = db_orgs core" by simp
  show ?case
  proof (cases ?call)
    case (Pair res core')
    with ok orgs "1.IH" [of "Inl _" core'] "1.prems"(2) show ?thesis
      by (subst user_create_from.simps) (auto split: sum.split)
  qed
qed

lemma user_create_keeps:
  assumes "forge_ok w"
    and "\<And>k. generated_name (handle k) \<notin> og_name ` set (db_orgs (fg_core w)) \<and> fst (ids k) \<notin> og_id ` set (db_orgs (fg_core w))"
  shows "forge_ok (w\<lparr>fg_core := snd (user_create readme handle ids now email verified provider (fg_core w))\<rparr>)"
  using user_create_from_keeps [where w = w and core = "fg_core w" and handle = handle and ids = ids] assms by (simp add: user_create_def)

section \<open>Any sequence of operations\<close>

inductive forge_step :: "forge \<Rightarrow> forge \<Rightarrow> bool" where
  create: "request_ok (fg_core w) req \<Longrightarrow> forge_step w (snd (create_repository env io req w))"
| delete: "forge_step w (snd (delete_repository io owner repo w))"
| update: "forge_step w (snd (update_repository ureq w))"
| star: "forge_step w (snd (star_repository io owner repo user_id w))"
| unstar: "forge_step w (snd (unstar_repository owner repo user_id w))"
| new_filter: "forge_step w (snd (create_repository_commit_filter io freq w))"
| set_filter: "forge_step w (snd (update_repository_commit_filter io freq filter_id w))"
| drop_filter: "forge_step w (snd (delete_repository_commit_filter owner repo filter_id w))"
| profile: "fi_rename io 1 \<Longrightarrow> forge_step w (snd (update_current_user env io user_id name location readme links display_name w))"
| picture: "forge_step w (snd (update_current_user_image io user_id w))"
| leave: "forge_step w (w\<lparr>fg_core := mark_user_as_deleted now user_id (fg_core w)\<rparr>)"
| found: "fi_id io 0 \<notin> us_id ` set (db_users (fg_core w)) \<Longrightarrow> forge_step w (snd (create_organization env io name owner_id readme' w))"
| reform: "forge_step w (snd (update_organization name' location readme links display_name w))"
| emblem: "forge_step w (snd (update_organization_image io name' w))"
| invite: "forge_step w (snd (service_add_member io name' user role description w))"
| describe: "forge_step w (snd (service_update_member env name' member_id description w))"
| sign_up: "(\<And>k. generated_name (handle k) \<notin> og_name ` set (db_orgs (fg_core w)) \<and> fst (ids k) \<notin> og_id ` set (db_orgs (fg_core w)))
    \<Longrightarrow> forge_step w (w\<lparr>fg_core := snd (user_create readme'' handle ids now email verified provider (fg_core w))\<rparr>)"
| push: "forge_step w (w\<lparr>fg_core := snd (create_bulk rows (fg_core w))\<rparr>)"

lemma forge_step_keeps: "forge_step w w' \<Longrightarrow> forge_ok w \<Longrightarrow> forge_ok w'"
proof (induction rule: forge_step.induct)
  case sign_up
  then show ?case by (intro user_create_keeps)
qed (auto intro: create_repository_keeps delete_repository_keeps update_current_user_keeps create_organization_keeps
    kept_ok [OF kept_repository_operations(1)] kept_ok [OF kept_repository_operations(2)] kept_ok [OF kept_repository_operations(3)]
    kept_ok [OF kept_repository_operations(4)] kept_ok [OF kept_repository_operations(5)] kept_ok [OF kept_repository_operations(6)]
    kept_ok [OF kept_owner_operations(1)] kept_ok [OF kept_owner_operations(2)] kept_ok [OF kept_owner_operations(3)]
    kept_ok [OF kept_owner_operations(4)] kept_ok [OF kept_owner_operations(5)]
    kept_ok [OF kept_core(1) [OF same_shape_owner_statements(6)]] kept_ok [OF kept_core(1) [OF same_shape_repo_statements(7)]])

lemma forge_steps_keep: "forge_step\<^sup>*\<^sup>* w w' \<Longrightarrow> forge_ok w \<Longrightarrow> forge_ok w'"
  by (induction rule: rtranclp_induct) (auto intro: forge_step_keeps)

end
