(* ===== verification/ForgeSafety.thy ===== *)
theory ForgeSafety
  imports ForgeProps
begin

text \<open>
  What the tables and the disk promise each other: a repository that can be found has its
  directory after any sequence of operations; a creation that fails is undone, unless a hook
  cannot be installed, and then the name is lost.
\<close>

section \<open>A creation that fails\<close>

text \<open>No row refers to the identifier that the database is about to draw.\<close>

definition unused_id :: "uuid \<Rightarrow> core_db \<Rightarrow> bool" where
  "unused_id i core \<longleftrightarrow> i \<notin> rp_id ` set (db_repos core) \<and> i \<notin> sr_repository_id ` set (db_stars core)
     \<and> i \<notin> cf_repository_id ` set (db_filters core) \<and> i \<notin> cm_repo_id ` set (db_commits core)"






section \<open>A name that is lost\<close>

text \<open>C22:
  When a hook cannot be installed, the creation fails with a git error, the tables are as before and the
  directory stays. From then on no creation of that name succeeds: every one answers Conflict. The
  repository cannot be deleted either: every deletion answers NotFound and changes nothing.
\<close>

theorem missing_hook_loses_the_name:
  assumes "\<not> fe_offensive env (nr_name req)" and "\<not> on_disk (nr_owner_name req) (nr_name req) (fg_disk w)"
    and "owner_id_of req w = (Inr owner_id, w)" and "fi_create io = CreateDone"
    and "\<not> (fi_hooks io 0 \<and> fi_hooks io 1 \<and> fi_hooks io 2)"
    and "repo_get (nr_owner_name req) (nr_name req) None (fg_core w) = Inr None"
  shows "\<exists>w'. create_repository env io req w = (Inl (RepositoryGitError (GitIoError ''hook'')), w')
    \<and> fg_core w' = fg_core w
    \<and> (\<forall>env' io' req'. nr_owner_name req' = nr_owner_name req \<and> nr_name req' = nr_name req
        \<longrightarrow> (\<exists>c. create_repository env' io' req' w' = (Inl (RepositoryConflict c), w')))
    \<and> (\<forall>io'. delete_repository io' (nr_owner_name req) (nr_name req) w'
        = (Inl (RepositoryNotFound (NotFoundError ''repository'' (IdStr (nr_owner_name req @ ''/'' @ nr_name req)))), w'))"
proof -
  let ?w = "w\<lparr>fg_disk := put_repo (nr_owner_name req) (nr_name req) (fg_disk w)\<rparr>"
  have "create_repository env io req w = (Inl (RepositoryGitError (GitIoError ''hook'')), ?w)"
    using assms(1-5) by (auto simp: create_repository_def disk_do_def install_hooks_def)
  moreover have "on_disk (nr_owner_name req) (nr_name req) (fg_disk ?w)" by (simp add: on_disk_def)
  moreover have "lookup_repository (nr_owner_name req) (nr_name req) None (fg_core ?w)
      = Inl (RepositoryNotFound (NotFoundError ''repository'' (IdStr (nr_owner_name req @ ''/'' @ nr_name req))))"
    using assms(6) by (simp add: lookup_repository_def repository_found_def)
  ultimately show ?thesis
    by (intro exI [of _ ?w]) (auto simp: create_repository_def delete_repository_def)
qed

section \<open>Every repository has its directory\<close>

text \<open>C3:
  In a world where every row has its directory, whatever sequence of operations the services then
  run, on repositories, users and organizations, with any failures of the disk, the hooks, the
  commits and of the statements that the tables reject, except that the undo of a rename works: a
  repository that can be looked up has its directory, under the name of its owner. Renaming an owner
  moves the directories with the name and back when the new profile is rejected, and a creation that
  cannot be completed leaves no row. (A database that cannot be reached is outside the model.)
\<close>

theorem found_repositories_have_directories:
  assumes "forge_ok w" and "forge_step\<^sup>*\<^sup>* w w'" and "repo_get owner repo viewer (fg_core w') = Inr (Some v)"
  shows "on_disk owner repo (fg_disk w') \<and> rp_name v = repo \<and> rp_owner_name v = owner"
proof -
  have ok: "forge_ok w'" using forge_steps_keep [OF assms(2,1)] .
  obtain r where r: "repo_view (fg_core w') viewer r = Inr v" "rp_owner_id r \<in> set (owner_ids (fg_core w') owner)" "rp_name r = repo"
    using assms(3)
    by (auto simp: repo_get_def fetch_optional_def filter_eq_Cons_iff split: list.splits sum.splits)
  then have "rp_name v = repo" and name: "owner_name_of (fg_core w') r = Some (rp_owner_name v)"
    by (auto simp: repo_view_def repo_row.extend_def repository.fields_def split: option.splits)
  moreover have "rp_owner_name v = owner"
    using owner_name_iff [OF forge_okD(1) [OF ok] name] r(2) by simp
  moreover have "on_disk owner repo (fg_disk w')"
    by (rule repo_get_found [OF ok assms(3)]) simp
  ultimately show ?thesis by simp
qed

text \<open>
  The exception is needed. The request bounds neither \<open>location\<close> nor \<open>display_name\<close>: a rename that
  comes with a text too long for its column moves the directory, fails on the row, and when the
  directory cannot be moved back (the failure is only logged), every repository of the user is found
  by name and has no directory.
\<close>

lemma failed_undo_strands_repositories:
  assumes "forge_ok w" and "wanted_rename env i (Some new) (fg_core w) = Inr (Some (old, new))"
    and "fg_disk w old \<noteq> None" and "owner_dir new (fg_disk w) = {}"
    and "fi_rename io 0" and "\<not> fi_rename io 1" and "profile_overflows location display_name"
  shows "\<exists>w'. update_current_user env io i (Some new) location readme links display_name w = (Inl (UserDatabaseError OtherDbError), w')
    \<and> fg_core w' = fg_core w
    \<and> (\<forall>repo viewer v. repo_get old repo viewer (fg_core w') = Inr (Some v)
        \<longrightarrow> \<not> on_disk old repo (fg_disk w') \<and> on_disk new repo (fg_disk w'))"
proof -
  let ?w = "w\<lparr>fg_disk := move_owner old new (fg_disk w)\<rparr>"
  obtain u where u: "find (\<lambda>u. us_id u = i) (db_users (fg_core w)) = Some u" and ne: "old \<noteq> new"
    using assms(2) by (auto simp: wanted_rename_def find_caller_def user_get_by_id_def user_view_def user_row.defs
        split: option.splits if_splits)
  have "list_ex (\<lambda>u. us_id u = i) (db_users (fg_core w))"
    using find_SomeD [OF u] by (auto simp: list_ex_iff)
  then have rejected: "user_update i (Some new) location readme links display_name (fg_core w) = (Inl OtherDbError, fg_core w)"
    using assms(7) by (simp add: user_update_def)
  obtain rs where rs: "fg_disk w old = Some rs" using assms(3) by auto
  have moved: "git_rename_owner True old new (fg_disk w) = (Inr (), move_owner old new (fg_disk w))"
    using rs ne assms(4) by (simp add: git_rename_owner_def)
  have stuck: "git_rename_owner False new old d = (case d new of None \<Rightarrow> (Inr (), d) | Some _ \<Rightarrow> (Inl (GitIoError ''rename''), d))" for d
    using ne by (simp add: git_rename_owner_def split: option.split)
  have "update_current_user env io i (Some new) location readme links display_name w = (Inl (UserDatabaseError OtherDbError), ?w)"
    using assms(5,6) ne
    by (simp add: update_current_user_def assms(2) move_directory_def disk_do_def moved rejected undo_rename_def stuck
        is_unique_violation_def split_beta split: option.split)
  moreover have "\<not> on_disk old repo (fg_disk ?w) \<and> on_disk new repo (fg_disk ?w)"
    if "repo_get old repo viewer (fg_core ?w) = Inr (Some v)" for repo viewer v
    using repo_get_found [OF assms(1), of old repo viewer v] that ne
    by (simp add: on_disk_def owner_dir_def move_owner_def)
  ultimately show ?thesis by (intro exI [of _ ?w]) auto
qed

section \<open>At a concrete world\<close>

definition alice_forge :: forge where
  "alice_forge =
     \<lparr>fg_core = empty_core\<lparr>db_users := [demo_user 9 ''alice''],
        db_emails := [\<lparr>em_id = 1, em_user_id = 9, em_email = ''a@b.c'', em_is_primary = True, em_is_verified = True,
                        em_created_at = 0, em_verified_at = Some 0\<rparr>]\<rparr>,
      fg_reviews = \<lparr>db_reviews = [], db_diffs = [], db_revisions = [], db_reviewers = [], db_verdicts = [], db_comments = []\<rparr>,
      fg_disk = Map.empty\<rparr>"

definition calm_io :: forge_io where
  "calm_io = \<lparr>fi_now = 5, fi_id = (\<lambda>k. 20 + k), fi_create = CreateDone, fi_hooks = (\<lambda>_. True), fi_delete = True,
     fi_rename = (\<lambda>_. True), fi_commit = Inr (replicate 40 CHR ''a''), fi_webp = None, fi_upload = True\<rparr>"

definition plain_env :: forge_env where
  "plain_env = \<lparr>fe_lower = id, fe_offensive = (\<lambda>_. False), fe_show_uuid = (\<lambda>_. []), fe_encode = (\<lambda>_. []),
     fe_gitignore = id, fe_license = id, fe_blob = (\<lambda>_ _ p. Inl (GitNotFound p)), fe_blobs = (\<lambda>_ _ _. Inr []),
     fe_paths = (\<lambda>_ _. Inr []), fe_ref_sha = (\<lambda>_ n. Inl (GitNotFound n)), fe_default_ref = (\<lambda>_. Inr ''refs/heads/main'')\<rparr>"

definition app_request :: create_repository_request where
  "app_request = \<lparr>nr_name = ''app'', nr_user_id = 9, nr_owner_name = ''alice'', nr_owner_type = UserOwner,
     nr_visibility = Public, nr_description = None, nr_init_readme = True, nr_gitignore = None, nr_license = None\<rparr>"

lemma alice_ok: "forge_ok alice_forge" "request_ok (fg_core alice_forge) app_request" "unused_id 20 (fg_core alice_forge)"
  "\<not> on_disk ''alice'' ''app'' (fg_disk alice_forge)"
  by (simp_all add: forge_ok_def owners_ok_def table_ok_defs names_apart_def alice_forge_def empty_core_def request_ok_def
      app_request_def plain_name_def strip_git_suffix_def unused_id_def on_disk_def owner_dir_def find_user_def demo_user_def)



definition no_hook_io :: forge_io where
  "no_hook_io = calm_io\<lparr>fi_hooks := (\<lambda>k. k < 2)\<rparr>"

theorem missing_hook_loses_the_name_witness:
  "\<exists>w'. create_repository plain_env no_hook_io app_request alice_forge = (Inl (RepositoryGitError (GitIoError ''hook'')), w')
     \<and> (\<exists>c. create_repository plain_env calm_io app_request w' = (Inl (RepositoryConflict c), w'))"
proof -
  have "repo_get ''alice'' ''app'' None (fg_core alice_forge) = Inr None"
    by (simp add: repo_get_def alice_forge_def empty_core_def fetch_optional_def)
  with missing_hook_loses_the_name [of plain_env app_request alice_forge 9 no_hook_io] alice_ok(4) show ?thesis
    by (auto simp: plain_env_def app_request_def owner_id_of_def no_hook_io_def calm_io_def)
qed

definition renamed_forge :: forge where
  "renamed_forge =
     snd (update_current_user plain_env calm_io 9 (Some ''bob'') None None None None
       (snd (create_repository plain_env calm_io app_request alice_forge)))"

lemma renamed_steps: "forge_step\<^sup>*\<^sup>* alice_forge renamed_forge"
  unfolding renamed_forge_def
  by (rule converse_rtranclp_into_rtranclp, rule forge_step.create [OF alice_ok(2)], rule r_into_rtranclp, rule forge_step.profile)
    (simp add: calm_io_def)

theorem found_repositories_have_directories_witness:
  "\<exists>v. repo_get ''bob'' ''app'' None (fg_core renamed_forge) = Inr (Some v) \<and> on_disk ''bob'' ''app'' (fg_disk renamed_forge)"
proof -
  have "case repo_get ''bob'' ''app'' None (fg_core renamed_forge) of Inr (Some v) \<Rightarrow> True | _ \<Rightarrow> False"
    by code_simp
  then obtain v where v: "repo_get ''bob'' ''app'' None (fg_core renamed_forge) = Inr (Some v)"
    by (auto split: sum.splits option.splits)
  from found_repositories_have_directories [OF alice_ok(1) renamed_steps v] v show ?thesis by blast
qed

text \<open>A display name of 256 letters, and a disk that moves one way only.\<close>

definition one_way_io :: forge_io where
  "one_way_io = calm_io\<lparr>fi_rename := (\<lambda>k. k = 0)\<rparr>"

lemma failed_undo_at_alice:
  "let w = snd (create_repository plain_env calm_io app_request alice_forge);
       w' = snd (update_current_user plain_env one_way_io 9 (Some ''bob'') None None None (Some (replicate 256 CHR ''x'')) w)
   in (case repo_get ''alice'' ''app'' None (fg_core w') of Inr (Some v) \<Rightarrow> True | _ \<Rightarrow> False)
     \<and> \<not> on_disk ''alice'' ''app'' (fg_disk w') \<and> on_disk ''bob'' ''app'' (fg_disk w')"
  by code_simp

end
