(* ===== verification/NameProps.thy ===== *)
theory NameProps
  imports Names TokenProps
begin

text \<open>
  A name that was accepted is in a normal form that parsing leaves alone, and it contains none of
  the separators of paths. The path \<open>owner/repo\<close> therefore names one repository; the S2 basin
  \<open>owner-repo\<close> does not, and it is not a valid basin for every repository.
\<close>

section \<open>Slugs\<close>

definition slug_char :: "char \<Rightarrow> bool" where
  "slug_char c \<longleftrightarrow> is_lower c \<or> is_digit c \<or> is_sep True c"

lemma validate_slug_Inr:
  "validate_slug s u = Inr () \<longleftrightarrow> 2 \<le> length s \<and> length s \<le> 32 \<and>
     (\<forall>c \<in> set s. is_lower c \<or> is_digit c \<or> is_sep u c) \<and> \<not> is_sep u (hd s) \<and> \<not> is_sep u (last s) \<and>
     \<not> list_ex (\<lambda>(a, b). is_sep u a \<and> is_sep u b) (zip s (tl s))"
proof -
  have "list_ex (\<lambda>c. \<not> (is_lower c \<or> is_digit c \<or> is_sep u c)) s \<longleftrightarrow>
      \<not> (\<forall>c \<in> set s. is_lower c \<or> is_digit c \<or> is_sep u c)" by (simp add: list_ex_iff)
  then show ?thesis unfolding validate_slug_def by (simp split: if_split)
qed

lemma slugD:
  assumes "validate_slug s u = Inr ()"
  shows "2 \<le> length s" "length s \<le> 32" "s \<noteq> []" "\<forall>c \<in> set s. is_lower c \<or> is_digit c \<or> is_sep u c"
    and "c \<in> set s \<Longrightarrow> slug_char c" and "\<not> is_sep u (hd s)" "\<not> is_sep u (last s)"
proof -
  note v = assms [unfolded validate_slug_Inr]
  show "2 \<le> length s" "length s \<le> 32" "\<not> is_sep u (hd s)" "\<not> is_sep u (last s)"
    "\<forall>c \<in> set s. is_lower c \<or> is_digit c \<or> is_sep u c" using v by simp_all
  show "s \<noteq> []" using v by (metis list.size(3) not_numeral_le_zero)
  have "is_sep u c \<Longrightarrow> is_sep True c" for c by (auto simp: is_sep_def)
  with v show "c \<in> set s \<Longrightarrow> slug_char c" unfolding slug_char_def by blast
qed

lemma slug_char_code:
  "slug_char c \<Longrightarrow> (of_char c :: nat) = 45 \<or> (of_char c :: nat) = 95 \<or>
     48 \<le> (of_char c :: nat) \<and> (of_char c :: nat) \<le> 57 \<or> 97 \<le> (of_char c :: nat) \<and> (of_char c :: nat) \<le> 122"
  by (auto simp: slug_char_def is_lower_def is_digit_def is_sep_def)

lemma slug_char_lower: "slug_char c \<Longrightarrow> (of_char c :: nat) < 128 \<and> ascii_lower c = c"
  using slug_char_code [of c] by (auto simp: ascii_lower_def)

lemma lower_slug: "lower_ok lower \<Longrightarrow> (\<And>c. c \<in> set s \<Longrightarrow> slug_char c) \<Longrightarrow> lower s = s"
  by (simp add: lower_ok_def slug_char_lower map_idI)

section \<open>Trimming leaves a slug alone\<close>

lemma strip_one_None:
  "s \<noteq> [] \<Longrightarrow> (\<And>w. w \<in> set ws \<Longrightarrow> w \<noteq> [] \<and> hd w \<noteq> hd s) \<Longrightarrow> strip_one ws s = None"
proof (induction ws)
  case (Cons w ws)
  then have "w \<noteq> []" "hd w \<noteq> hd s" by auto
  then have "take (length w) s \<noteq> w" by (metis hd_take length_greater_0_conv)
  with Cons show ?case by simp
qed simp

lemma strip_all_id:
  "s \<noteq> [] \<Longrightarrow> (\<And>w. w \<in> set ws \<Longrightarrow> w \<noteq> [] \<and> hd w \<noteq> hd s) \<Longrightarrow> strip_all ws s = s"
  by (subst strip_all.simps) (simp add: strip_one_None)

lemma white_space_edges:
  "w \<in> set white_space \<Longrightarrow> w \<noteq> [] \<and> \<not> slug_char (hd w)"
  "w \<in> set (map rev white_space) \<Longrightarrow> w \<noteq> [] \<and> \<not> slug_char (hd w)"
  by (auto simp: white_space_def slug_char_def is_lower_def is_digit_def is_sep_def)

lemma trim_slug:
  assumes "s \<noteq> []" "\<And>c. c \<in> set s \<Longrightarrow> slug_char c"
  shows "trim s = s"
proof -
  have "slug_char (hd s)" "slug_char (hd (rev s))" using assms by (simp_all add: hd_rev)
  then have "strip_all white_space s = s" "strip_all (map rev white_space) (rev s) = rev s"
    using white_space_edges assms(1) by (metis rev_is_Nil_conv strip_all_id)+
  then show ?thesis by (simp add: trim_def)
qed

lemma slug_no_suffix:
  assumes "\<And>c. c \<in> set s \<Longrightarrow> slug_char c"
  shows "strip_git_suffix s = s"
proof -
  have "drop (length s - 4) s \<noteq> ''.git''"
  proof
    assume "drop (length s - 4) s = ''.git''"
    then have "CHR ''.'' \<in> set s" by (metis in_set_dropD list.set_intros(1))
    with assms have "slug_char (CHR ''.'')" .
    then show False by (simp add: slug_char_def is_lower_def is_digit_def is_sep_def)
  qed
  then show ?thesis by (simp add: strip_git_suffix_def)
qed

lemma slug_no_slash: "slug_char c \<Longrightarrow> c \<noteq> CHR ''/'' \<and> c \<noteq> CHR ''.''"
  by (auto simp: slug_char_def is_lower_def is_digit_def is_sep_def)

section \<open>Normal forms\<close>

lemma parse_slug:
  "owner_name_parse lower v f = Inr n \<Longrightarrow> validate_slug n False = Inr ()"
  "repository_name_parse lower v f = Inr n \<Longrightarrow> validate_slug n True = Inr ()"
  "runner_name_parse lower v f = Inr n \<Longrightarrow> validate_slug n True = Inr ()"
  by (auto simp: owner_name_parse_def repository_name_parse_def runner_name_parse_def Let_def)

lemma slug_parse:
  assumes "lower_ok lower"
  shows "validate_slug n False = Inr () \<Longrightarrow> owner_name_parse lower n f = Inr n"
    and "validate_slug n True = Inr () \<Longrightarrow> repository_name_parse lower n f = Inr n"
    and "validate_slug n True = Inr () \<Longrightarrow> runner_name_parse lower n f = Inr n"
  using slugD(3,5) [of n] lower_slug [OF assms, of n] trim_slug [of n] slug_no_suffix [of n]
  by (simp_all add: owner_name_parse_def repository_name_parse_def runner_name_parse_def Let_def)

lemma slash_split:
  "CHR ''/'' \<notin> set a \<Longrightarrow> CHR ''/'' \<notin> set b \<Longrightarrow> a @ CHR ''/'' # c = b @ CHR ''/'' # d \<Longrightarrow> a = b \<and> c = d"
  by (induction a arbitrary: b; case_tac b; auto)

text \<open>
  C30: An owner name and a repository name that were accepted have 2 to 32 bytes, all of them
  lowercase letters, digits and hyphens (and underscores in a repository name), and parse to
  themselves; the path \<open>owner/repo\<close> determines both.
\<close>

theorem accepted_names_are_canonical:
  assumes "lower_ok lower" and "owner_name_parse lower v f = Inr n" and "repository_name_parse lower w g = Inr m"
  shows "2 \<le> length n \<and> length n \<le> 32 \<and> (\<forall>c \<in> set n. is_lower c \<or> is_digit c \<or> is_sep False c) \<and>
    2 \<le> length m \<and> length m \<le> 32 \<and> (\<forall>c \<in> set m. is_lower c \<or> is_digit c \<or> is_sep True c) \<and>
    owner_name_parse lower n f = Inr n \<and> repository_name_parse lower m g = Inr m \<and>
    (\<forall>n' m'. CHR ''/'' \<notin> set n' \<longrightarrow> n @ ''/'' @ m = n' @ ''/'' @ m' \<longrightarrow> n = n' \<and> m = m')"
proof -
  note n = parse_slug(1) [OF assms(2)] and m = parse_slug(2) [OF assms(3)]
  have "CHR ''/'' \<notin> set n" using slugD(5) [OF n] slug_no_slash by blast
  then have "n = n' \<and> m = m'" if "CHR ''/'' \<notin> set n'" "n @ ''/'' @ m = n' @ ''/'' @ m'" for n' m'
    using slash_split [of n n' m m'] that by simp
  with slugD(1,2,4) [OF n] slugD(1,2,4) [OF m] slug_parse(1) [OF assms(1) n] slug_parse(2) [OF assms(1) m]
  show ?thesis by blast
qed

section \<open>Basins\<close>

lemma basin_edge_slug: "slug_char c \<Longrightarrow> basin_edge c \<or> c = CHR ''-''"
  by (auto simp: slug_char_def basin_edge_def is_sep_def)

lemma slug_edges:
  assumes "validate_slug s u = Inr ()"
  shows "basin_edge (hd s)" "basin_edge (last s)"
proof -
  have "hd s \<in> set s" "last s \<in> set s" using slugD(3) [OF assms] by simp_all
  with slugD(4,6,7) [OF assms] show "basin_edge (hd s)" "basin_edge (last s)"
    unfolding basin_edge_def by blast+
qed

lemma valid_basin:
  assumes "validate_slug n False = Inr ()" "validate_slug m True = Inr ()"
  shows "validate_basin_str False ''name'' (n @ ''-'' @ m) = Inr () \<longleftrightarrow>
    7 \<le> length n + length m \<and> length n + length m \<le> 47"
proof -
  obtain a s where n: "n = a # s" using slugD(3) [OF assms(1)] by (cases n) auto
  note e = slug_edges(1) [OF assms(1), unfolded n] slug_edges(2) [OF assms(2)] slugD(3) [OF assms(2)]
  have "\<not> list_ex (\<lambda>c. \<not> (basin_edge c \<or> c = CHR ''-'')) (butlast (s @ ''-'' @ m))"
    using slugD(5) [OF assms(1)] slugD(5) [OF assms(2)] basin_edge_slug
    by (auto simp: list_ex_iff n butlast_append dest!: in_set_butlastD)
  then show ?thesis
    using e by (simp add: validate_basin_str_def n MIN_BASIN_NAME_LEN_def MAX_BASIN_NAME_LEN_def)
qed

text \<open>
  C35: The basin of a repository is accepted exactly when the two names together have 7 to 47
  bytes. When the token can be signed and the S2 server answers that the basin is there and the
  stream is made, \<open>create_stream\<close> succeeds, with the address of the stream, for exactly these
  repositories. For any other it fails whatever the server answers. And two repositories of
  different owners can share a basin.
\<close>

definition server_agrees ::
  "token_lib \<Rightarrow> string \<Rightarrow> time \<Rightarrow> (string \<Rightarrow> s2_error + unit) \<Rightarrow> (string \<Rightarrow> string \<Rightarrow> s2_error + unit)
    \<Rightarrow> string \<Rightarrow> uuid \<Rightarrow> bool"
where
  "server_agrees l key now create_basin create_stream basin task_id \<longleftrightarrow>
     (\<exists>jwt. issue_internal_jwt l key now = Inr jwt) \<and> length (show_uuid l task_id) = 36 \<and>
     (create_basin basin = Inr () \<or> (\<exists>msg. create_basin basin = Inl (S2Server ''resource_already_exists'' msg))) \<and>
     create_stream basin (''task/'' @ show_uuid l task_id) = Inr ()"

lemma create_stream_succeeds:
  assumes "server_agrees l key now create_basin create_stream (basin_name lower n m) task_id"
    and "validate_basin_str False ''name'' (basin_name lower n m) = Inr ()"
  shows "s2_create_stream lower l key now create_basin create_stream show_error n m task_id
    = Inr (''s2://'' @ basin_name lower n m @ ''/task/'' @ show_uuid l task_id)"
  using assms
  by (auto simp: server_agrees_def s2_create_stream_def Let_def validate_stream_str_def MAX_STREAM_NAME_LEN_def
      basin_name_def)

theorem basins_do_not_fit_the_names:
  assumes "lower_ok lower" and "owner_name_parse lower v f = Inr n" and "repository_name_parse lower w g = Inr m"
  shows "(validate_basin_str False ''name'' (basin_name lower n m) = Inr () \<longleftrightarrow>
        7 \<le> length n + length m \<and> length n + length m \<le> 47) \<and>
    (\<forall>l key now create_basin create_stream show_error task_id.
       server_agrees l key now create_basin create_stream (n @ ''-'' @ m) task_id \<longrightarrow>
       (s2_create_stream lower l key now create_basin create_stream show_error n m task_id
           = Inr (''s2://'' @ n @ ''-'' @ m @ ''/task/'' @ show_uuid l task_id) \<longleftrightarrow>
         7 \<le> length n + length m \<and> length n + length m \<le> 47)) \<and>
    (length n + length m < 7 \<or> 47 < length n + length m \<longrightarrow>
        (\<forall>l key now create_basin create_stream show_error task_id.
           \<exists>e. s2_create_stream lower l key now create_basin create_stream show_error n m task_id = Inl e)) \<and>
    basin_name lower ''ab-cd'' ''efg'' = basin_name lower ''ab'' ''cd-efg'' \<and>
    owner_name_parse lower ''ab-cd'' f = Inr ''ab-cd'' \<and> owner_name_parse lower ''ab'' f = Inr ''ab'' \<and>
    repository_name_parse lower ''efg'' g = Inr ''efg'' \<and> repository_name_parse lower ''cd-efg'' g = Inr ''cd-efg''"
proof -
  note n = parse_slug(1) [OF assms(2)] and m = parse_slug(2) [OF assms(3)]
  have low: "lower n = n" "lower m = m"
    using lower_slug [OF assms(1)] slugD(5) [OF n] slugD(5) [OF m] by blast+
  then have b: "validate_basin_str False ''name'' (basin_name lower n m) = Inr () \<longleftrightarrow>
      7 \<le> length n + length m \<and> length n + length m \<le> 47"
    using valid_basin [OF n m] by (simp add: basin_name_def)
  have fails: "\<exists>e. s2_create_stream lower l key now create_basin create_stream show_error n m task_id = Inl e"
    if "length n + length m < 7 \<or> 47 < length n + length m"
    for l key now create_basin create_stream show_error task_id
  proof -
    have "validate_basin_str False ''name'' (basin_name lower n m) \<noteq> Inr ()"
      unfolding b using that by linarith
    then obtain x where "validate_basin_str False ''name'' (basin_name lower n m) = Inl x"
      by (cases "validate_basin_str False ''name'' (basin_name lower n m)") auto
    then show ?thesis
      by (cases "issue_internal_jwt l key now") (simp_all add: s2_create_stream_def)
  qed
  moreover have "s2_create_stream lower l key now create_basin create_stream show_error n m task_id
        = Inr (''s2://'' @ n @ ''-'' @ m @ ''/task/'' @ show_uuid l task_id) \<longleftrightarrow>
      7 \<le> length n + length m \<and> length n + length m \<le> 47"
    if yes: "server_agrees l key now create_basin create_stream (n @ ''-'' @ m) task_id"
    for l key now create_basin create_stream show_error task_id
  proof
    assume "7 \<le> length n + length m \<and> length n + length m \<le> 47"
    then have "validate_basin_str False ''name'' (basin_name lower n m) = Inr ()" using b by simp
    moreover have name: "basin_name lower n m = n @ ''-'' @ m" by (simp add: basin_name_def low)
    ultimately show "s2_create_stream lower l key now create_basin create_stream show_error n m task_id
        = Inr (''s2://'' @ n @ ''-'' @ m @ ''/task/'' @ show_uuid l task_id)"
      using create_stream_succeeds [of l key now create_basin create_stream lower n m task_id show_error] yes
      by simp
  next
    assume "s2_create_stream lower l key now create_basin create_stream show_error n m task_id
        = Inr (''s2://'' @ n @ ''-'' @ m @ ''/task/'' @ show_uuid l task_id)"
    then show "7 \<le> length n + length m \<and> length n + length m \<le> 47"
      using fails [of l key now create_basin create_stream show_error task_id] by (metis not_less sum.distinct(1))
  qed
  moreover have slugs: "validate_slug ''ab-cd'' False = Inr ()" "validate_slug ''ab'' False = Inr ()"
    "validate_slug ''efg'' True = Inr ()" "validate_slug ''cd-efg'' True = Inr ()"
    by code_simp+
  moreover have "lower ''ab-cd'' = ''ab-cd''" "lower ''ab'' = ''ab''" "lower ''efg'' = ''efg''" "lower ''cd-efg'' = ''cd-efg''"
    using lower_slug [OF assms(1)] slugs [THEN slugD(5)] by blast+
  ultimately show ?thesis
    using b slug_parse [OF assms(1)] by (simp add: basin_name_def)
qed

lemma ascii_lower_ok: "lower_ok (map ascii_lower)"
  by (simp add: lower_ok_def)

theorem accepted_names_are_canonical_witness:
  "owner_name_parse (map ascii_lower) ''al'' ''owner'' = Inr ''al'' \<and>
   repository_name_parse (map ascii_lower) ''my_repo'' ''repo'' = Inr ''my_repo''"
proof -
  have "owner_name_parse (map ascii_lower) '' Al '' ''owner'' = Inr ''al''"
    "repository_name_parse (map ascii_lower) ''My_Repo.git'' ''repo'' = Inr ''my_repo''"
    by code_simp+
  from accepted_names_are_canonical [OF ascii_lower_ok this] show ?thesis by simp
qed

definition s2_lib :: token_lib where
  "s2_lib = demo_lib\<lparr>show_uuid := (\<lambda>_. replicate 36 CHR ''0'')\<rparr>"

text \<open>\<open>al/web\<close> is too short for any server, \<open>alice/app\<close> is not.\<close>

theorem basins_do_not_fit_the_names_witness:
  "(\<forall>l key now create_basin create_stream show_error.
     \<exists>e. s2_create_stream (map ascii_lower) l key now create_basin create_stream show_error ''al'' ''web'' 1 = Inl e) \<and>
   s2_create_stream (map ascii_lower) s2_lib [] 0 (\<lambda>_. Inl (S2Server ''resource_already_exists'' []))
     (\<lambda>_ _. Inr ()) (\<lambda>_. []) ''alice'' ''app'' 1 = Inr (''s2://alice-app/task/'' @ replicate 36 CHR ''0'')"
proof (intro conjI allI)
  fix l key now create_basin create_stream show_error
  have "owner_name_parse (map ascii_lower) ''al'' ''owner'' = Inr ''al''"
    "repository_name_parse (map ascii_lower) ''web'' ''repo'' = Inr ''web''"
    by code_simp+
  from basins_do_not_fit_the_names [OF ascii_lower_ok this]
  show "\<exists>e. s2_create_stream (map ascii_lower) l key now create_basin create_stream show_error ''al'' ''web'' 1 = Inl e"
    by simp
next
  let ?basin = "\<lambda>_ :: string. Inl (S2Server ''resource_already_exists'' []) :: s2_error + unit"
  have "owner_name_parse (map ascii_lower) ''alice'' ''owner'' = Inr ''alice''"
    "repository_name_parse (map ascii_lower) ''app'' ''repo'' = Inr ''app''"
    by code_simp+
  note at = basins_do_not_fit_the_names [OF ascii_lower_ok this, THEN conjunct2, THEN conjunct1, rule_format]
  have "server_agrees s2_lib [] 0 ?basin (\<lambda>_ _. Inr ()) (''alice'' @ ''-'' @ ''app'') 1"
    by (simp add: server_agrees_def issue_internal_jwt_def s2_lib_def demo_lib_def)
  from at [OF this, of "\<lambda>_. []"]
  have "s2_create_stream (map ascii_lower) s2_lib [] 0 ?basin (\<lambda>_ _. Inr ()) (\<lambda>_. []) ''alice'' ''app'' 1
      = Inr (''s2://'' @ ''alice'' @ ''-'' @ ''app'' @ ''/task/'' @ show_uuid s2_lib 1)"
    by simp
  then show "s2_create_stream (map ascii_lower) s2_lib [] 0 ?basin (\<lambda>_ _. Inr ()) (\<lambda>_. []) ''alice'' ''app'' 1
      = Inr (''s2://alice-app/task/'' @ replicate 36 CHR ''0'')"
    by (simp add: s2_lib_def)
qed

end
