(* ===== verification/HandlerProps.thy ===== *)
theory HandlerProps
  imports RepoHandlers OwnerHandlers ForgeSafety NameProps
begin

text \<open>
  The endpoints below \<open>/repository/{owner}/{repo}\<close> as one machine: \<open>serve\<close> is the router, and the
  lemmas say what a request can see and change.
\<close>

section \<open>The router\<close>

datatype repo_call =
    GetRepo
  | PatchRepo "string option" "bool option"
  | DeleteRepo
  | GetBlob string string
  | PostBlobs "string list" "string list"
  | GetPaths string
  | GetCommits string "time option" "time option" "string option" "nat option"
  | GetCommit string
  | GetCommitBlobs string
  | PostResources "string option" "time option"
  | PostStar
  | PostUnstar
  | GetActivity
  | PostFilter commit_filter_body
  | GetFilters "string option" "nat option"
  | PatchFilter uuid commit_filter_body
  | DeleteFilter uuid

datatype repo_answer =
    RepoAnswer repository_response
  | NoAnswer unit
  | BlobAnswer string
  | BlobsAnswer "string list"
  | PathsAnswer "string list"
  | CommitsAnswer "commit_response page"
  | CommitAnswer commit_response
  | BlobPairsAnswer "blob_pair_response list"
  | ResourcesAnswer resources_response
  | ActivityAnswer "(user_response \<times> time) list"
  | FilterAnswer commit_filter_response
  | FiltersAnswer "commit_filter_response page"

text \<open>A result \<open>None\<close> is a panic, after which the world is as before.\<close>

type_synonym served = "(app_error + nat \<times> repo_answer) option \<times> forge"

definition answering :: "('a \<Rightarrow> repo_answer) \<Rightarrow> (app_error + nat \<times> 'a) \<times> forge \<Rightarrow> served" where
  "answering k rw = (Some (map_sum id (map_prod id k) (fst rw)), snd rw)"

definition may_panic :: "('a \<Rightarrow> repo_answer) \<Rightarrow> (app_error + nat \<times> 'a) option \<Rightarrow> forge \<Rightarrow> served" where
  "may_panic k r w = (map_option (map_sum id (map_prod id k)) r, w)"

fun serve ::
  "forge_env \<Rightarrow> forge_io \<Rightarrow> (string \<Rightarrow> input_error + cursor) \<Rightarrow> time \<Rightarrow> uuid option \<Rightarrow> string \<Rightarrow> string \<Rightarrow> repo_call \<Rightarrow> forge \<Rightarrow> served"
where
  "serve env io dec now caller owner repo GetRepo w = answering RepoAnswer (http_get_repository env caller owner repo w)"
| "serve env io dec now caller owner repo (PatchRepo d ro) w =
     answering RepoAnswer (http_update_repository env caller owner repo d ro w)"
| "serve env io dec now caller owner repo DeleteRepo w = answering NoAnswer (http_delete_repository env io caller owner repo w)"
| "serve env io dec now caller owner repo (GetBlob ref_name path) w =
     answering BlobAnswer (http_get_repository_blob env caller owner repo ref_name path w)"
| "serve env io dec now caller owner repo (PostBlobs refs paths) w =
     answering BlobsAnswer (http_get_repository_blobs env caller owner repo refs paths w)"
| "serve env io dec now caller owner repo (GetPaths ref_name) w =
     answering PathsAnswer (http_get_repository_paths env caller owner repo ref_name w)"
| "serve env io dec now caller owner repo (GetCommits ref_name from to cur limit) w =
     answering CommitsAnswer (http_list_repository_commits env dec now caller owner repo ref_name from to cur limit w)"
| "serve env io dec now caller owner repo (GetCommit sha) w =
     may_panic CommitAnswer (http_get_repository_commit env caller owner repo sha w) w"
| "serve env io dec now caller owner repo (GetCommitBlobs sha) w =
     may_panic BlobPairsAnswer (http_get_repository_commit_blobs env caller owner repo sha w) w"
| "serve env io dec now caller owner repo (PostResources last_commit last_updated) w =
     answering ResourcesAnswer (http_get_repository_resources env dec now caller owner repo last_commit last_updated w)"
| "serve env io dec now caller owner repo PostStar w = answering NoAnswer (http_star_repository env io caller owner repo w)"
| "serve env io dec now caller owner repo PostUnstar w = answering NoAnswer (http_unstar_repository env caller owner repo w)"
| "serve env io dec now caller owner repo GetActivity w =
     answering ActivityAnswer (http_get_repository_activity env caller owner repo w)"
| "serve env io dec now caller owner repo (PostFilter body) w =
     answering FilterAnswer (http_create_repository_commit_filter env io caller owner repo body w)"
| "serve env io dec now caller owner repo (GetFilters cur limit) w =
     answering FiltersAnswer (http_list_repository_commit_filters env dec caller owner repo cur limit w)"
| "serve env io dec now caller owner repo (PatchFilter i body) w =
     answering FilterAnswer (http_update_repository_commit_filter env io caller owner repo i body w)"
| "serve env io dec now caller owner repo (DeleteFilter i) w =
     answering NoAnswer (http_delete_repository_commit_filter env caller owner repo i w)"

section \<open>What a call needs\<close>

fun needs :: "repo_call \<Rightarrow> repository_permission" where
  "needs (PatchRepo _ _) = AdminPermission"
| "needs DeleteRepo = AdminPermission"
| "needs (PostFilter _) = Write"
| "needs (PatchFilter _ _) = Write"
| "needs (DeleteFilter _) = Write"
| "needs _ = Read"

fun writes :: "repo_call \<Rightarrow> bool" where
  "writes PostStar = True"
| "writes PostUnstar = True"
| "writes call = (needs call \<noteq> Read)"

text \<open>
  The caller may: there is a repository of that owner and name, and the caller sees it, belongs to
  its owner and it is not readonly, or administers it.
\<close>

definition may :: "forge_env \<Rightarrow> core_db \<Rightarrow> uuid option \<Rightarrow> string \<Rightarrow> string \<Rightarrow> repository_permission \<Rightarrow> bool" where
  "may env core caller owner repo p \<longleftrightarrow>
     (\<exists>o' r' v. owner_name_parse (fe_lower env) owner ''owner name'' = Inr o'
        \<and> repository_name_parse (fe_lower env) repo ''repository name'' = Inr r'
        \<and> repo_get o' r' None core = Inr (Some v)
        \<and> (case p of
             Read \<Rightarrow> visible_to core caller (repo_row.truncate v)
           | Write \<Rightarrow> \<not> rp_readonly v \<and> (\<exists>u. caller = Some u \<and> belongs_to core u v)
           | AdminPermission \<Rightarrow> \<exists>u. caller = Some u \<and> administers core u v))"

definition refusal :: "app_error \<Rightarrow> bool" where
  "refusal e \<longleftrightarrow> (case e of AppTokenExtraction _ \<Rightarrow> True | AppAuthorization _ \<Rightarrow> True | _ \<Rightarrow> False)"

lemma authorization_may:
  assumes "orgs_wf db" and "ids_disjoint db"
    and ok: "and_then (repository_authorization_request_new (fe_lower env) caller owner repo p)
      (verify_authorized_for_repository db) = Inr x"
  shows "may env db caller owner repo p"
proof -
  from ok obtain o' r' where names: "owner_name_parse (fe_lower env) owner ''owner name'' = Inr o'"
      "repository_name_parse (fe_lower env) repo ''repository name'' = Inr r'"
    and v: "granted db caller o' r' p"
    by (auto simp: repository_authorization_request_new_def parse_owner_def parse_repo_def granted_def)
  from v obtain v where g: "repo_get o' r' None db = Inr (Some v)"
    by (auto simp: granted_def verify_authorized_for_repository_def)
  from verify_repository_iff [OF assms(1,2) g] v names g show ?thesis
    by (auto simp: may_def)
qed

lemma authorized_repository_cases:
  assumes "orgs_wf (fg_core w)" and "ids_disjoint (fg_core w)"
  shows "(\<exists>e. authorized_repository env caller owner repo p f w = (Inl (AppAuthorization e), w))
    \<or> (authorized_repository env caller owner repo p f w = f w \<and> may env (fg_core w) caller owner repo p)"
  using authorization_may [OF assms]
  by (cases "and_then (repository_authorization_request_new (fe_lower env) caller owner repo p) (verify_authorized_for_repository (fg_core w))")
    (auto simp: authorized_repository_def)

section \<open>Refused or allowed\<close>

definition guarded :: "forge_env \<Rightarrow> forge \<Rightarrow> uuid option \<Rightarrow> string \<Rightarrow> string \<Rightarrow> repository_permission \<Rightarrow> bool \<Rightarrow> served \<Rightarrow> bool" where
  "guarded env w caller owner repo p changes res \<longleftrightarrow>
     (\<exists>e. res = (Some (Inl e), w) \<and> refusal e)
     \<or> (may env (fg_core w) caller owner repo p \<and> (\<not> changes \<longrightarrow> snd res = w))"

lemma guarded_authorized:
  assumes "orgs_wf (fg_core w)" and "ids_disjoint (fg_core w)" and "\<not> changes \<Longrightarrow> snd (f w) = w"
  shows "guarded env w caller owner repo p changes (answering k (authorized_repository env caller owner repo p f w))"
  using authorized_repository_cases [OF assms(1,2), of env caller owner repo p f] assms(3)
  by (auto simp: guarded_def answering_def refusal_def)

lemma guarded_signed_in:
  assumes "\<And>u. caller = Some u \<Longrightarrow> guarded env w (Some u) owner repo p changes (answering k (f u w))"
  shows "guarded env w caller owner repo p changes (answering k (signed_in caller f w))"
  using assms by (cases caller) (auto simp: guarded_def signed_in_def answering_def answer_with_def refusal_def)

lemma guarded_panicking:
  assumes "orgs_wf (fg_core w)" and "ids_disjoint (fg_core w)" and "\<And>w. snd (g w) = w"
  shows "guarded env w caller owner repo p False
    (may_panic k (case fst (authorized_repository env caller owner repo p g w) of Inl e \<Rightarrow> Some (Inl e) | Inr a \<Rightarrow> h a) w)"
  using authorized_repository_cases [OF assms(1,2), of env caller owner repo p g] assms(3) [of w]
  by (auto simp: guarded_def may_panic_def refusal_def)

lemma snd_then_do_read: "(\<And>v w. snd (f v w) = w) \<Longrightarrow> snd (then_do (r, w) f) = w"
  by (cases r) simp_all

lemma serve_guarded:
  assumes "orgs_wf (fg_core w)" and "ids_disjoint (fg_core w)"
  shows "guarded env w caller owner repo (needs call) (writes call) (serve env io dec now caller owner repo call w)"
  using assms
  by (cases call)
    (auto simp: http_get_repository_def http_update_repository_def http_delete_repository_def http_get_repository_blob_def
      http_get_repository_blobs_def http_get_repository_paths_def http_list_repository_commits_def
      http_get_repository_commit_def http_get_repository_commit_blobs_def http_get_repository_resources_def
      http_star_repository_def http_unstar_repository_def http_get_repository_activity_def
      http_create_repository_commit_filter_def http_list_repository_commit_filters_def
      http_update_repository_commit_filter_def http_delete_repository_commit_filter_def split_beta
      intro!: guarded_signed_in guarded_authorized guarded_panicking snd_then_do_read)

text \<open>C4:
  Every request below \<open>/repository/{owner}/{repo}\<close> is either refused, with an authentication or
  authorization error and nothing changed, or there is a repository of that owner and name and the
  caller may: to read it and to star it one must see it, to edit its filters one must belong to its
  owner and it must be writable, to change or delete it one must administer it. Whatever happens, a
  request that only reads changes nothing.
\<close>

theorem repository_requests_are_guarded:
  assumes "orgs_wf (fg_core w)" and "ids_disjoint (fg_core w)"
    and "serve env io dec now caller owner repo call w = (res, w')"
  shows "(\<exists>e. res = Some (Inl e) \<and> refusal e \<and> w' = w)
    \<or> (may env (fg_core w) caller owner repo (needs call) \<and> (\<not> writes call \<longrightarrow> w' = w))"
  using serve_guarded [OF assms(1,2), of env caller owner repo call io dec now] assms(3)
  by (auto simp: guarded_def)

section \<open>The directories\<close>

definition lowercase_names :: "(string \<Rightarrow> string) \<Rightarrow> core_db \<Rightarrow> bool" where
  "lowercase_names lower core \<longleftrightarrow> list_all (\<lambda>u. lower (us_name u) = us_name u) (db_users core)"

lemma transposed_Inr: "transposed f x = Inr y \<longleftrightarrow> (x = None \<and> y = None) \<or> (\<exists>v z. x = Some v \<and> f v = Inr z \<and> y = Some z)"
  by (cases x; cases "f (the x)") (auto simp: transposed_def)

text \<open>What an authorized request for a creation names is its owner.\<close>

lemma authorized_request_ok:
  assumes "lower_ok lower" and "lowercase_names lower core"
    and "owner_authorization_request_new lower user owner type_name = Inr areq"
    and "verify_authorized_for_repository_creation lower core areq = Inr ()"
    and "create_repository_request_new lower repo user owner type_name vis description init gi li = Inr req"
  shows "request_ok core req"
proof -
  from assms(5) have req: "owner_name_parse lower owner ''owner name'' = Inr (nr_owner_name req)"
      "repository_name_parse lower repo ''repository name'' = Inr (nr_name req)"
      "owner_type_try_from type_name = Inr (nr_owner_type req)" "nr_user_id req = user"
    by (auto simp: create_repository_request_new_def)
  have areq: "qo_user_id areq = user" "qo_owner areq = nr_owner_name req" "qo_owner_type areq = nr_owner_type req"
    using assms(3) req by (auto simp: owner_authorization_request_new_def parse_owner_def)
  have plain: "plain_name (nr_name req)"
    using slug_no_suffix slugD(5) [OF parse_slug(2) [OF req(2)]] by (simp add: plain_name_def)
  have low: "lower (nr_owner_name req) = nr_owner_name req"
    using lower_slug [OF assms(1)] slugD(5) [OF parse_slug(1) [OF req(1)]] by simp
  have "map_option us_name (find_user core user) = Some (nr_owner_name req)" if by_user: "nr_owner_type req = UserOwner"
  proof -
    obtain u where u: "find (\<lambda>u. us_id u = user) (db_users core) = Some u" "lower (us_name u) = lower (nr_owner_name req)"
      using assms(4) by_user areq
      by (auto simp: verify_authorized_for_repository_creation_def user_get_by_id_def user_view_def user_row.defs)
    then have "lower (us_name u) = us_name u"
      using assms(2) find_SomeD [OF u(1)] by (auto simp: lowercase_names_def list_all_iff)
    with u low show ?thesis by (simp add: find_user_def)
  qed
  with plain req(4) show ?thesis by (simp add: request_ok_def)
qed

lemma http_create_repository_keeps:
  assumes "forge_ok w" and "lower_ok (fe_lower env)" and "lowercase_names (fe_lower env) (fg_core w)"
  shows "forge_ok (snd (http_create_repository env io caller owner repo body w))"
proof (cases caller)
  case (Some user)
  let ?areq = "owner_authorization_request_new (fe_lower env) user owner (by_owner_type body)"
  let ?req = "create_repository_request_new (fe_lower env) repo user owner (by_owner_type body) (by_visibility body)
      (by_description body) (by_init_readme body) (by_gitignore body) (by_license body)"
  show ?thesis
  proof (cases "and_then ?areq (verify_authorized_for_repository_creation (fe_lower env) (fg_core w))")
    case (Inr u)
    then obtain areq where areq: "?areq = Inr areq" "verify_authorized_for_repository_creation (fe_lower env) (fg_core w) areq = Inr ()"
      by auto
    show ?thesis
    proof (cases ?req)
      case (Inr req)
      note ok = create_repository_keeps [OF assms(1) authorized_request_ok [OF assms(2,3) areq Inr], of env io]
      with areq Inr Some show ?thesis
        by (simp add: http_create_repository_def signed_in_def authorized_creation_def)
    qed (use assms(1) areq Some in \<open>simp add: http_create_repository_def signed_in_def authorized_creation_def\<close>)
  qed (use assms(1) Some in \<open>simp add: http_create_repository_def signed_in_def authorized_creation_def\<close>)
qed (use assms(1) in \<open>simp add: http_create_repository_def signed_in_def answer_with_def\<close>)

lemma ok_signed_in: "forge_ok w \<Longrightarrow> (\<And>u. forge_ok (snd (f u w))) \<Longrightarrow> forge_ok (snd (answering k (signed_in caller f w)))"
  by (cases caller) (simp_all add: signed_in_def answering_def answer_with_def)

lemma ok_authorized: "forge_ok w \<Longrightarrow> forge_ok (snd (f w)) \<Longrightarrow> forge_ok (snd (authorized_repository env caller owner repo p f w))"
  unfolding authorized_repository_def by (rule then_do_post) auto

text \<open>Every request that writes ends in one of the operations of the services.\<close>

lemma serve_keeps:
  assumes "forge_ok w"
  shows "forge_ok (snd (serve env io dec now caller owner repo call w))"
proof -
  note steps = forge_step_keeps [OF forge_step.delete] forge_step_keeps [OF forge_step.update] forge_step_keeps [OF forge_step.star]
    forge_step_keeps [OF forge_step.unstar] forge_step_keeps [OF forge_step.new_filter] forge_step_keeps [OF forge_step.set_filter]
    forge_step_keeps [OF forge_step.drop_filter]
  have read: "snd (answering k (authorized_repository env caller owner repo p f w)) = w" if "snd (f w) = w" for k p f
    using that by (auto simp: answering_def authorized_repository_def then_do_def split: sum.split)
  have chain: "forge_ok (snd (then_do (r, s) f))" if "forge_ok s" "\<And>v w. forge_ok w \<Longrightarrow> forge_ok (snd (f v w))" for r s f
    using then_do_inv [of forge_ok "(r, s)" f] that by simp
  show ?thesis
    using assms
    by (cases call)
      (auto simp: http_get_repository_def http_update_repository_def http_delete_repository_def http_get_repository_blob_def
        http_get_repository_blobs_def http_get_repository_paths_def http_list_repository_commits_def may_panic_def
        http_get_repository_resources_def read split_beta snd_then_do_read
        http_star_repository_def http_unstar_repository_def http_get_repository_activity_def
        http_create_repository_commit_filter_def http_list_repository_commit_filters_def
        http_update_repository_commit_filter_def http_delete_repository_commit_filter_def
        intro!: ok_signed_in ok_authorized chain intro: steps)
qed

text \<open>C12:
  The service relies on a request to name its owner; the endpoints make sure of it. Whoever asks,
  whatever the body says and whatever fails, creating a repository and every request to an
  existing one keep the rows and the directories together.
\<close>

theorem endpoints_keep_directories:
  assumes "forge_ok w" and "lower_ok (fe_lower env)" and "lowercase_names (fe_lower env) (fg_core w)"
  shows "forge_ok (snd (http_create_repository env io caller owner repo body w))
    \<and> forge_ok (snd (serve env io dec now caller owner repo call w))"
  using http_create_repository_keeps [OF assms] serve_keeps [OF assms(1)] by blast

section \<open>At a concrete world\<close>

definition lower_env :: forge_env where
  "lower_env = plain_env\<lparr>fe_lower := map ascii_lower\<rparr>"

definition private_forge :: forge where
  "private_forge = alice_forge\<lparr>fg_core := (fg_core alice_forge)\<lparr>db_repos := [demo_row 7 0 Private ''app'']\<rparr>,
     fg_disk := put_repo ''alice'' ''app'' Map.empty\<rparr>"

lemma private_forge_wf: "orgs_wf (fg_core private_forge)" "ids_disjoint (fg_core private_forge)"
  by (simp_all add: private_forge_def alice_forge_def empty_core_def orgs_wf_def orgs_ok_def members_ok_def ids_disjoint_def)

definition no_cursor :: "string \<Rightarrow> input_error + cursor" where
  "no_cursor s = Inl (InputError ''cursor'' ''invalid cursor encoding'')"

text \<open>The owner may delete its private repository; a stranger is refused and so is an anonymous reader.\<close>

theorem repository_requests_are_guarded_witness:
  "may lower_env (fg_core private_forge) (Some 9) ''Alice'' ''app.git'' AdminPermission
   \<and> fst (serve lower_env calm_io no_cursor 0 (Some 8) ''alice'' ''app'' DeleteRepo private_forge) = Some (Inl (AppAuthorization Unauthorized))
   \<and> fst (serve lower_env calm_io no_cursor 0 None ''alice'' ''app'' GetRepo private_forge) = Some (Inl (AppAuthorization Unauthorized))"
proof -
  note wf = private_forge_wf
  have answered: "fst (serve lower_env calm_io no_cursor 0 (Some 9) ''Alice'' ''app.git'' DeleteRepo private_forge) = Some (Inr (200, NoAnswer ()))"
    by code_simp
  obtain w' where "serve lower_env calm_io no_cursor 0 (Some 9) ''Alice'' ''app.git'' DeleteRepo private_forge = (Some (Inr (200, NoAnswer ())), w')"
    using answered by (metis prod.collapse)
  from repository_requests_are_guarded [OF wf this]
  have "may lower_env (fg_core private_forge) (Some 9) ''Alice'' ''app.git'' AdminPermission" by simp
  moreover have "fst (serve lower_env calm_io no_cursor 0 (Some 8) ''alice'' ''app'' DeleteRepo private_forge) = Some (Inl (AppAuthorization Unauthorized))"
    "fst (serve lower_env calm_io no_cursor 0 None ''alice'' ''app'' GetRepo private_forge) = Some (Inl (AppAuthorization Unauthorized))"
    by code_simp+
  ultimately show ?thesis by simp
qed

definition app_body :: create_repository_body where
  "app_body = \<lparr>by_owner_type = ''user'', by_visibility = ''private'', by_description = Some ''  '', by_init_readme = True,
     by_gitignore = Some ''rust'', by_license = None\<rparr>"

theorem endpoints_keep_directories_witness:
  "map_sum id fst (fst (http_create_repository lower_env calm_io (Some 9) ''App'' ''App'' app_body alice_forge)) = Inl (AppAuthorization Unauthorized)
   \<and> map_sum id fst (fst (http_create_repository lower_env calm_io (Some 9) ''Alice'' ''App'' app_body alice_forge)) = Inr 201
   \<and> forge_ok (snd (http_create_repository lower_env calm_io (Some 9) ''Alice'' ''App'' app_body alice_forge))"
proof -
  have "lower_ok (fe_lower lower_env)" by (simp add: lower_env_def ascii_lower_ok)
  moreover have "lowercase_names (fe_lower lower_env) (fg_core alice_forge)" by code_simp
  ultimately have "forge_ok (snd (http_create_repository lower_env calm_io (Some 9) ''Alice'' ''App'' app_body alice_forge))"
    using endpoints_keep_directories [OF alice_ok(1)] by blast
  moreover have "map_sum id fst (fst (http_create_repository lower_env calm_io (Some 9) ''App'' ''App'' app_body alice_forge)) = Inl (AppAuthorization Unauthorized)"
    "map_sum id fst (fst (http_create_repository lower_env calm_io (Some 9) ''Alice'' ''App'' app_body alice_forge)) = Inr 201"
    by code_simp+
  ultimately show ?thesis by simp
qed

end
