(* ===== verification/GitHandlers.thy ===== *)
theory GitHandlers
  imports AppErrors
begin

text \<open>
  \<open>gitdot-server/src/handler/git_http\<close>: the endpoints that git itself talks to. They read the core
  tables to authorize the caller and answer what \<open>git http-backend\<close> answers. The limits on the size
  of a request before it is decompressed are a layer of a library and are left out.
\<close>

section \<open>Responses\<close>

text \<open>\<open>pkt_line\<close>: the length of the line with its four digits, in hexadecimal.\<close>

definition hex_digit :: "nat \<Rightarrow> char" where
  "hex_digit n = char_of (if n < 10 then 48 + n else 87 + n)"

fun hex :: "nat \<Rightarrow> string" where
  "hex n = (if n < 16 then [hex_digit n] else hex (n div 16) @ [hex_digit (n mod 16)])"

declare hex.simps [simp del]

definition pkt_line :: "string \<Rightarrow> string" where
  "pkt_line s = (let h = hex (length s + 4) in replicate (4 - length h) CHR ''0'' @ h @ s)"

definition smart_protocol_error_response :: "string \<Rightarrow> string \<Rightarrow> git_http_response" where
  "smart_protocol_error_response service message =
     \<lparr>gh_status = 200,
      gh_headers = [(''Content-Type'', ''application/x-'' @ service @ ''-advertisement''), (''Cache-Control'', ''no-cache'')],
      gh_body = Buffered (pkt_line (''# service='' @ service @ newline) @ ''0000''
        @ pkt_line (''ERR '' @ message @ newline) @ ''0000'')\<rparr>"

text \<open>
  \<open>GitHttpServerResponse\<close>: a status that is none becomes 200, and a header that is none makes the
  whole answer an empty 500. \<open>header_ok\<close> is what the header types accept.
\<close>

definition git_into_response :: "(string \<times> string \<Rightarrow> bool) \<Rightarrow> git_http_response \<Rightarrow> git_http_response" where
  "git_into_response header_ok r =
     (if list_all header_ok (gh_headers r)
      then r\<lparr>gh_status := (if 100 \<le> gh_status r \<and> gh_status r < 1000 then gh_status r else 200)\<rparr>
      else \<lparr>gh_status = 500, gh_headers = [], gh_body = Buffered []\<rparr>)"

text \<open>The layer that makes git ask for a password.\<close>

definition add_www_authenticate_header :: "git_http_response \<Rightarrow> git_http_response" where
  "add_www_authenticate_header r =
     (if gh_status r = 401
      then r\<lparr>gh_headers := filter (\<lambda>(n, _). map ascii_lower n \<noteq> ''www-authenticate'') (gh_headers r)
        @ [(''www-authenticate'', ''Basic realm='' @ [CHR 0x22] @ ''gitdot'' @ [CHR 0x22])]\<rparr>
      else r)"

section \<open>Endpoints\<close>

definition GIT_UPLOAD_PACK_DECOMPRESSED_LIMIT :: nat where
  "GIT_UPLOAD_PACK_DECOMPRESSED_LIMIT = 100 * 1024 * 1024"

definition GIT_RECEIVE_PACK_DECOMPRESSED_LIMIT :: nat where
  "GIT_RECEIVE_PACK_DECOMPRESSED_LIMIT = 4 * 1024 * 1024 * 1024"

type_synonym git_answer = "app_error + git_http_response"

text \<open>A readonly repository is refused in the protocol of git, so that the client shows why.\<close>

definition http_git_info_refs ::
  "forge_env \<Rightarrow> git_http_env \<Rightarrow> uuid option \<Rightarrow> string \<Rightarrow> string \<Rightarrow> string \<Rightarrow> core_db \<Rightarrow> git_answer"
where
  "http_git_info_refs env genv caller owner repo service db =
     (let p = (if service = ''git-receive-pack'' then Write else Read) in
      and_then (map_err AppAuthorization (repository_authorization_request_new (fe_lower env) caller owner repo p)) (\<lambda>auth.
      (case verify_authorized_for_repository db auth of
         Inl e \<Rightarrow>
           if e = ReadonlyRepository
           then Inr (smart_protocol_error_response service ''repository is readonly; push not allowed'')
           else Inl (AppAuthorization e)
       | Inr _ \<Rightarrow>
           map_err AppGitHttp (and_then (info_refs_request_new (fe_lower env) owner repo service) (info_refs genv)))))"

definition git_authorized ::
  "forge_env \<Rightarrow> uuid option \<Rightarrow> string \<Rightarrow> string \<Rightarrow> repository_permission \<Rightarrow> core_db \<Rightarrow> app_error + unit"
where
  "git_authorized env caller owner repo p db =
     map_err AppAuthorization
       (and_then (repository_authorization_request_new (fe_lower env) caller owner repo p)
         (verify_authorized_for_repository db))"

definition http_git_upload_pack ::
  "forge_env \<Rightarrow> git_http_env \<Rightarrow> (reads \<Rightarrow> reads) \<Rightarrow> uuid option \<Rightarrow> string \<Rightarrow> string \<Rightarrow> string \<Rightarrow> string option \<Rightarrow> reads
    \<Rightarrow> core_db \<Rightarrow> git_answer"
where
  "http_git_upload_pack env genv gunzip caller owner repo content_type encoding body db =
     and_then (git_authorized env caller owner repo Read db) (\<lambda>_.
     map_err AppGitHttp
       (and_then (pack_request_new (fe_lower env) None owner repo content_type
           (create_body_reader gunzip encoding body GIT_UPLOAD_PACK_DECOMPRESSED_LIMIT)) (upload_pack genv)))"

definition http_git_receive_pack ::
  "forge_env \<Rightarrow> git_http_env \<Rightarrow> (reads \<Rightarrow> reads) \<Rightarrow> uuid option \<Rightarrow> string \<Rightarrow> string \<Rightarrow> string \<Rightarrow> string option \<Rightarrow> reads
    \<Rightarrow> core_db \<Rightarrow> git_answer"
where
  "http_git_receive_pack env genv gunzip caller owner repo content_type encoding body db =
     (case caller of
        None \<Rightarrow> Inl (AppTokenExtraction MissingHeader)
      | Some user \<Rightarrow>
          and_then (git_authorized env (Some user) owner repo Write db) (\<lambda>_.
          map_err AppGitHttp
            (and_then (pack_request_new (fe_lower env) (Some user) owner repo content_type
                (create_body_reader gunzip encoding body GIT_RECEIVE_PACK_DECOMPRESSED_LIMIT))
              (receive_pack (fe_show_uuid env) genv))))"

text \<open>What the client gets. The text of an error is wrapped in JSON, which is left out.\<close>

definition git_reply ::
  "(app_error \<Rightarrow> string) \<Rightarrow> (string \<times> string \<Rightarrow> bool) \<Rightarrow> git_answer \<Rightarrow> git_http_response"
where
  "git_reply to_text header_ok answer =
     add_www_authenticate_header
       (case answer of
          Inl e \<Rightarrow> (case into_response to_text e of (status, message) \<Rightarrow>
            \<lparr>gh_status = status, gh_headers = [], gh_body = Buffered message\<rparr>)
        | Inr r \<Rightarrow> git_into_response header_ok r)"

end
