(* ===== verification/GitProps.thy ===== *)
theory GitProps
  imports GitHandlers HandlerProps
begin

text \<open>What the endpoints of the git protocol guarantee: who reaches the process, and with what.\<close>

section \<open>Who reaches the process\<close>

lemma git_authorized_cases:
  assumes "orgs_wf db" and "ids_disjoint db"
  shows "(\<exists>e. git_authorized env caller owner repo p db = Inl (AppAuthorization e))
    \<or> (git_authorized env caller owner repo p db = Inr () \<and> may env db caller owner repo p)"
  using authorization_may [OF assms, of env caller owner repo p]
  by (cases "and_then (repository_authorization_request_new (fe_lower env) caller owner repo p) (verify_authorized_for_repository db)")
    (auto simp: git_authorized_def)

text \<open>The process that a push may start: it is told who pushes, whatever the request says.\<close>

definition as_pusher :: "string \<Rightarrow> git_http_env \<Rightarrow> git_http_env" where
  "as_pusher who genv = genv\<lparr>ge_run := (\<lambda>_ _. NotSpawned),
     ge_pipe := (\<lambda>path ct body vars.
       if vars = [(''GITDOT_PUSHER_ID'', who)] then ge_pipe genv path ct body vars else PipeNotSpawned)\<rparr>"

text \<open>An answer that does not come from the process.\<close>

definition unprocessed :: "(git_http_env \<Rightarrow> git_answer) \<Rightarrow> (git_answer \<Rightarrow> bool) \<Rightarrow> bool" where
  "unprocessed f is_answer \<longleftrightarrow> (\<exists>r. is_answer r \<and> (\<forall>genv. f genv = r))"

definition is_refusal :: "git_answer \<Rightarrow> bool" where
  "is_refusal r \<longleftrightarrow> (case r of Inl e \<Rightarrow> refusal e | Inr _ \<Rightarrow> False)"

lemma accepted_is_processed: "f genv = Inr r \<Longrightarrow> unprocessed f is_refusal \<Longrightarrow> False"
proof -
  assume f: "f genv = Inr r" and "unprocessed f is_refusal"
  then obtain a where a: "is_refusal a" "\<forall>g. f g = a" unfolding unprocessed_def by blast
  then have "a = Inr r" using f by metis
  with a show False by (simp add: is_refusal_def)
qed

definition is_readonly_message :: "string \<Rightarrow> git_answer \<Rightarrow> bool" where
  "is_readonly_message service r \<longleftrightarrow> service = ''git-receive-pack''
     \<and> r = Inr (smart_protocol_error_response service ''repository is readonly; push not allowed'')"

lemma readonly_needs_write: "verify_authorized_for_repository db q = Inl ReadonlyRepository \<Longrightarrow> qr_permission q = Write"
  by (auto simp: verify_authorized_for_repository_def or_unauthorized_def require_def and_then_def map_err_def
      split: if_splits option.splits sum.splits)

lemma pack_request_pusher: "pack_request_new lower pusher owner repo ct body = Inr q \<Longrightarrow> kq_pusher_id q = pusher"
  by (auto simp: pack_request_new_def)

lemma receive_as_pusher:
  "kq_pusher_id q = Some u \<Longrightarrow> receive_pack to_text (as_pusher (to_text u) genv) q = receive_pack to_text genv q"
  by (simp add: receive_pack_def service_rpc_def as_pusher_def split: backend_pipe.split)

text \<open>
  C5: a request of git reaches the process only when the caller may do what it asks for: reading, or
  for a push, and for the references that a push asks for, writing. Otherwise the answer is a refusal,
  or for a readonly repository a message in the protocol of git, whatever the process would do. A push
  is run in the name of the caller.
\<close>

theorem git_requests_are_guarded:
  assumes wf: "orgs_wf db" "ids_disjoint db"
  shows "(may env db caller owner repo Read
      \<or> unprocessed (\<lambda>genv. http_git_upload_pack env genv gunzip caller owner repo ct enc body db) is_refusal)
    \<and> (may env db caller owner repo Write
      \<or> unprocessed (\<lambda>genv. http_git_receive_pack env genv gunzip caller owner repo ct enc body db) is_refusal)
    \<and> (may env db caller owner repo (if service = ''git-receive-pack'' then Write else Read)
      \<or> unprocessed (\<lambda>genv. http_git_info_refs env genv caller owner repo service db)
          (\<lambda>r. is_refusal r \<or> is_readonly_message service r))
    \<and> http_git_receive_pack env (as_pusher (fe_show_uuid env u) genv) gunzip (Some u) owner repo ct enc body db
      = http_git_receive_pack env genv gunzip (Some u) owner repo ct enc body db"
proof (intro conjI)
  show "may env db caller owner repo Read
      \<or> unprocessed (\<lambda>genv. http_git_upload_pack env genv gunzip caller owner repo ct enc body db) is_refusal"
    using git_authorized_cases [OF wf, of env caller owner repo Read]
    by (auto simp: http_git_upload_pack_def unprocessed_def is_refusal_def refusal_def)
  show "may env db caller owner repo Write
      \<or> unprocessed (\<lambda>genv. http_git_receive_pack env genv gunzip caller owner repo ct enc body db) is_refusal"
  proof (cases caller)
    case (Some v)
    then show ?thesis using git_authorized_cases [OF wf, of env caller owner repo Write]
      by (auto simp: http_git_receive_pack_def unprocessed_def is_refusal_def refusal_def)
  qed (simp add: http_git_receive_pack_def unprocessed_def is_refusal_def refusal_def)
  let ?p = "if service = ''git-receive-pack'' then Write else Read"
  show "may env db caller owner repo ?p
      \<or> unprocessed (\<lambda>genv. http_git_info_refs env genv caller owner repo service db)
          (\<lambda>r. is_refusal r \<or> is_readonly_message service r)"
  proof (cases "repository_authorization_request_new (fe_lower env) caller owner repo ?p")
    case (Inl e)
    then show ?thesis
      by (simp add: http_git_info_refs_def Let_def unprocessed_def is_refusal_def refusal_def)
  next
    case (Inr q)
    then have q: "qr_permission q = ?p"
      by (auto simp: repository_authorization_request_new_def)
    show ?thesis
    proof (cases "verify_authorized_for_repository db q")
      case (Inl e)
      then show ?thesis using Inr q readonly_needs_write [of db q]
        by (cases "e = ReadonlyRepository")
          (auto simp: http_git_info_refs_def Let_def unprocessed_def is_refusal_def refusal_def is_readonly_message_def)
    next
      case (Inr x)
      with \<open>repository_authorization_request_new _ _ _ _ _ = Inr q\<close> authorization_may [OF wf, of env caller owner repo ?p]
      show ?thesis by simp
    qed
  qed
  show "http_git_receive_pack env (as_pusher (fe_show_uuid env u) genv) gunzip (Some u) owner repo ct enc body db
      = http_git_receive_pack env genv gunzip (Some u) owner repo ct enc body db"
  proof (cases "pack_request_new (fe_lower env) (Some u) owner repo ct
      (create_body_reader gunzip enc body GIT_RECEIVE_PACK_DECOMPRESSED_LIMIT)")
    case (Inr q)
    from receive_as_pusher [OF pack_request_pusher [OF this]] Inr show ?thesis
      by (simp add: http_git_receive_pack_def)
  qed (simp add: http_git_receive_pack_def)
qed

section \<open>What a compressed body may expand to\<close>

text \<open>
  C24: a compressed body reaches the process whole when it expands to at most the limit of its
  endpoint. A longer one is not refused: the process gets a prefix of the expanded body of at most as
  many bytes as the limit, then the end of its input, and the request is answered as one that sent
  just this prefix. However the copy to the process reads, no byte beyond the limit is ever read from
  the decoder into its buffer.
\<close>

theorem expanded_bodies_are_cut:
  assumes "\<forall>c \<in> set expanded. c \<noteq> []" and "gunzip body = ready expanded"
    and "map ascii_lower encoding = ''gzip''" and "limit \<le> U64_MAX"
  shows "let b = create_body_reader gunzip (Some encoding) body limit;
             sent = copied (ge_room genv) (ge_kept genv) b
    in drain (ge_room genv) 0 b
         = (if length (concat expanded) \<le> limit then (None, concat expanded)
            else (Some LimitExceeded, take limit (concat expanded)))
    \<and> (if length (concat expanded) \<le> limit then sent = concat expanded
       else \<exists>k. k \<le> limit \<and> sent = take k (concat expanded))
    \<and> service_rpc genv owner repo service ct b vars = service_rpc genv owner repo service ct (Plain (ready [sent])) vars"
proof -
  let ?b = "create_body_reader gunzip (Some encoding) body limit"
  have drained: "drain (ge_room genv) 0 ?b
      = (if length (concat expanded) \<le> limit then (None, concat expanded)
         else (Some LimitExceeded, take limit (concat expanded)))"
    using drain_limited [of expanded 0 limit "ge_room genv" 0] assms
    by (simp add: create_body_reader_def limited_reader_new_def)
  have "\<exists>k. k \<le> limit \<and> copied (ge_room genv) (ge_kept genv) ?b = take k (concat expanded)"
    if "limit < length (concat expanded)"
    using that drained
    by (intro exI [of _ "min (ge_kept genv (take limit (concat expanded))) limit"]) (simp add: copied_def min_def)
  with drained show ?thesis
    by (auto simp: Let_def copied_def service_rpc_def copied_plain drain_plain simp del: ready_simps)
qed

section \<open>At a concrete repository\<close>

text \<open>
  The process answers the push of the owner of a private repository, so the owner may write; a
  stranger cannot even read.
\<close>

theorem git_requests_are_guarded_witness:
  "may lower_env (fg_core private_forge) (Some 9) ''alice'' ''app'' Write
   \<and> http_git_upload_pack lower_env demo_backend id (Some 8) ''alice'' ''app''
       ''application/x-git-upload-pack-request'' None [] (fg_core private_forge) = Inl (AppAuthorization Unauthorized)"
proof -
  let ?push = "\<lambda>genv. http_git_receive_pack lower_env genv id (Some 9) ''alice'' ''app''
       ''application/x-git-receive-pack-request'' None [] (fg_core private_forge)"
  have "git_authorized lower_env (Some 9) ''alice'' ''app'' Write (fg_core private_forge) = Inr ()" by code_simp
  moreover have "pack_request_new (fe_lower lower_env) (Some 9) ''alice'' ''app'' ''application/x-git-receive-pack-request'' body
      = Inr \<lparr>kq_pusher_id = Some 9, kq_owner = ''alice'', kq_repo = ''app'',
          kq_content_type = ''application/x-git-receive-pack-request'', kq_body = body\<rparr>" for body
    by code_simp
  moreover have "\<exists>r. receive_pack (fe_show_uuid lower_env) demo_backend q = Inr r" for q
    using demo_answer by (simp add: receive_pack_def service_rpc_def demo_backend_def)
  ultimately have "\<exists>r. ?push demo_backend = Inr r" by (simp add: http_git_receive_pack_def)
  then have "\<not> unprocessed ?push is_refusal" using accepted_is_processed [of ?push] by blast
  with git_requests_are_guarded [OF private_forge_wf, of lower_env "Some 9" "''alice''" "''app''" id
      "''application/x-git-receive-pack-request''" None "[]"]
  have "may lower_env (fg_core private_forge) (Some 9) ''alice'' ''app'' Write" by blast
  moreover have refused: "git_authorized lower_env (Some 8) ''alice'' ''app'' Read (fg_core private_forge) = Inl (AppAuthorization Unauthorized)"
    by code_simp
  then have "http_git_upload_pack lower_env demo_backend id (Some 8) ''alice'' ''app''
       ''application/x-git-upload-pack-request'' None [] (fg_core private_forge) = Inl (AppAuthorization Unauthorized)"
    by (simp add: http_git_upload_pack_def refused)
  ultimately show ?thesis by simp
qed

text \<open>Five bytes under a limit of four, and a copy that wrote three of the four it read.\<close>

theorem expanded_bodies_are_cut_witness:
  "let b = create_body_reader (\<lambda>_. ready [''ab'', ''cde'']) (Some ''GZip'') [] 4
   in drain (ge_room demo_backend) 0 b = (Some LimitExceeded, ''abcd'')
     \<and> copied (ge_room demo_backend) (ge_kept demo_backend) b = ''abc''
     \<and> service_rpc demo_backend ''alice'' ''app'' ''upload-pack'' [] b []
         = service_rpc demo_backend ''alice'' ''app'' ''upload-pack'' [] (Plain (ready [''abc''])) []"
proof -
  let ?gunzip = "\<lambda>_ :: reads. ready [''ab'', ''cde'']"
  let ?b = "create_body_reader ?gunzip (Some ''GZip'') [] 4"
  have "map ascii_lower ''GZip'' = ''gzip''" by code_simp
  moreover have "4 \<le> U64_MAX" by (simp add: U64_MAX_def)
  moreover have "\<forall>c \<in> set [''ab'', ''cde'']. c \<noteq> []" by simp
  ultimately have run: "drain (ge_room demo_backend) 0 ?b = (Some LimitExceeded, ''abcd'')"
      "service_rpc demo_backend ''alice'' ''app'' ''upload-pack'' [] ?b []
        = service_rpc demo_backend ''alice'' ''app'' ''upload-pack'' []
            (Plain (ready [copied (ge_room demo_backend) (ge_kept demo_backend) ?b])) []"
    using expanded_bodies_are_cut [of "[''ab'', ''cde'']" ?gunzip "[]" "''GZip''" 4 demo_backend
        "''alice''" "''app''" "''upload-pack''" "[]" "[]"]
    by (simp_all add: Let_def del: ready_simps)
  moreover have "copied (ge_room demo_backend) (ge_kept demo_backend) ?b = ''abc''"
    unfolding copied_def run(1) by (simp add: demo_backend_def)
  ultimately show ?thesis by (simp add: Let_def del: ready_simps)
qed

text \<open>
  Headers that end with an empty LF line are cut by how the output arrives: at once, the body up to its
  own empty CRLF line goes to the headers; read by read, it does not.
\<close>

lemma bare_newlines_lose_the_body:
  "parse_cgi_response id (''A: b'' @ newline @ newline @ ''x'' @ crlf @ crlf @ ''y'')
     = Inr \<lparr>gh_status = 200, gh_headers = [(''A'', ''b'')], gh_body = Buffered ''y''\<rparr>
   \<and> stream_response id (ready [''A: b'' @ newline @ newline, ''x'' @ crlf @ crlf @ ''y''])
     = Inr \<lparr>gh_status = 200, gh_headers = [(''A'', ''b'')], gh_body = Chunks [''x'' @ crlf @ crlf @ ''y'']\<rparr>"
  by code_simp

end
