(* ===== verification/CommitProps.thy ===== *)
theory CommitProps
  imports UserService
begin

text \<open>
  What a viewer learns from the commits of a user: nothing about repositories that are hidden
  from the viewer; and how a push attributes its commits.
\<close>

section \<open>Listings under a renaming of rows\<close>

lemma insort_key_map: "insort_key k (f x) (map f xs) = map f (insort_key (\<lambda>x. k (f x)) x xs)"
  by (induction xs) auto

lemma sort_key_map: "sort_key k (map f xs) = map f (sort_key (k \<circ> f) xs)"
  by (induction xs) (simp_all add: insort_key_map comp_def)

lemma keyset_fetch_map:
  assumes "\<And>r. key (f r) = key r"
  shows "keyset_fetch key (map f rows) cur n = map f (keyset_fetch key rows cur n)"
proof -
  have "key \<circ> f = key" by (simp add: comp_def assms)
  moreover have "below key cur (f r) = below key cur r" for r by (simp add: below_def assms split: option.split)
  ultimately show ?thesis
    by (simp add: keyset_fetch_def newest_first_def filter_map comp_def sort_key_map rev_map take_map)
qed

lemma fetch_all_map_rows: "fetch_all decode (map f rows) = fetch_all (decode \<circ> f) rows"
  by (induction rows) (auto split: sum.splits)

lemma fetch_all_map_values: "map_sum id (map g) (fetch_all decode rows) = fetch_all (map_sum id g \<circ> decode) rows"
  by (induction rows) (auto split: sum.splits)

section \<open>Hidden commits\<close>

lemma hidden_lookups [simp]:
  "owner_name_of (hide_commits viewer core) = owner_name_of core"
  "find_user (hide_commits viewer core) = find_user core"
  "viewer_orgs (hide_commits viewer core) = viewer_orgs core"
  "repo_of_commit (hide_commits viewer core) = repo_of_commit core"
  "user_view (hide_commits viewer core) = user_view core"
  by (auto simp: fun_eq_iff owner_name_of_def find_user_def find_org_def viewer_orgs_def repo_of_commit_def user_view_def
      emails_of_def hide_commits_def split: owner_type.split option.split)

lemma hidden_row:
  assumes "h = (\<lambda>c. if viewer_has_access core viewer c then c else blank_commit c)"
  shows "repo_of_commit (hide_commits viewer core) (h c) = repo_of_commit core c"
    and "viewer_has_access (hide_commits viewer core) viewer (h c) = viewer_has_access core viewer c"
    and "commit_key (h c) = commit_key c"
    and "cm_author_id (h c) = cm_author_id c"
proof -
  show "repo_of_commit (hide_commits viewer core) (h c) = repo_of_commit core c"
    by (simp add: repo_of_commit_def blank_commit_def assms)
  then have r: "repo_of_commit core (h c) = repo_of_commit core c" by simp
  show "viewer_has_access (hide_commits viewer core) viewer (h c) = viewer_has_access core viewer c"
    unfolding viewer_has_access_def hidden_lookups r ..
qed (simp_all add: commit_key_def blank_commit_def assms)

text \<open>What the listing keeps of a row: the response and the key that pages are cut at.\<close>

definition shown :: "commit \<times> bool \<Rightarrow> user_commit_response \<times> time \<times> uuid" where
  "shown ca = (user_commit_response_of ca, commit_key (fst ca))"

lemma shown_hidden:
  assumes "h = (\<lambda>c. if viewer_has_access core viewer c then c else blank_commit c)"
  shows "map_sum id shown (user_commit_row (hide_commits viewer core) viewer (h c)) = map_sum id shown (user_commit_row core viewer c)"
proof (cases "viewer_has_access core viewer c")
  case True
  then have "h c = c" by (simp add: assms)
  with hidden_row(1,2) [OF assms, of c] have "user_commit_row (hide_commits viewer core) viewer c = user_commit_row core viewer c"
    by (simp add: user_commit_row_def) (simp only: commit_view_def hidden_lookups)
  then show ?thesis by (simp add: \<open>h c = c\<close>)
next
  case False
  then have "h c = blank_commit c" by (simp add: assms)
  with hidden_row(1,2) [OF assms, of c] False show ?thesis
    by (auto simp: user_commit_row_def commit_view_def shown_def user_commit_response_of_def redacted_commit_def blank_commit_def commit_key_def
        commit_row.extend_def commit.fields_def Let_def split: option.splits owner_type.splits)
qed

lemma pop_shown:
  "page_of env user_commit_response_of (pop_extra (\<lambda>(v, _). commit_key v) limit got)
    = page_of env fst (pop_extra snd limit (map shown got))"
proof -
  have "pop_extra snd limit (map shown got) = map_prod (map shown) id (pop_extra (\<lambda>(v, _). commit_key v) limit got)"
    by (rule pop_extra_map) (auto simp: shown_def)
  then show ?thesis by (cases "pop_extra (\<lambda>(v, _). commit_key v) limit got") (simp add: page_of_def shown_def comp_def)
qed

definition commit_pages :: "forge_env \<Rightarrow> nat \<Rightarrow> database_error + (user_commit_response \<times> time \<times> uuid) list \<Rightarrow> user_error + user_commit_response page"
where
  "commit_pages env limit got = map_sum UserDatabaseError (\<lambda>xs. page_of env fst (pop_extra snd limit xs)) got"

lemma list_user_commits_shown:
  "list_user_commits env name viewer from to cur limit core =
     and_then (find_named name core) (\<lambda>user.
       commit_pages env limit (fetch_all (map_sum id shown \<circ> user_commit_row core viewer)
         (keyset_fetch commit_key (joined core (\<lambda>c. cm_author_id c = Some (us_id user)
             \<and> from \<le> cm_created_at c \<and> cm_created_at c \<le> to)) cur (limit + 1))))"
proof -
  have "and_then (map_err UserDatabaseError (list_by_user core i viewer from to cur limit))
        (\<lambda>rows. Inr (page_of env user_commit_response_of rows))
      = commit_pages env limit (map_sum id (map shown) (fetch_all (user_commit_row core viewer)
         (keyset_fetch commit_key (joined core (\<lambda>c. cm_author_id c = Some i
             \<and> from \<le> cm_created_at c \<and> cm_created_at c \<le> to)) cur (limit + 1))))" for i
    by (cases "fetch_all (user_commit_row core viewer)
         (keyset_fetch commit_key (joined core (\<lambda>c. cm_author_id c = Some i
             \<and> from \<le> cm_created_at c \<and> cm_created_at c \<le> to)) cur (limit + 1))")
      (simp_all add: list_by_user_def Let_def commit_pages_def map_err_def flip: pop_shown)
  then show ?thesis unfolding fetch_all_map_values [symmetric] list_user_commits_def by simp
qed

text \<open>
  C11: the commits of a user as a viewer sees them do not change when everything that commits of
  repositories hidden from the viewer say is blanked: messages, hashes, branches, addresses,
  review numbers and diffs; for every database, period, cursor and page size.
\<close>

theorem hidden_commits_reveal_nothing:
  "list_user_commits env name viewer from to cur limit (hide_commits viewer core)
    = list_user_commits env name viewer from to cur limit core"
proof -
  define h where "h = (\<lambda>c. if viewer_has_access core viewer c then c else blank_commit c)"
  note row = hidden_row [OF h_def]
  have named: "find_named name (hide_commits viewer core) = find_named name core"
    by (simp add: find_named_def user_get_def) (simp add: hide_commits_def)
  have commits: "db_commits (hide_commits viewer core) = map h (db_commits core)"
    by (simp add: hide_commits_def h_def)
  have "joined (hide_commits viewer core) (\<lambda>c. cm_author_id c = Some i \<and> from \<le> cm_created_at c \<and> cm_created_at c \<le> to)
      = map h (joined core (\<lambda>c. cm_author_id c = Some i \<and> from \<le> cm_created_at c \<and> cm_created_at c \<le> to))" for i
    using row(1,4) by (auto simp: joined_def commits filter_map comp_def h_def blank_commit_def intro!: arg_cong [where f = "map _"] filter_cong)
  then show ?thesis
    unfolding list_user_commits_shown named
    by (simp add: keyset_fetch_map row(3) fetch_all_map_rows comp_def shown_hidden [OF h_def])
qed

end
