(* ===== verification/CiDag.thy ===== *)
theory CiDag
  imports CiConfig
begin

text \<open>
  The correctness of the three-colour search of \<open>check_dag\<close>.
  The invariant of the search: the Gray nodes are exactly the nodes on the path, the path
  follows edges, every message reported so far names a cycle, and while nothing has been
  reported the Black nodes can be listed so that each node comes before none of its successors
  (\<open>finish_order\<close>), which is a topological order of the part already explored.
\<close>

section \<open>Edges, finishing orders and reported cycles\<close>

definition edge :: "adjacency \<Rightarrow> string \<Rightarrow> string \<Rightarrow> bool" where
  "edge adj u v \<longleftrightarrow> (\<exists>ns. map_of adj u = Some ns \<and> v \<in> set ns)"

definition closed_adj :: "adjacency \<Rightarrow> bool" where
  "closed_adj adj \<longleftrightarrow> (\<forall>u v. edge adj u v \<longrightarrow> v \<in> fst ` set adj)"

definition colored :: "dfs_state \<Rightarrow> node_color \<Rightarrow> string set" where
  "colored st c = {n. map_of (color st) n = Some c}"

lemma coloredD: "n \<in> colored st c \<longleftrightarrow> map_of (color st) n = Some c"
  by (simp add: colored_def)

inductive finish_order :: "('a \<Rightarrow> 'a \<Rightarrow> bool) \<Rightarrow> 'a list \<Rightarrow> bool" for E where
  fo_nil: "finish_order E []"
| fo_cons: "finish_order E L \<Longrightarrow> u \<notin> set L \<Longrightarrow> (\<And>v. E u v \<Longrightarrow> v \<in> set L) \<Longrightarrow> finish_order E (u # L)"

inductive_cases finish_order_ConsE: "finish_order E (u # L)"

text \<open>A finishing order that covers every node with a successor rules out cycles.\<close>

lemma finish_order_distinct: "finish_order E L \<Longrightarrow> distinct L"
  by (induction rule: finish_order.induct) auto

lemma finish_order_reach:
  "finish_order E L \<Longrightarrow> u \<in> set L \<Longrightarrow> E\<^sup>+\<^sup>+ u v \<Longrightarrow> v \<in> set L \<and> u \<noteq> v"
proof (induction arbitrary: u rule: finish_order.induct)
  case (fo_cons L w)
  show ?case
  proof (cases "u = w")
    case True
    from fo_cons.prems(2) True obtain x where x: "E w x" "x = v \<or> E\<^sup>+\<^sup>+ x v"
      by (metis tranclpD rtranclpD)
    then have "v \<in> set L" using fo_cons by auto
    with True fo_cons.hyps show ?thesis by auto
  next
    case False
    with fo_cons show ?thesis by auto
  qed
qed simp

lemma finish_order_acyclic:
  assumes "finish_order E L" and "\<And>u v. E u v \<Longrightarrow> u \<in> set L"
  shows "\<not> E\<^sup>+\<^sup>+ u u"
proof
  assume c: "E\<^sup>+\<^sup>+ u u"
  then obtain x where "E u x" by (blast dest: tranclpD)
  then have "u \<in> set L" by (rule assms(2))
  with finish_order_reach [OF assms(1) this c] show False by simp
qed

definition cycle_message :: "string list \<Rightarrow> string \<Rightarrow> string" where
  "cycle_message cycle nxt =
     ''cyclical dependency detected: '' @ join_str '' -> '' cycle @ '' -> '' @ nxt"

definition names_cycle :: "adjacency \<Rightarrow> string \<Rightarrow> bool" where
  "names_cycle adj m \<longleftrightarrow>
     (\<exists>cycle nxt. cycle \<noteq> [] \<and> hd cycle = nxt \<and> successively (edge adj) cycle \<and>
        edge adj (last cycle) nxt \<and> m = cycle_message cycle nxt)"

lemma successively_reach:
  "successively E xs \<Longrightarrow> xs \<noteq> [] \<Longrightarrow> E\<^sup>*\<^sup>* (hd xs) (last xs)"
  by (induction xs rule: induct_list012) (auto intro: converse_rtranclp_into_rtranclp)

lemma names_cycle_cyclic: "names_cycle adj m \<Longrightarrow> \<exists>u. (edge adj)\<^sup>+\<^sup>+ u u"
  unfolding names_cycle_def by (blast dest: successively_reach rtranclp_into_tranclp1)

lemma successively_dropWhile: "successively E xs \<Longrightarrow> successively E (dropWhile P xs)"
  by (induction xs rule: induct_list012) auto

section \<open>The invariant of the search\<close>

definition dfs_inv :: "adjacency \<Rightarrow> dfs_state \<Rightarrow> bool" where
  "dfs_inv adj st \<longleftrightarrow>
     colored st Gray = set (dpath st) \<and> distinct (dpath st) \<and> successively (edge adj) (dpath st) \<and>
     \<not> panicked st \<and> (\<forall>m \<in> set (errs st). names_cycle adj m) \<and>
     (errs st = [] \<longrightarrow> (\<exists>L. finish_order (edge adj) L \<and> set L = colored st Black)) \<and>
     dom (map_of (color st)) = fst ` set adj"

definition dfs_frame :: "dfs_state \<Rightarrow> dfs_state \<Rightarrow> bool" where
  "dfs_frame st st' \<longleftrightarrow>
     dpath st' = dpath st \<and> colored st Black \<subseteq> colored st' Black \<and> (errs st' = [] \<longrightarrow> errs st = [])"

lemma dfs_frame_refl [simp]: "dfs_frame st st"
  by (simp add: dfs_frame_def)

lemma dfs_frame_trans: "dfs_frame a b \<Longrightarrow> dfs_frame b c \<Longrightarrow> dfs_frame a c"
  by (auto simp: dfs_frame_def)

lemma colored_enter:
  "colored (enter_node n st) c = (if c = Gray then insert n (colored st Gray) else colored st c - {n})"
  by (auto simp: colored_def enter_node_def update_conv')

lemma colored_leave:
  "colored (leave_node n st) c = (if c = Black then insert n (colored st Black) else colored st c - {n})"
  by (auto simp: colored_def leave_node_def update_conv')

lemma enter_inv:
  assumes "dfs_inv adj st" and w: "n \<in> colored st White"
    and e: "dpath st = [] \<or> edge adj (last (dpath st)) n"
  shows "dfs_inv adj (enter_node n st)"
proof -
  have "n \<notin> colored st Gray" "n \<notin> colored st Black" using w by (auto simp: colored_def)
  moreover have "dom (map_of (color (enter_node n st))) = fst ` set adj"
    using assms by (auto simp: dfs_inv_def enter_node_def update_conv' colored_def)
  ultimately show ?thesis using assms
    by (auto simp: dfs_inv_def colored_enter)
       (auto simp: enter_node_def successively_append_iff)
qed

lemma leave_inv:
  assumes inv: "dfs_inv adj st" and p: "dpath st = p @ [n]"
    and succ: "errs st = [] \<Longrightarrow> (\<And>v. edge adj n v \<Longrightarrow> v \<in> colored st Black)"
  shows "dfs_inv adj (leave_node n st)"
proof -
  have n: "n \<in> colored st Gray" "n \<notin> set p" using inv p by (auto simp: dfs_inv_def)
  then have nb: "n \<notin> colored st Black" by (auto simp: colored_def)
  have "\<exists>L. finish_order (edge adj) L \<and> set L = insert n (colored st Black)" if "errs st = []"
  proof -
    from inv that obtain L where "finish_order (edge adj) L" "set L = colored st Black"
      by (auto simp: dfs_inv_def)
    with succ [OF that] nb have "finish_order (edge adj) (n # L)"
      by (auto intro: finish_order.intros)
    with \<open>set L = _\<close> show ?thesis by (intro exI [of _ "n # L"]) auto
  qed
  moreover have "n \<in> dom (map_of (color st))" using n(1) by (simp add: coloredD domI)
  with inv have "dom (map_of (color (leave_node n st))) = fst ` set adj"
    by (simp add: dfs_inv_def leave_node_def update_conv' insert_absorb)
  moreover have "dpath (leave_node n st) = p" "errs (leave_node n st) = errs st"
    "panicked (leave_node n st) = panicked st"
    using p by (auto simp: leave_node_def)
  ultimately show ?thesis using inv p n
    by (auto simp: dfs_inv_def colored_leave successively_append_iff)
qed

lemma report_inv:
  assumes inv: "dfs_inv adj st" and g: "n \<in> colored st Gray"
    and e: "edge adj (last (dpath st)) n"
  shows "dfs_inv adj (report_cycle n st)" and "dfs_frame st (report_cycle n st)"
    and "errs (report_cycle n st) \<noteq> []"
proof -
  let ?c = "dropWhile (\<lambda>m. m \<noteq> n) (dpath st)"
  have np: "n \<in> set (dpath st)" using inv g by (simp add: dfs_inv_def)
  then have ne: "?c \<noteq> []" by (auto simp: dropWhile_eq_Nil_conv)
  have hd: "hd ?c = n" using hd_dropWhile [OF ne] by simp
  have "last ?c = last (dpath st)"
    using ne by (metis last_appendR takeWhile_dropWhile_id)
  with e ne hd inv have "names_cycle adj (cycle_message ?c n)"
    unfolding names_cycle_def by (intro exI [of _ ?c] exI [of _ n])
      (auto simp: dfs_inv_def successively_dropWhile)
  with inv ne show "dfs_inv adj (report_cycle n st)"
    by (auto simp: dfs_inv_def report_cycle_def Let_def cycle_message_def colored_def)
  show "dfs_frame st (report_cycle n st)" "errs (report_cycle n st) \<noteq> []"
    using ne by (auto simp: dfs_frame_def report_cycle_def Let_def colored_def)
qed

section \<open>The search keeps the invariant\<close>

text \<open>
  One statement for \<open>dfs\<close> and one for its neighbour loop, by the induction rule of the
  mutual recursion.
\<close>

lemma dfs_keeps_inv:
  "closed_adj adj \<Longrightarrow> dfs_inv adj st \<Longrightarrow> node \<in> colored st White \<Longrightarrow>
     dpath st = [] \<or> edge adj (last (dpath st)) node \<Longrightarrow>
     dfs_inv adj (dfs adj node st) \<and> dfs_frame st (dfs adj node st) \<and>
     node \<in> colored (dfs adj node st) Black"
  "closed_adj adj \<Longrightarrow> dfs_inv adj st \<Longrightarrow> dpath st \<noteq> [] \<Longrightarrow>
     (\<forall>v \<in> set ns. edge adj (last (dpath st)) v) \<Longrightarrow>
     dfs_inv adj (dfs_each adj ns st) \<and> dfs_frame st (dfs_each adj ns st) \<and>
     (errs (dfs_each adj ns st) = [] \<longrightarrow> set ns \<subseteq> colored (dfs_each adj ns st) Black)"
proof (induction adj node st and adj ns st rule: dfs_dfs_each.induct)
  case (1 adj node st)
  let ?en = "enter_node node st"
  have en: "dfs_inv adj ?en" using 1(3-5) by (rule enter_inv)
  have pe: "dpath ?en = dpath st @ [node]" "errs ?en = errs st" by (simp_all add: enter_node_def)
  obtain ns where ns: "map_of adj node = Some ns"
    using 1(3,4) by (metis (no_types, lifting) coloredD dfs_inv_def domIff map_of_eq_None_iff
      not_None_eq option.distinct(1))
  let ?r = "dfs_each adj ns ?en"
  have r: "dfs_inv adj ?r" "dfs_frame ?en ?r"
    "errs ?r = [] \<Longrightarrow> set ns \<subseteq> colored ?r Black"
    using 1(1) [OF ns 1(2) en] ns by (auto simp: pe edge_def)
  have pr: "dpath ?r = dpath st @ [node]" using r(2) pe by (simp add: dfs_frame_def)
  have "dfs_inv adj (leave_node node ?r)"
    using r(3) ns by (intro leave_inv [OF r(1) pr]) (auto simp: edge_def)
  moreover have "colored st Black \<subseteq> colored ?en Black"
    using 1(4) by (auto simp: colored_enter coloredD)
  then have "dfs_frame st (leave_node node ?r)"
    using r(2) pr pe by (auto simp: dfs_frame_def colored_leave) (auto simp: leave_node_def)
  ultimately show ?case using ns by (simp add: dfs.simps colored_leave)
next
  case (2 adj st)
  then show ?case by simp
next
  case (3 adj nxt rest st)
  let ?st = "case map_of (color st) nxt of Some Gray \<Rightarrow> report_cycle nxt st
      | Some White \<Rightarrow> dfs adj nxt st | _ \<Rightarrow> st"
  have e: "edge adj (last (dpath st)) nxt" using 3(6) by simp
  have dom: "nxt \<in> dom (map_of (color st))"
    using e 3(3,4) by (auto simp: closed_adj_def dfs_inv_def)
  have step: "dfs_inv adj ?st \<and> dfs_frame st ?st \<and> (errs ?st = [] \<longrightarrow> nxt \<in> colored ?st Black)"
  proof (cases "map_of (color st) nxt")
    case None
    with dom show ?thesis by auto
  next
    case (Some c)
    show ?thesis
    proof (cases c)
      case White
      with Some have "nxt \<in> colored st White" by (simp add: coloredD)
      with 3(1) [OF Some White 3(3,4)] e Some White show ?thesis by simp
    next
      case Gray
      with Some have "nxt \<in> colored st Gray" by (simp add: coloredD)
      from report_inv [OF 3(4) this e] Some Gray show ?thesis by simp
    next
      case Black
      with Some 3(4) show ?thesis by (simp add: coloredD)
    qed
  qed
  then have ne: "dpath ?st = dpath st" by (simp add: dfs_frame_def)
  then have "dfs_inv adj (dfs_each adj rest ?st) \<and> dfs_frame ?st (dfs_each adj rest ?st) \<and>
      (errs (dfs_each adj rest ?st) = [] \<longrightarrow> set rest \<subseteq> colored (dfs_each adj rest ?st) Black)"
    using 3(2) [OF 3(3)] step 3(5,6) by simp
  with step show ?case
    by (auto simp: dfs_each.simps(2) dfs_frame_def)
qed

lemma dfs_roots_inv:
  "closed_adj adj \<Longrightarrow> dfs_inv adj st \<Longrightarrow> dpath st = [] \<Longrightarrow> set nodes \<subseteq> fst ` set adj \<Longrightarrow>
     dfs_inv adj (dfs_roots adj nodes st) \<and> dfs_frame st (dfs_roots adj nodes st) \<and>
     (errs (dfs_roots adj nodes st) = [] \<longrightarrow> set nodes \<subseteq> colored (dfs_roots adj nodes st) Black)"
proof (induction nodes arbitrary: st)
  case (Cons node nodes)
  let ?st = "case map_of (color st) node of None \<Rightarrow> st\<lparr>panicked := True\<rparr>
        | Some c \<Rightarrow> if c = White then dfs adj node st else st"
  have "node \<in> dom (map_of (color st))" using Cons.prems by (simp add: dfs_inv_def)
  then obtain c where c: "map_of (color st) node = Some c" by blast
  have step: "dfs_inv adj ?st \<and> dfs_frame st ?st \<and> node \<in> colored ?st Black"
  proof (cases c)
    case White
    with c have "node \<in> colored st White" by (simp add: coloredD)
    from dfs_keeps_inv(1) [OF Cons.prems(1,2) this] Cons.prems(3) c White show ?thesis by simp
  next
    case Gray
    with c have "node \<in> colored st Gray" by (simp add: coloredD)
    with Cons.prems(2,3) show ?thesis by (simp add: dfs_inv_def)
  next
    case Black
    with c Cons.prems(2) show ?thesis by (simp add: coloredD)
  qed
  moreover define st1 where "st1 = ?st"
  ultimately have st1: "dfs_inv adj st1" "dfs_frame st st1" "node \<in> colored st1 Black"
    by simp_all
  then have "dpath st1 = []" using Cons.prems(3) by (simp add: dfs_frame_def)
  with Cons.prems st1 have "dfs_inv adj (dfs_roots adj nodes st1) \<and>
      dfs_frame st1 (dfs_roots adj nodes st1) \<and>
      (errs (dfs_roots adj nodes st1) = [] \<longrightarrow> set nodes \<subseteq> colored (dfs_roots adj nodes st1) Black)"
    by (intro Cons.IH) auto
  moreover have "dfs_roots adj (node # nodes) st = dfs_roots adj nodes st1"
    by (simp add: st1_def)
  ultimately show ?case
    using st1 by (auto simp: dfs_frame_def simp del: dfs_roots.simps)
qed simp

lemma dfs_init_inv: "dfs_inv adj (dfs_init adj)"
proof -
  have m: "map_of (map (\<lambda>p. (fst p, White)) adj) n = (if n \<in> fst ` set adj then Some White else None)" for n
    by (induction adj) auto
  have "dom (map_of (map (\<lambda>p. (fst p, White)) adj)) = fst ` set adj"
    by (auto simp: m dom_def)
  moreover have "colored (dfs_init adj) Gray = {}" "colored (dfs_init adj) Black = {}"
    by (auto simp: colored_def dfs_init_def m)
  ultimately show ?thesis
    by (auto simp: dfs_inv_def dfs_init_def intro: finish_order.intros exI [of _ "[]"])
qed

section \<open>The adjacency map holds the declared dependencies\<close>

definition waits_on :: "ci_config \<Rightarrow> string \<Rightarrow> string \<Rightarrow> bool" where
  "waits_on cfg dep name \<longleftrightarrow>
     (\<exists>t \<in> set (cc_tasks cfg). tc_name t = name \<and> dep \<in> set (deps_of t) \<and> dep \<in> defined_names cfg)"

lemma map_of_entry: "map_of (adj_entry k adj) = (\<lambda>x. if x = k \<and> map_of adj k = None then Some [] else map_of adj x)"
  by (auto simp: adj_entry_def map_add_def fun_eq_iff split: option.splits)

lemma map_of_push: "map_of (adj_push k v adj) =
    (map_of adj)(k \<mapsto> (case map_of adj k of None \<Rightarrow> [v] | Some vs \<Rightarrow> vs @ [v]))"
  by (auto simp: adj_push_def map_add_def fun_eq_iff update_conv' split: option.splits)

lemma edge_entry [simp]: "edge (adj_entry k adj) = edge adj"
  by (auto simp: edge_def map_of_entry fun_eq_iff)

lemma edge_push [simp]: "edge (adj_push k v adj) a b \<longleftrightarrow> edge adj a b \<or> (a = k \<and> b = v)"
  by (auto simp: edge_def map_of_push split: option.splits)

lemma keys_entry [simp]: "fst ` set (adj_entry k adj) = insert k (fst ` set adj)"
  unfolding dom_map_of_conv_image_fst [symmetric] by (auto simp: map_of_entry dom_def)

lemma keys_push [simp]: "fst ` set (adj_push k v adj) = insert k (fst ` set adj)"
  unfolding dom_map_of_conv_image_fst [symmetric] by (simp add: map_of_push)

lemma edge_add_deps [simp]: "edge (add_deps known name deps adj) a b \<longleftrightarrow>
    edge adj a b \<or> (a \<in> set deps \<and> a \<in> known \<and> b = name)"
  by (induction known name deps adj rule: add_deps.induct) auto

lemma keys_add_deps [simp]: "fst ` set (add_deps known name deps adj) =
    (set deps \<inter> known) \<union> fst ` set adj"
  by (induction known name deps adj rule: add_deps.induct) auto

lemma edge_add_tasks: "edge (add_tasks known ts adj) a b \<longleftrightarrow>
    edge adj a b \<or> (\<exists>t \<in> set ts. tc_name t = b \<and> a \<in> set (deps_of t) \<and> a \<in> known)"
  by (induction known ts adj rule: add_tasks.induct) auto

lemma keys_add_tasks: "fst ` set (add_tasks known ts adj) \<union> known =
    tc_name ` set ts \<union> fst ` set adj \<union> known"
  "fst ` set (add_tasks known ts adj) \<supseteq> tc_name ` set ts \<union> fst ` set adj"
  by (induction known ts adj rule: add_tasks.induct) auto

lemma edge_build_adj: "edge (build_adj cfg) = waits_on cfg"
  by (auto simp: fun_eq_iff build_adj_def edge_add_tasks waits_on_def)
     (auto simp: edge_def)

lemma keys_build_adj: "fst ` set (build_adj cfg) = defined_names cfg"
  using keys_add_tasks [where known = "defined_names cfg" and ts = "cc_tasks cfg" and adj = "[]"]
  by (auto simp: build_adj_def defined_names_def)

lemma closed_build_adj: "closed_adj (build_adj cfg)"
  by (auto simp: closed_adj_def edge_build_adj keys_build_adj waits_on_def defined_names_def)

section \<open>What check_dag decides\<close>

definition acyclic_config :: "ci_config \<Rightarrow> bool" where
  "acyclic_config cfg \<longleftrightarrow> (\<forall>n. \<not> (waits_on cfg)\<^sup>+\<^sup>+ n n)"

lemma check_dag_state_inv:
  assumes "set nodes \<subseteq> defined_names cfg"
  shows "dfs_inv (build_adj cfg) (check_dag_state nodes cfg)"
    and "check_dag nodes cfg = [] \<Longrightarrow> set nodes \<subseteq> colored (check_dag_state nodes cfg) Black"
  using dfs_roots_inv [OF closed_build_adj dfs_init_inv, of cfg nodes] assms
  by (auto simp: check_dag_state_def check_dag_def keys_build_adj dfs_init_def)

lemma check_dag_order:
  assumes "set nodes = defined_names cfg" and "check_dag nodes cfg = []"
  obtains L where "finish_order (waits_on cfg) L" "set L = defined_names cfg"
proof -
  let ?st = "check_dag_state nodes cfg"
  have inv: "dfs_inv (build_adj cfg) ?st" and b: "set nodes \<subseteq> colored ?st Black"
    using check_dag_state_inv [of nodes cfg] assms by auto
  then obtain L where L: "finish_order (waits_on cfg) L" "set L = colored ?st Black"
    using assms(2) by (auto simp: dfs_inv_def check_dag_def edge_build_adj)
  have "colored ?st Black \<subseteq> defined_names cfg"
    using inv by (auto simp: dfs_inv_def coloredD keys_build_adj)
  with b assms(1) L show ?thesis by (auto intro: that)
qed

lemma check_dag_iff:
  assumes "set nodes = defined_names cfg"
  shows "check_dag nodes cfg = [] \<longleftrightarrow> acyclic_config cfg"
proof
  assume "check_dag nodes cfg = []"
  with assms obtain L where "finish_order (waits_on cfg) L" "set L = defined_names cfg"
    by (rule check_dag_order)
  then have "\<not> (waits_on cfg)\<^sup>+\<^sup>+ n n" for n
    using finish_order_acyclic [of "waits_on cfg" L n] by (auto simp: waits_on_def)
  then show "acyclic_config cfg" by (simp add: acyclic_config_def)
next
  assume ac: "acyclic_config cfg"
  show "check_dag nodes cfg = []"
  proof (rule ccontr)
    assume "check_dag nodes cfg \<noteq> []"
    then obtain m where "m \<in> set (check_dag nodes cfg)" by (meson last_in_set)
    then have "names_cycle (build_adj cfg) m"
      using check_dag_state_inv(1) [of nodes cfg] assms by (auto simp: check_dag_def dfs_inv_def)
    with ac show False using names_cycle_cyclic by (fastforce simp: acyclic_config_def edge_build_adj)
  qed
qed
end
