(* ===== verification/CiValidate.thy ===== *)
theory CiValidate
  imports CiDag
begin

text \<open>
  What \<open>validate_ci_config\<close> accepts, stated without its passes: \<open>well_formed_config\<close>.
  One lemma per pass says when the pass is silent; the properties of the component follow.
\<close>

section \<open>When each pass is silent\<close>

named_theorems silent_pass

lemma report_repeats_Nil: "report_repeats msg S xs = [] \<longleftrightarrow> distinct xs \<and> set xs \<inter> S = {}"
  by (induction msg S xs rule: report_repeats.induct) auto

lemma concat_enumerate_Nil:
  "(\<And>i x. f i x = [] \<longleftrightarrow> Q x) \<Longrightarrow>
   concat (map (\<lambda>(i, x). f i x) (enumerate n xs)) = [] \<longleftrightarrow> (\<forall>x \<in> set xs. Q x)"
  by (induction xs arbitrary: n) auto

lemma filter_enumerate_Nil:
  "filter (\<lambda>(i, x). Q x) (enumerate n xs) = [] \<longleftrightarrow> (\<forall>x \<in> set xs. \<not> Q x)"
  by (induction xs arbitrary: n) auto

lemma silent_non_empty [silent_pass]:
  "check_non_empty cfg = [] \<longleftrightarrow> cc_builds cfg \<noteq> [] \<and> cc_tasks cfg \<noteq> []"
  by (simp add: check_non_empty_def)

lemma silent_task_names [silent_pass]:
  "check_duplicate_task_names cfg = [] \<longleftrightarrow> distinct (map tc_name (cc_tasks cfg))"
  by (simp add: check_duplicate_task_names_def report_repeats_Nil)

lemma trigger_into_string_inj: "inj trigger_into_string"
proof (rule injI)
  fix a b :: build_trigger
  assume "trigger_into_string a = trigger_into_string b"
  then show "a = b" by (cases a; cases b) simp_all
qed

lemma silent_build_triggers [silent_pass]:
  "check_duplicate_build_triggers cfg = [] \<longleftrightarrow> distinct (map bc_trigger (cc_builds cfg))"
proof -
  have "map (trigger_into_string \<circ> bc_trigger) bs = map trigger_into_string (map bc_trigger bs)" for bs
    by simp
  moreover have "inj_on trigger_into_string A" for A
    using trigger_into_string_inj by (rule inj_on_subset) simp
  ultimately show ?thesis
    unfolding check_duplicate_build_triggers_def report_repeats_Nil by (metis distinct_map inf_bot_right)
qed

lemma silent_empty_lists [silent_pass]:
  "check_empty_build_task_lists cfg = [] \<longleftrightarrow> (\<forall>b \<in> set (cc_builds cfg). bc_tasks b \<noteq> [])"
  by (simp add: check_empty_build_task_lists_def filter_enumerate_Nil)

lemma silent_commands [silent_pass]:
  "check_empty_commands cfg = [] \<longleftrightarrow> (\<forall>t \<in> set (cc_tasks cfg). trim (tc_command t) \<noteq> [])"
  by (auto simp: check_empty_commands_def filter_empty_conv)

lemma silent_references [silent_pass]:
  "check_task_references cfg = [] \<longleftrightarrow> (\<forall>b \<in> set (cc_builds cfg). set (bc_tasks b) \<subseteq> defined_names cfg)"
  unfolding check_task_references_def by (rule concat_enumerate_Nil) auto

lemma silent_repeated_refs [silent_pass]:
  "check_duplicate_task_refs_in_build cfg = [] \<longleftrightarrow> (\<forall>b \<in> set (cc_builds cfg). distinct (bc_tasks b))"
  unfolding check_duplicate_task_refs_in_build_def
  by (rule concat_enumerate_Nil) (simp add: report_repeats_Nil)

lemma silent_orphans [silent_pass]:
  "check_no_orphaned_tasks cfg = [] \<longleftrightarrow>
     (\<forall>t \<in> set (cc_tasks cfg). \<exists>b \<in> set (cc_builds cfg). tc_name t \<in> set (bc_tasks b))"
  by (auto simp: check_no_orphaned_tasks_def Let_def filter_empty_conv)

lemma silent_waits_for [silent_pass]:
  "check_waits_for_unknown_tasks cfg = [] \<longleftrightarrow>
     (\<forall>t \<in> set (cc_tasks cfg). set (deps_of t) \<subseteq> defined_names cfg)"
  by (auto simp: check_waits_for_unknown_tasks_def split: if_splits)

section \<open>The well-formed configurations\<close>

definition well_formed_config :: "ci_config \<Rightarrow> bool" where
  "well_formed_config cfg \<longleftrightarrow>
     cc_builds cfg \<noteq> [] \<and> cc_tasks cfg \<noteq> [] \<and>
     distinct (map tc_name (cc_tasks cfg)) \<and> distinct (map bc_trigger (cc_builds cfg)) \<and>
     (\<forall>b \<in> set (cc_builds cfg).
        bc_tasks b \<noteq> [] \<and> distinct (bc_tasks b) \<and> set (bc_tasks b) \<subseteq> defined_names cfg) \<and>
     (\<forall>t \<in> set (cc_tasks cfg).
        trim (tc_command t) \<noteq> [] \<and> set (deps_of t) \<subseteq> defined_names cfg \<and>
        (\<exists>b \<in> set (cc_builds cfg). tc_name t \<in> set (bc_tasks b))) \<and>
     acyclic_config cfg"

lemma validate_iff:
  assumes "set nodes = defined_names cfg"
  shows "validate_ci_config nodes cfg = Inr () \<longleftrightarrow> well_formed_config cfg"
proof -
  have "validate_ci_config nodes cfg = Inr () \<longleftrightarrow>
      check_non_empty cfg = [] \<and> check_duplicate_task_names cfg = [] \<and>
      check_duplicate_build_triggers cfg = [] \<and> check_empty_build_task_lists cfg = [] \<and>
      check_empty_commands cfg = [] \<and> check_task_references cfg = [] \<and>
      check_duplicate_task_refs_in_build cfg = [] \<and> check_no_orphaned_tasks cfg = [] \<and>
      check_waits_for_unknown_tasks cfg = [] \<and> check_dag nodes cfg = []"
    by (simp add: validate_ci_config_def Let_def)
  then show ?thesis
    unfolding well_formed_config_def silent_pass check_dag_iff [OF assms] by blast
qed

text \<open>In an accepted configuration a trigger selects at most one build, and the tasks of that
  build are found, once each.\<close>

lemma well_formed_get_tasks:
  assumes "well_formed_config cfg" and "b \<in> set (cc_builds cfg)"
  shows "tc_name ` set (get_task_configs cfg b) = set (bc_tasks b)"
    and "distinct (map tc_name (get_task_configs cfg b))"
  using assms by (auto simp: well_formed_config_def get_task_configs_def defined_names_def
      distinct_map_filter)

section \<open>Properties\<close>

definition demo_task :: "string \<Rightarrow> string list \<Rightarrow> task_config" where
  "demo_task n ds = \<lparr>tc_name = n, tc_command = ''run'', tc_waits_for = Some ds\<rparr>"

definition demo_config :: "task_config list \<Rightarrow> ci_config" where
  "demo_config ts = \<lparr>cc_builds = [\<lparr>bc_trigger = PullRequest, bc_tasks = map tc_name ts\<rparr>], cc_tasks = ts\<rparr>"

abbreviation demo_chain :: ci_config where
  "demo_chain \<equiv> demo_config [demo_task ''a'' [], demo_task ''b'' [''a''], demo_task ''c'' [''a'', ''b'']]"

abbreviation demo_loop :: ci_config where
  "demo_loop \<equiv> demo_config [demo_task ''a'' [''c''], demo_task ''b'' [''a''], demo_task ''c'' [''b'']]"

text \<open>
  C6: the depth-first search of \<open>check_dag\<close> pushes no error exactly when the \<open>waits_for\<close>
  dependencies among the declared tasks have no cycle, whatever order the hash map yields its
  keys in.
\<close>

theorem check_dag_decides_acyclicity:
  assumes "set nodes = defined_names cfg"
  shows "check_dag nodes cfg = [] \<longleftrightarrow> (\<forall>n. \<not> (waits_on cfg)\<^sup>+\<^sup>+ n n)"
  using check_dag_iff [OF assms] by (simp add: acyclic_config_def)

theorem check_dag_decides_acyclicity_witness:
  "(\<forall>n. \<not> (waits_on demo_chain)\<^sup>+\<^sup>+ n n) \<and> \<not> (\<forall>n. \<not> (waits_on demo_loop)\<^sup>+\<^sup>+ n n)"
proof
  have "set [''c'', ''a'', ''b''] = defined_names demo_chain" by code_simp
  moreover have "check_dag [''c'', ''a'', ''b''] demo_chain = []" by code_simp
  ultimately show "\<forall>n. \<not> (waits_on demo_chain)\<^sup>+\<^sup>+ n n"
    using check_dag_decides_acyclicity by blast
  have "set [''c'', ''a'', ''b''] = defined_names demo_loop" by code_simp
  moreover have "check_dag [''c'', ''a'', ''b''] demo_loop \<noteq> []" by code_simp
  ultimately show "\<not> (\<forall>n. \<not> (waits_on demo_loop)\<^sup>+\<^sup>+ n n)"
    using check_dag_decides_acyclicity by blast
qed

text \<open>
  C33: the search never panics (the colour lookup of a root finds its key, and
  \<open>position(..).unwrap()\<close> finds a Gray neighbour on the path), and every message it pushes
  shows a path that follows declared dependencies back to its own first task.
\<close>

theorem check_dag_reports_are_cycles:
  assumes "set nodes \<subseteq> defined_names cfg"
  shows "\<not> panicked (check_dag_state nodes cfg) \<and>
    (\<forall>m \<in> set (check_dag nodes cfg).
       \<exists>cycle. cycle \<noteq> [] \<and> successively (waits_on cfg) (cycle @ [hd cycle]) \<and>
               m = cycle_message cycle (hd cycle))"
proof -
  have inv: "dfs_inv (build_adj cfg) (check_dag_state nodes cfg)"
    using check_dag_state_inv(1) [OF assms] .
  show ?thesis
  proof (intro conjI ballI)
    show "\<not> panicked (check_dag_state nodes cfg)" using inv by (simp add: dfs_inv_def)
    fix m assume "m \<in> set (check_dag nodes cfg)"
    with inv have "names_cycle (build_adj cfg) m" by (simp add: check_dag_def dfs_inv_def)
    then show "\<exists>cycle. cycle \<noteq> [] \<and> successively (waits_on cfg) (cycle @ [hd cycle]) \<and>
        m = cycle_message cycle (hd cycle)"
      by (auto simp: names_cycle_def edge_build_adj successively_append_iff)
  qed
qed

theorem check_dag_reports_are_cycles_witness:
  "\<exists>cycle. cycle \<noteq> [] \<and> successively (waits_on demo_loop) (cycle @ [hd cycle]) \<and>
     ''cyclical dependency detected: a -> b -> c -> a'' = cycle_message cycle (hd cycle)"
proof -
  have "set [''a'', ''b'', ''c''] \<subseteq> defined_names demo_loop" by code_simp
  moreover have "''cyclical dependency detected: a -> b -> c -> a'' \<in>
      set (check_dag [''a'', ''b'', ''c''] demo_loop)" by code_simp
  ultimately show ?thesis using check_dag_reports_are_cycles by blast
qed

text \<open>
  C17: \<open>validate_ci_config\<close> accepts exactly the well-formed configurations: builds and tasks
  present, names and triggers distinct, every build listing known tasks once, every task
  with a non-blank command, known dependencies and a build that runs it, and no cycle.
\<close>

theorem validate_accepts_exactly_well_formed:
  assumes "set nodes = defined_names cfg"
  shows "(validate_ci_config nodes cfg = Inr () \<longleftrightarrow> well_formed_config cfg) \<and>
    (\<not> well_formed_config cfg \<longrightarrow>
       (\<exists>es. es \<noteq> [] \<and> validate_ci_config nodes cfg = Inl (CfgValidation es)))"
  using validate_iff [OF assms] by (auto simp: validate_ci_config_def Let_def split: if_splits)

theorem validate_accepts_exactly_well_formed_witness:
  "well_formed_config demo_chain \<and> \<not> well_formed_config demo_loop"
proof
  have "set [''c'', ''a'', ''b''] = defined_names demo_chain" by code_simp
  moreover have "validate_ci_config [''c'', ''a'', ''b''] demo_chain = Inr ()" by code_simp
  ultimately show "well_formed_config demo_chain"
    using validate_accepts_exactly_well_formed by blast
  have "set [''c'', ''a'', ''b''] = defined_names demo_loop" by code_simp
  moreover have "validate_ci_config [''c'', ''a'', ''b''] demo_loop \<noteq> Inr ()" by code_simp
  ultimately show "\<not> well_formed_config demo_loop"
    using validate_accepts_exactly_well_formed by blast
qed

end
