(* ===== verification/CiSafety.thy ===== *)
theory CiSafety
  imports CiService CiValidate
begin

text \<open>
  What the CI services guarantee together: dependencies are honoured, a running build is never
  stuck, and the two ways of computing a build's status agree.

  The state machine \<open>ci_step\<close> has three steps: a build is created with all its tasks, a runner
  claims, and a runner reports the outcome of a task it holds. The invariant \<open>ci_inv\<close> is
  proved by one lemma per step.
\<close>

section \<open>The invariant\<close>

definition undone :: "task list \<Rightarrow> uuid set" where
  "undone ts = tk_id ` {t \<in> set ts. tk_status t \<noteq> Success}"

lemma deps_done_iff: "deps_done ts t \<longleftrightarrow> set (tk_waits_for t) \<inter> undone ts = {}"
  by (auto simp: deps_done_def undone_def list_ex_iff)

definition honours_deps :: "task list \<Rightarrow> bool" where
  "honours_deps ts \<longleftrightarrow> (\<forall>t \<in> set ts. tk_status t \<noteq> Blocked \<longrightarrow> deps_done ts t)"

definition blocked_waits :: "task list \<Rightarrow> bool" where
  "blocked_waits ts \<longleftrightarrow> (\<forall>t \<in> set ts. tk_status t = Blocked \<longrightarrow> \<not> deps_done ts t)"

definition deps_closed :: "task list \<Rightarrow> bool" where
  "deps_closed ts \<longleftrightarrow>
     (\<forall>t \<in> set ts. \<forall>d \<in> set (tk_waits_for t). \<exists>t2 \<in> set ts. tk_id t2 = d \<and> tk_build_id t2 = tk_build_id t)"

definition ranked :: "(uuid \<Rightarrow> nat) \<Rightarrow> task list \<Rightarrow> bool" where
  "ranked rank ts \<longleftrightarrow> (\<forall>t \<in> set ts. \<forall>d \<in> set (tk_waits_for t). rank d < rank (tk_id t))"

text \<open>The column holds only labels that the enumeration has.\<close>

definition known_labels :: "ci_db \<Rightarrow> bool" where
  "known_labels ci \<longleftrightarrow> (\<forall>t \<in> set (ci_tasks ci). known_status (ci_schema_of ci) (tk_status t))"

definition ci_inv :: "ci_db \<Rightarrow> bool" where
  "ci_inv ci \<longleftrightarrow> tasks_ok (ci_tasks ci) \<and> honours_deps (ci_tasks ci) \<and> blocked_waits (ci_tasks ci)
     \<and> deps_closed (ci_tasks ci) \<and> (\<exists>rank. ranked rank (ci_tasks ci)) \<and> known_labels ci"

text \<open>Statements that only change statuses keep the shape of the dependencies.\<close>

definition shape :: "task \<Rightarrow> uuid \<times> uuid \<times> uuid list" where
  "shape t = (tk_id t, tk_build_id t, tk_waits_for t)"

lemma shape_simps [simp]: "shape (set_status s now t) = shape t" "shape (assign r now t) = shape t"
  by (simp_all add: shape_def)

definition shape_inv :: "(uuid \<times> uuid \<times> uuid list) list \<Rightarrow> bool" where
  "shape_inv xs \<longleftrightarrow> distinct (map fst xs)
     \<and> (\<forall>(i, b, ds) \<in> set xs. \<forall>d \<in> set ds. \<exists>ds'. (d, b, ds') \<in> set xs)
     \<and> (\<exists>rank. \<forall>(i, b, ds) \<in> set xs. \<forall>d \<in> set ds. (rank d :: nat) < rank i)"

lemma shape_inv_iff:
  "tasks_ok ts \<and> deps_closed ts \<and> (\<exists>rank. ranked rank ts) \<longleftrightarrow> shape_inv (map shape ts)"
proof -
  have a: "map fst (map shape ts) = map tk_id ts" by (simp add: shape_def)
  have b: "deps_closed ts \<longleftrightarrow> (\<forall>(i, b, ds) \<in> set (map shape ts). \<forall>d \<in> set ds. \<exists>ds'. (d, b, ds') \<in> set (map shape ts))"
    by (fastforce simp: deps_closed_def shape_def)
  have c: "ranked rank ts \<longleftrightarrow> (\<forall>(i, b, ds) \<in> set (map shape ts). \<forall>d \<in> set ds. rank d < rank i)" for rank
    by (auto simp: ranked_def shape_def)
  show ?thesis by (simp only: shape_inv_def tasks_ok_def a b c)
qed

lemma ci_inv_alt:
  "ci_inv ci \<longleftrightarrow> shape_inv (map shape (ci_tasks ci)) \<and> honours_deps (ci_tasks ci) \<and> blocked_waits (ci_tasks ci)
    \<and> known_labels ci"
  by (auto simp: ci_inv_def shape_inv_iff [symmetric])

lemma undone_update:
  assumes "\<And>t. t \<in> set ts \<Longrightarrow> p t \<Longrightarrow> tk_status t \<noteq> Success \<and> tk_status (f t) \<noteq> Success"
    and "\<And>t. tk_id (f t) = tk_id t"
  shows "undone (update_where p f ts) = undone ts"
  using assms by (induction ts) (auto simp: undone_def Collect_disj_eq conj_disj_distribR image_Un)

lemma same_id:
  assumes "tasks_ok ts" "t \<in> set ts" "t' \<in> set ts" "tk_id t = tk_id t'"
  shows "t = t'"
  using assms by (auto simp: tasks_ok_def distinct_map inj_on_def)

lemma undone_iff:
  assumes "tasks_ok ts" "t \<in> set ts"
  shows "tk_id t \<in> undone ts \<longleftrightarrow> tk_status t \<noteq> Success"
  using assms same_id by (auto simp: undone_def)

section \<open>Claiming and reporting keep it\<close>

lemma claim_keeps:
  assumes inv: "ci_inv ci"
  shows "ci_inv (snd (claim_task locked now runner ids ci))"
proof (cases "\<exists>t. fst (claim_task locked now runner ids ci) = Inr (Some t)")
  case True
  then obtain t where t: "fst (claim_task locked now runner ids ci) = Inr (Some t)" by blast
  from claim_task_Some [OF t] obtain t0 where t0: "t0 \<in> set (ci_tasks ci)" "claimable locked ids t0"
      "t = assign runner now t0" by blast
  let ?p = "\<lambda>x. tk_id x = tk_id t0" and ?f = "assign runner now"
  have ts: "ci_tasks (snd (claim_task locked now runner ids ci)) = update_where ?p ?f (ci_tasks ci)"
    using t t0(3) by (simp add: status_after)
  have pending: "tk_status x = Pending" if "x \<in> set (ci_tasks ci)" "tk_id x = tk_id t0" for x
    using that t0 inv same_id by (metis ci_inv_def claimable_def)
  have "undone (update_where ?p ?f (ci_tasks ci)) = undone (ci_tasks ci)"
    by (rule undone_update) (auto simp: pending)
  moreover have "map shape (update_where ?p ?f (ci_tasks ci)) = map shape (ci_tasks ci)"
    by (rule map_key_update_where) simp
  moreover have "\<exists>y \<in> set (ci_tasks ci). tk_waits_for x = tk_waits_for y \<and>
      (tk_status x = Blocked \<longleftrightarrow> tk_status y = Blocked)" if "x \<in> set (update_where ?p ?f (ci_tasks ci))" for x
    using that pending by (fastforce simp: set_update_where)
  moreover have "known_labels (snd (claim_task locked now runner ids ci))"
    using inv by (auto simp: known_labels_def ts set_update_where ci_inv_def)
  ultimately show ?thesis
    using inv unfolding ci_inv_alt ts honours_deps_def blocked_waits_def deps_done_iff by metis
next
  case False
  then have "ci_tasks (snd (claim_task locked now runner ids ci)) = ci_tasks ci"
    by (auto simp: status_after split: sum.splits option.splits)
  with inv show ?thesis by (simp add: ci_inv_def known_labels_def)
qed

text \<open>A runner reports on a task that it was assigned and that has not ended.\<close>

definition in_progress :: "task \<Rightarrow> bool" where
  "in_progress t \<longleftrightarrow> tk_status t = Assigned \<or> tk_status t = Running"

lemma report_tasks:
  assumes "t0 \<in> set (ci_tasks ci)" "tasks_ok (ci_tasks ci)" "s \<noteq> Blocked"
  shows "ci_tasks (snd (update_task now \<lparr>ut_id = tk_id t0, ut_status = s\<rparr> ci)) =
    (let ts = update_where (\<lambda>x. tk_id x = tk_id t0) (set_status s now) (ci_tasks ci)
     in if s = Success \<and> sc_blocked (ci_schema_of ci)
        then update_where (unblockable (tk_build_id t0) ts) (set_status Pending now) ts else ts)"
proof -
  let ?ts = "update_where (\<lambda>x. tk_id x = tk_id t0) (set_status s now) (ci_tasks ci)"
  have "distinct (map tk_id ?ts)" using assms(2) by (simp add: tasks_ok_def table_simps)
  moreover have "set_status s now t0 \<in> set ?ts" using assms(1) by (auto simp: set_update_where)
  ultimately have found: "find (\<lambda>x. tk_id x = tk_id t0) ?ts = Some (set_status s now t0)"
    using find_key_unique [of tk_id ?ts "set_status s now t0"] by simp
  then show ?thesis
    using assms(3) by (simp add: update_task_def repo_update_task_def Let_def unblock_tasks_def)
qed

lemma report_schema [simp]: "ci_schema_of (snd (update_task now req ci)) = ci_schema_of ci"
proof -
  obtain res ci1 where run: "repo_update_task now (ut_id req) (ut_status req) ci = (res, ci1)" by fastforce
  then have "ci_schema_of ci1 = ci_schema_of ci" by (metis schema_kept(1) snd_conv)
  moreover have "ci_schema_of ci2 = ci_schema_of ci1" if "unblock_tasks now k ci1 = (r2, ci2)" for k r2 ci2
    using that schema_kept(2) by (metis snd_conv)
  ultimately show ?thesis
    by (auto simp: update_task_def run split: sum.splits prod.splits if_splits)
qed

lemma report_keeps:
  assumes inv: "ci_inv ci" and t0: "t0 \<in> set (ci_tasks ci)" "in_progress t0"
    and s: "s \<in> {Running, Success, Failure}"
  shows "ci_inv (snd (update_task now \<lparr>ut_id = tk_id t0, ut_status = s\<rparr> ci))"
proof -
  let ?ts = "ci_tasks ci"
  let ?p = "\<lambda>x. tk_id x = tk_id t0" and ?f = "set_status s now"
  let ?ts1 = "update_where ?p ?f ?ts"
  have ok: "tasks_ok ?ts" and hon: "honours_deps ?ts" and blk: "blocked_waits ?ts"
    and closed: "deps_closed ?ts" and known: "known_labels ci"
    using inv by (auto simp: ci_inv_def)
  have sb: "s \<noteq> Blocked" using s by auto
  have is_t0: "x = t0" if "x \<in> set ?ts" "?p x" for x
    using same_id [OF ok that(1) t0(1) that(2)] .
  have mem1: "x \<in> set ?ts1 \<longleftrightarrow> x = ?f t0 \<or> x \<in> set ?ts \<and> x \<noteq> t0" for x
  proof -
    have "x \<in> set ?ts1 \<longleftrightarrow> (\<exists>r \<in> set ?ts. x = (if ?p r then ?f r else r))"
      unfolding set_update_where image_iff ..
    also have "\<dots> \<longleftrightarrow> (\<exists>r \<in> set ?ts. x = (if r = t0 then ?f t0 else r))"
      by (intro bex_cong refl) (metis is_t0)
    also have "\<dots> \<longleftrightarrow> x = ?f t0 \<or> x \<in> set ?ts \<and> x \<noteq> t0" using t0(1) by (auto split: if_splits)
    finally show ?thesis .
  qed
  have t0_undone: "tk_id t0 \<in> undone ?ts"
    using undone_iff [OF ok t0(1)] t0(2) by (auto simp: in_progress_def)
  have shape1: "map shape ?ts1 = map shape ?ts" by (rule map_key_update_where) simp
  have un: "undone ?ts1 = (if s = Success then undone ?ts - {tk_id t0} else undone ?ts)"
  proof (cases "s = Success")
    case True
    have "tk_status (?f t0) = Success" using True by simp
    then have "{x. x \<in> set ?ts1 \<and> tk_status x \<noteq> Success} = {x \<in> set ?ts. x \<noteq> t0 \<and> tk_status x \<noteq> Success}"
      unfolding mem1 by auto (metis set_status_simps(2))
    then have "undone ?ts1 = tk_id ` {x \<in> set ?ts. x \<noteq> t0 \<and> tk_status x \<noteq> Success}"
      by (simp only: undone_def)
    also have "\<dots> = undone ?ts - {tk_id t0}" using is_t0 by (auto simp: undone_def)
    finally show ?thesis using True by simp
  next
    case False
    then have "undone ?ts1 = undone ?ts"
      using t0(2) by (intro undone_update) (auto simp: in_progress_def dest!: is_t0)
    with False show ?thesis by simp
  qed
  have hon1: "set (tk_waits_for x) \<inter> undone ?ts1 = {}" if "x \<in> set ?ts1" "tk_status x \<noteq> Blocked" for x
  proof -
    have "\<exists>y \<in> set ?ts. tk_status y \<noteq> Blocked \<and> tk_waits_for x = tk_waits_for y"
    proof (cases "x = ?f t0")
      case True
      with t0 show ?thesis by (intro bexI [of _ t0]) (auto simp: in_progress_def)
    next
      case False
      with that show ?thesis unfolding mem1 by (intro bexI [of _ x]) auto
    qed
    then have "set (tk_waits_for x) \<inter> undone ?ts = {}"
      using hon unfolding honours_deps_def deps_done_iff by metis
    then show ?thesis unfolding un by (auto split: if_splits)
  qed
  have blk1: "tk_id t0 \<in> set (tk_waits_for x) \<and> s = Success"
    if "x \<in> set ?ts1" "tk_status x = Blocked" "set (tk_waits_for x) \<inter> undone ?ts1 = {}" for x
  proof -
    have "x \<in> set ?ts" using that s unfolding mem1 by auto
    then have "set (tk_waits_for x) \<inter> undone ?ts \<noteq> {}"
      using blk that(2) by (auto simp: blocked_waits_def deps_done_iff)
    with that(3) show ?thesis unfolding un by (auto split: if_splits)
  qed
  let ?ci' = "snd (update_task now \<lparr>ut_id = tk_id t0, ut_status = s\<rparr> ci)"
  have known1: "known_status (ci_schema_of ci) (tk_status x)" if "x \<in> set ?ts1" for x
    using that known sb unfolding mem1 by (auto simp: known_labels_def)
  show ?thesis
  proof (cases "s = Success \<and> sc_blocked (ci_schema_of ci)")
    case False
    then have ts1: "ci_tasks ?ci' = ?ts1"
      by (auto simp: report_tasks [OF t0(1) ok sb] Let_def)
    have "set (tk_waits_for x) \<inter> undone ?ts1 \<noteq> {}" if "x \<in> set ?ts1" "tk_status x = Blocked" for x
      using blk1 [OF that] known1 [OF that(1)] that(2) False by auto
    then show ?thesis
      using inv hon1 known1 unfolding ci_inv_alt honours_deps_def blocked_waits_def deps_done_iff
      by (simp add: shape1 ts1 known_labels_def)
  next
    case True
    let ?hit = "unblockable (tk_build_id t0) ?ts1"
    let ?ts2 = "update_where ?hit (set_status Pending now) ?ts1"
    have ts2: "ci_tasks (snd (update_task now \<lparr>ut_id = tk_id t0, ut_status = s\<rparr> ci)) = ?ts2"
      using report_tasks [OF t0(1) ok sb, of now] True by (simp add: Let_def)
    have shape2: "map shape ?ts2 = map shape ?ts"
      using map_key_update_where [of shape "set_status Pending now" ?hit ?ts1] shape1 by simp
    have un2: "undone ?ts2 = undone ?ts1" by (rule undone_update) (auto simp: unblockable_def)
    have same_build: "tk_build_id x = tk_build_id t0" if "x \<in> set ?ts" "tk_id t0 \<in> set (tk_waits_for x)" for x
      using that closed is_t0 by (fastforce simp: deps_closed_def)
    have "honours_deps ?ts2"
      unfolding honours_deps_def deps_done_iff un2
      using hon1 by (auto simp: set_update_where unblockable_def deps_done_iff)
    moreover have "\<not> deps_done ?ts2 x" if "x \<in> set ?ts2" "tk_status x = Blocked" for x
    proof
      assume fin: "deps_done ?ts2 x"
      from that have x: "x \<in> set ?ts1" "\<not> ?hit x" by (auto simp: set_update_where split: if_splits)
      have "set (tk_waits_for x) \<inter> undone ?ts1 = {}" using fin by (simp add: deps_done_iff un2)
      with blk1 [OF x(1) that(2)] have dep: "tk_id t0 \<in> set (tk_waits_for x)" by blast
      have "x \<in> set ?ts" using x(1) that(2) True unfolding mem1 by auto
      from this dep have "tk_build_id x = tk_build_id t0" by (rule same_build)
      with x(2) that(2) \<open>set (tk_waits_for x) \<inter> undone ?ts1 = {}\<close> show False
        by (simp add: unblockable_def deps_done_iff)
    qed
    moreover have "known_labels ?ci'"
      using known1 by (auto simp: known_labels_def ts2 set_update_where)
    ultimately show ?thesis
      using inv unfolding ci_inv_alt ts2 shape2 blocked_waits_def by blast
  qed
qed

section \<open>A created build keeps it\<close>

definition row_matches :: "uuid \<Rightarrow> uuid \<Rightarrow> planned_task \<Rightarrow> task \<Rightarrow> bool" where
  "row_matches repository_id build_id p t \<longleftrightarrow>
     tk_id t = pt_id p \<and> tk_repository_id t = repository_id \<and> tk_build_id t = build_id \<and>
     tk_name t = pt_name p \<and> tk_command t = pt_command p \<and> tk_status t = pt_status p \<and>
     tk_waits_for t = pt_waits_for p \<and> tk_runner_id t = None"

lemma task_create_Inr:
  assumes "task_create now i rid name cmd bid uri st ws ci = (Inr t, ci')"
  shows "ci' = ci\<lparr>ci_tasks := ci_tasks ci @ [t]\<rparr>" "tasks_ok (ci_tasks ci')"
    and "tk_id t = i" "tk_repository_id t = rid" "tk_build_id t = bid" "tk_name t = name" "tk_command t = cmd"
    and "tk_status t = st" "tk_waits_for t = ws" "tk_runner_id t = None" "known_status (ci_schema_of ci) st"
  using assms by (auto simp: task_create_def Let_def checked_def split: if_splits)

lemma insert_planned_Inr:
  assumes "insert_planned cs clock rid bid ps ci = (Inr (), ci')" and "tasks_ok (ci_tasks ci)"
  shows "\<exists>rows. ci' = ci\<lparr>ci_tasks := ci_tasks ci @ rows\<rparr> \<and> list_all2 (row_matches rid bid) ps rows \<and>
    tasks_ok (ci_tasks ci') \<and> (\<forall>t \<in> set rows. known_status (ci_schema_of ci) (tk_status t))"
  using assms
proof (induction cs clock rid bid ps ci rule: insert_planned.induct)
  case (2 cs clock rid bid p ps ci)
  obtain uri where uri: "cs (pt_id p) = Inr uri"
    using 2(2) by (cases "cs (pt_id p)") auto
  obtain t ci1 where mk: "task_create (clock (pt_id p)) (pt_id p) rid (pt_name p) (pt_command p) bid uri
      (pt_status p) (pt_waits_for p) ci = (Inr t, ci1)"
    using 2(2) uri by (auto split: prod.splits sum.splits)
  then have "insert_planned cs clock rid bid ps ci1 = (Inr (), ci')" using 2(2) uri by simp
  from 2(1) [OF uri mk [symmetric] refl this task_create_Inr(2) [OF mk]] obtain rows where
    "ci' = ci1\<lparr>ci_tasks := ci_tasks ci1 @ rows\<rparr>" "list_all2 (row_matches rid bid) ps rows" "tasks_ok (ci_tasks ci')"
    "\<forall>t \<in> set rows. known_status (ci_schema_of ci1) (tk_status t)"
    by blast
  then show ?case
    using task_create_Inr [OF mk]
    by (intro exI [of _ "t # rows"]) (simp add: row_matches_def [of rid bid p])
qed simp

lemma finite_acyclic_rank:
  assumes "finite {(a, b). E a b}" and "\<And>n. \<not> E\<^sup>+\<^sup>+ n n" and "E a b"
  shows "card {m. E\<^sup>+\<^sup>+ m a} < card {m. E\<^sup>+\<^sup>+ m b}"
proof (rule psubset_card_mono)
  have "{m. E\<^sup>+\<^sup>+ m b} \<subseteq> fst ` {(a, b). E a b}"
    by (force dest: tranclpD)
  then show "finite {m. E\<^sup>+\<^sup>+ m b}" using assms(1) finite_subset by blast
  show "{m. E\<^sup>+\<^sup>+ m a} \<subset> {m. E\<^sup>+\<^sup>+ m b}"
    using assms(2,3) by (auto intro: tranclp.trancl_into_trancl)
qed

lemma waits_on_rank:
  assumes "acyclic_config cfg"
  obtains rank :: "string \<Rightarrow> nat" where "\<And>d n. waits_on cfg d n \<Longrightarrow> rank d < rank n"
proof -
  have "{(a, b). waits_on cfg a b} \<subseteq> defined_names cfg \<times> defined_names cfg"
    by (auto simp: waits_on_def defined_names_def)
  then have "finite {(a, b). waits_on cfg a b}"
    by (rule finite_subset) (simp add: defined_names_def)
  then have "card {m. (waits_on cfg)\<^sup>+\<^sup>+ m d} < card {m. (waits_on cfg)\<^sup>+\<^sup>+ m n}" if "waits_on cfg d n" for d n
    using assms that by (intro finite_acyclic_rank) (auto simp: acyclic_config_def)
  then show ?thesis by (rule that)
qed

text \<open>What the plan of an accepted configuration looks like.\<close>

lemma map_of_zip_inj:
  assumes "length xs = length ys" "distinct xs" "distinct ys"
  shows "inj_on (map_of (zip xs ys)) (set xs)"
proof (rule inj_onI)
  fix a b assume ab: "a \<in> set xs" "b \<in> set xs" "map_of (zip xs ys) a = map_of (zip xs ys) b"
  then obtain i j where "i < length xs" "a = xs ! i" "j < length xs" "b = xs ! j" by (metis in_set_conv_nth)
  with ab(3) assms show "a = b" by (simp add: map_of_zip_nth nth_eq_iff_index_eq)
qed

lemma assign_ids_facts:
  assumes "distinct (map tc_name configs)" "length ids = length configs" "distinct ids"
  shows "dom (assign_ids configs ids) = tc_name ` set configs"
    and "inj_on (assign_ids configs ids) (tc_name ` set configs)"
proof -
  let ?xs = "rev (map tc_name configs)" and ?ys = "rev ids"
  have eq: "assign_ids configs ids = map_of (zip ?xs ?ys)"
    using assms(2) by (simp add: assign_ids_def zip_rev)
  show "dom (assign_ids configs ids) = tc_name ` set configs"
    unfolding eq using assms(2) by (subst dom_map_of_zip) simp_all
  show "inj_on (assign_ids configs ids) (tc_name ` set configs)"
    unfolding eq using map_of_zip_inj [of ?xs ?ys] assms by simp
qed

lemma plan_facts:
  assumes wf: "well_formed_config cfg" and b: "bc \<in> set (cc_builds cfg)"
    and ids: "inj (be_task_id env)"
  obtains rank :: "uuid \<Rightarrow> nat" where
    "distinct (map pt_id (planned_tasks env cfg bc))"
    "\<forall>p \<in> set (planned_tasks env cfg bc).
       set (pt_waits_for p) \<subseteq> pt_id ` set (planned_tasks env cfg bc) \<and>
       (pt_status p = Pending \<and> pt_waits_for p = [] \<or> pt_status p = Blocked \<and> pt_waits_for p \<noteq> []) \<and>
       (\<forall>d \<in> set (pt_waits_for p). rank d < rank (pt_id p))"
proof -
  let ?configs = "get_task_configs cfg bc"
  let ?ids = "map (be_task_id env) [0..<length ?configs]"
  let ?f = "assign_ids ?configs ?ids"
  have names: "distinct (map tc_name ?configs)" using well_formed_get_tasks(2) [OF wf b] .
  have "length ?ids = length ?configs" "distinct ?ids"
    using ids by (auto simp: distinct_map inj_on_def inj_def)
  note f = assign_ids_facts [OF names this]
  define g where "g = the \<circ> ?f"
  have fg: "?f n = Some (g n)" if "n \<in> tc_name ` set ?configs" for n
  proof -
    have "n \<in> dom ?f" using that f(1) by simp
    then show ?thesis by (auto simp: g_def)
  qed
  have inj: "inj_on g (tc_name ` set ?configs)"
    using f(2) fg by (auto simp: inj_on_def)
  have plan: "planned_tasks env cfg bc = map (plan_task ?f) ?configs"
    by (simp add: planned_tasks_def Let_def)
  have ids_eq: "map pt_id (planned_tasks env cfg bc) = map g (map tc_name ?configs)"
    by (simp add: plan plan_task_def Let_def g_def)
  then have "distinct (map pt_id (planned_tasks env cfg bc))"
    using names inj by (simp only: ids_eq distinct_map) simp
  moreover obtain nrank :: "string \<Rightarrow> nat" where nrank: "\<And>d n. waits_on cfg d n \<Longrightarrow> nrank d < nrank n"
    using wf waits_on_rank by (metis well_formed_config_def)
  define rank where "rank i = nrank (inv_into (tc_name ` set ?configs) g i)" for i
  have rank_g: "rank (g n) = nrank n" if "n \<in> tc_name ` set ?configs" for n
    using that inj by (simp add: rank_def)
  have pt: "set (pt_waits_for p) \<subseteq> pt_id ` set (planned_tasks env cfg bc) \<and>
       (pt_status p = Pending \<and> pt_waits_for p = [] \<or> pt_status p = Blocked \<and> pt_waits_for p \<noteq> []) \<and>
       (\<forall>d \<in> set (pt_waits_for p). rank d < rank (pt_id p))"
    if p: "p \<in> set (planned_tasks env cfg bc)" for p
  proof -
    obtain c where c: "c \<in> set ?configs" "p = plan_task ?f c" using p by (auto simp: plan)
    have "?f dep \<noteq> None \<longleftrightarrow> dep \<in> tc_name ` set ?configs" for dep
      using f(1) by (simp add: domIff flip: f(1))
    then have waits: "set (pt_waits_for p) = {g dep | dep. dep \<in> set (deps_of c) \<and> dep \<in> tc_name ` set ?configs}"
      by (auto simp: c(2) plan_task_def Let_def map_filter_def g_def)
    have "g dep \<in> pt_id ` set (planned_tasks env cfg bc)" if "dep \<in> tc_name ` set ?configs" for dep
      using that ids_eq by (metis image_eqI image_set)
    moreover have "rank (g dep) < rank (pt_id p)" if "dep \<in> set (deps_of c)" "dep \<in> tc_name ` set ?configs" for dep
    proof -
      have "waits_on cfg dep (tc_name c)"
        using that c(1) by (auto simp: waits_on_def get_task_configs_def defined_names_def)
      moreover have "pt_id p = g (tc_name c)" by (simp add: c(2) plan_task_def Let_def g_def)
      ultimately show ?thesis using nrank rank_g that(2) c(1) by simp
    qed
    moreover have "pt_status p = Pending \<and> pt_waits_for p = [] \<or> pt_status p = Blocked \<and> pt_waits_for p \<noteq> []"
      by (simp add: c(2) plan_task_def Let_def)
    ultimately show ?thesis unfolding waits by blast
  qed
  show ?thesis by (rule that [OF \<open>distinct (map pt_id _)\<close> ballI [OF pt]])
qed

text \<open>The environment: an enumeration of the map's keys, an order of the futures, new identifiers.\<close>

definition env_ok :: "build_env \<Rightarrow> bool" where
  "env_ok env \<longleftrightarrow> (\<forall>cfg. set (be_nodes env cfg) = defined_names cfg)
     \<and> (\<forall>ps. mset (be_order env ps) = mset ps) \<and> inj (be_task_id env)"

lemma resolve_build_Inr:
  assumes "resolve_build env owner repo ref_name sha core = Inr (repository, resolved, cfg, trigger, bc)"
    and "env_ok env"
  shows "repo_get owner repo None core = Inr (Some repository)" "well_formed_config cfg"
    "bc \<in> set (cc_builds cfg)" "trigger = ci_trigger_of ref_name" "bc_trigger bc = trigger"
proof -
  obtain content where get: "repo_get owner repo None core = Inr (Some repository)"
    and new: "ci_config_new (be_toml env) (be_nodes env) content = Inr cfg"
    and bc: "get_build_config cfg (ci_trigger_of ref_name) = Inr bc" and tr: "trigger = ci_trigger_of ref_name"
    using assms(1) by (auto simp: resolve_build_def)
  from get show "repo_get owner repo None core = Inr (Some repository)" .
  from tr show "trigger = ci_trigger_of ref_name" .
  have "validate_ci_config (be_nodes env cfg) cfg = Inr ()"
    using new by (auto simp: ci_config_new_def split: sum.splits)
  then show "well_formed_config cfg"
    using assms(2) validate_iff by (simp add: env_ok_def)
  show "bc \<in> set (cc_builds cfg)" "bc_trigger bc = trigger"
    using bc tr by (auto simp: get_build_config_def split: option.splits dest!: find_SomeD)
qed

lemma build_create_Inr:
  assumes "build_create k now rid tr sha ref ci = (Inr b, ci')"
  shows "ci' = ci\<lparr>ci_builds := ci_builds ci @ [b]\<rparr>" "bd_repository_id b = rid" "bd_id b = k"
    "bd_number b = next_number rid (ci_builds ci)" "bd_trigger b = tr" "builds_ok (ci_builds ci')"
    "\<not> sc_build_config (ci_schema_of ci)"
  using assms by (auto simp: build_create_def Let_def checked_def split: if_splits)

lemma create_build_Inr:
  assumes run: "create_build env owner repo ref_name sha core ci = (Inr resp, ci')"
    and ok: "tasks_ok (ci_tasks ci)"
  obtains repository resolved cfg bc b rows where
    "resolve_build env owner repo ref_name sha core = Inr (repository, resolved, cfg, ci_trigger_of ref_name, bc)"
    "ci' = ci\<lparr>ci_builds := ci_builds ci @ [b], ci_tasks := ci_tasks ci @ rows\<rparr>" "tasks_ok (ci_tasks ci')"
    "\<forall>t \<in> set rows. known_status (ci_schema_of ci) (tk_status t)" "\<not> sc_build_config (ci_schema_of ci)"
    "list_all2 (row_matches (rp_id repository) (bd_id b)) (be_order env (planned_tasks env cfg bc)) rows"
    "br_id resp = bd_id b" "bd_number b = next_number (rp_id repository) (ci_builds ci)"
    "bd_trigger b = ci_trigger_of ref_name" "br_total_tasks resp = int (length (planned_tasks env cfg bc))"
    "bd_repository_id b = rp_id repository"
proof -
  obtain repository resolved cfg trigger bc where
    res: "resolve_build env owner repo ref_name sha core = Inr (repository, resolved, cfg, trigger, bc)"
    using run by (auto simp: create_build_def split: sum.splits)
  then have tr: "trigger = ci_trigger_of ref_name"
    by (auto simp: resolve_build_def)
  obtain b ci1 where bc1: "build_create (be_build_id env) (be_now env) (rp_id repository) trigger resolved ref_name ci = (Inr b, ci1)"
    using run res by (auto simp: create_build_def split: prod.splits sum.splits)
  have ins: "insert_planned (be_stream env owner repo) (be_clock env) (rp_id repository) (bd_id b)
      (be_order env (planned_tasks env cfg bc)) ci1 = (Inr (), ci')"
    and resp: "br_id resp = bd_id b" "br_total_tasks resp = int (length (planned_tasks env cfg bc))"
    using run res bc1 by (auto simp: create_build_def planned_tasks_def Let_def split: prod.splits sum.splits)
  note b = build_create_Inr [OF bc1]
  have "tasks_ok (ci_tasks ci1)" using ok b(1) by simp
  from insert_planned_Inr [OF ins this] obtain rows where
    "ci' = ci1\<lparr>ci_tasks := ci_tasks ci1 @ rows\<rparr>"
    "list_all2 (row_matches (rp_id repository) (bd_id b)) (be_order env (planned_tasks env cfg bc)) rows"
    "tasks_ok (ci_tasks ci')" "\<forall>t \<in> set rows. known_status (ci_schema_of ci1) (tk_status t)" by blast
  then show ?thesis using that [of repository resolved cfg bc rows b] res tr b resp by simp
qed

lemma shape_inv_append:
  assumes "shape_inv xs" "shape_inv ys" "distinct (map fst (xs @ ys))"
  shows "shape_inv (xs @ ys)"
proof -
  obtain r1 where r1: "\<forall>(i, b, ds) \<in> set xs. \<forall>d \<in> set ds. (r1 d :: nat) < r1 i"
    using assms(1) by (auto simp: shape_inv_def)
  obtain r2 where r2: "\<forall>(i, b, ds) \<in> set ys. \<forall>d \<in> set ds. (r2 d :: nat) < r2 i"
    using assms(2) by (auto simp: shape_inv_def)
  have closed: "\<forall>(i, b, ds) \<in> set zs. \<forall>d \<in> set ds. \<exists>ds'. (d, b, ds') \<in> set zs" if "zs = xs \<or> zs = ys" for zs
    using assms(1,2) that by (auto simp: shape_inv_def)
  define r where "r i = (if i \<in> fst ` set xs then r1 i else r2 i)" for i
  have "\<forall>(i, b, ds) \<in> set (xs @ ys). \<forall>d \<in> set ds. r d < r i"
  proof (clarify, goal_cases)
    case (1 i b ds d)
    show ?case
    proof (cases "(i, b, ds) \<in> set xs")
      case True
      with closed 1(2) have "d \<in> fst ` set xs" by force
      with True r1 1(2) show ?thesis by (force simp: r_def)
    next
      case False
      with 1 have y: "(i, b, ds) \<in> set ys" by simp
      with closed 1(2) have "d \<in> fst ` set ys" by force
      with y assms(3) have "d \<notin> fst ` set xs" "i \<notin> fst ` set xs" by (auto simp: image_iff) force+
      with y r2 1(2) show ?thesis by (force simp: r_def)
    qed
  qed
  moreover have "\<forall>(i, b, ds) \<in> set (xs @ ys). \<forall>d \<in> set ds. \<exists>ds'. (d, b, ds') \<in> set (xs @ ys)"
    using closed [of xs] closed [of ys] by fastforce
  ultimately show ?thesis using assms(3) unfolding shape_inv_def by blast
qed

lemma create_keeps:
  assumes inv: "ci_inv ci" and env: "env_ok env"
    and run: "create_build env owner repo ref_name sha core ci = (Inr resp, ci')"
  shows "ci_inv ci'"
proof -
  have ok: "tasks_ok (ci_tasks ci)" using inv by (simp add: ci_inv_def)
  obtain repository resolved cfg bc b rows where
    res: "resolve_build env owner repo ref_name sha core = Inr (repository, resolved, cfg, ci_trigger_of ref_name, bc)"
    and ci': "ci' = ci\<lparr>ci_builds := ci_builds ci @ [b], ci_tasks := ci_tasks ci @ rows\<rparr>" "tasks_ok (ci_tasks ci')"
    and labels: "\<forall>t \<in> set rows. known_status (ci_schema_of ci) (tk_status t)"
    and rows: "list_all2 (row_matches (rp_id repository) (bd_id b)) (be_order env (planned_tasks env cfg bc)) rows"
    by (rule create_build_Inr [OF run ok])
  note r = resolve_build_Inr [OF res env]
  let ?plan = "planned_tasks env cfg bc"
  have "inj (be_task_id env)" using env by (simp add: env_ok_def)
  then obtain rank :: "uuid \<Rightarrow> nat" where "distinct (map pt_id ?plan)" and
    plan: "\<forall>p \<in> set ?plan. set (pt_waits_for p) \<subseteq> pt_id ` set ?plan \<and>
       (pt_status p = Pending \<and> pt_waits_for p = [] \<or> pt_status p = Blocked \<and> pt_waits_for p \<noteq> []) \<and>
       (\<forall>d \<in> set (pt_waits_for p). rank d < rank (pt_id p))"
    by (rule plan_facts [OF r(2,3)])
  have order: "set (be_order env ?plan) = set ?plan"
    using env by (intro mset_eq_setD) (simp add: env_ok_def)
  have row: "\<exists>p \<in> set ?plan. row_matches (rp_id repository) (bd_id b) p t" if "t \<in> set rows" for t
    using list_all2_members(2) [OF rows that] by (simp only: order)
  have plan_row: "\<exists>t \<in> set rows. row_matches (rp_id repository) (bd_id b) p t" if "p \<in> set ?plan" for p
    using list_all2_members(1) [OF rows] that by (simp only: order)
  have ids: "pt_id ` set ?plan = tk_id ` set rows"
    using row plan_row by (force simp: row_matches_def)
  have new: "set (tk_waits_for t) \<subseteq> tk_id ` set rows \<and> tk_build_id t = bd_id b \<and>
       (tk_status t = Pending \<and> tk_waits_for t = [] \<or> tk_status t = Blocked \<and> tk_waits_for t \<noteq> []) \<and>
       (\<forall>d \<in> set (tk_waits_for t). rank d < rank (tk_id t))" if t: "t \<in> set rows" for t
  proof -
    obtain p where "p \<in> set ?plan" "row_matches (rp_id repository) (bd_id b) p t" using row [OF t] by blast
    then show ?thesis using plan ids by (simp add: row_matches_def)
  qed
  have rows_ok: "tasks_ok rows" using ci' by (simp add: tasks_ok_def)
  have "deps_closed rows" unfolding deps_closed_def
  proof (intro ballI)
    fix t d assume t: "t \<in> set rows" and d: "d \<in> set (tk_waits_for t)"
    with new obtain t2 where t2: "t2 \<in> set rows" "tk_id t2 = d" by blast
    with new t have "tk_build_id t2 = tk_build_id t" by simp
    with t2 show "\<exists>t2 \<in> set rows. tk_id t2 = d \<and> tk_build_id t2 = tk_build_id t" by blast
  qed
  moreover have "ranked rank rows" unfolding ranked_def using new by blast
  ultimately have shape_new: "shape_inv (map shape rows)"
    using rows_ok shape_inv_iff by blast
  have shape_old: "shape_inv (map shape (ci_tasks ci))" using inv by (simp add: ci_inv_alt)
  have "map fst (map shape (ci_tasks ci) @ map shape rows) = map tk_id (ci_tasks ci')"
    by (simp add: ci' shape_def)
  then have "distinct (map fst (map shape (ci_tasks ci) @ map shape rows))"
    using ci'(2) by (simp only: tasks_ok_def)
  from shape_inv_append [OF shape_old shape_new this]
  have shape: "shape_inv (map shape (ci_tasks ci'))" by (simp add: ci'(1))
  have un: "undone (ci_tasks ci') = undone (ci_tasks ci) \<union> tk_id ` set rows"
    using new by (fastforce simp: undone_def ci'(1))
  have apart: "tk_id ` set (ci_tasks ci) \<inter> tk_id ` set rows = {}"
    using ci'(2) by (simp add: ci'(1) tasks_ok_def)
  have old_waits: "set (tk_waits_for t) \<subseteq> tk_id ` set (ci_tasks ci)" if "t \<in> set (ci_tasks ci)" for t
    using inv that by (force simp: ci_inv_def deps_closed_def)
  have "deps_done (ci_tasks ci') t \<longleftrightarrow> deps_done (ci_tasks ci) t" if "t \<in> set (ci_tasks ci)" for t
    using old_waits [OF that] apart by (auto simp: deps_done_iff un)
  moreover have "deps_done (ci_tasks ci') t \<longleftrightarrow> tk_status t \<noteq> Blocked" if "t \<in> set rows" for t
    using new [OF that] by (cases "tk_waits_for t") (auto simp: deps_done_iff un)
  ultimately have "honours_deps (ci_tasks ci') \<and> blocked_waits (ci_tasks ci')"
    using inv by (auto simp: honours_deps_def blocked_waits_def ci'(1) ci_inv_def)
  moreover have "known_labels ci'"
    using inv labels by (auto simp: known_labels_def ci_inv_def ci'(1))
  ultimately show ?thesis using shape by (simp add: ci_inv_alt)
qed

section \<open>The state machine\<close>

inductive ci_step :: "ci_db \<Rightarrow> ci_db \<Rightarrow> bool" where
  create: "create_build env owner repo ref_name sha core ci = (Inr resp, ci') \<Longrightarrow> env_ok env \<Longrightarrow> ci_step ci ci'"
| claim: "ci_step ci (snd (claim_task locked now runner ids ci))"
| report: "t \<in> set (ci_tasks ci) \<Longrightarrow> in_progress t \<Longrightarrow>
    update_task_request_new (tk_id t) s = Inr req \<Longrightarrow> ci_step ci (snd (update_task now req ci))"

lemma update_task_request_Inr:
  "update_task_request_new i s = Inr req \<Longrightarrow>
   \<exists>st \<in> {Running, Success, Failure}. req = \<lparr>ut_id = i, ut_status = st\<rparr>"
  by (auto simp: update_task_request_new_def split: sum.splits if_splits)

lemma ci_step_keeps: "ci_step ci ci' \<Longrightarrow> ci_inv ci \<Longrightarrow> ci_inv ci'"
proof (induction rule: ci_step.induct)
  case (report t ci s req now)
  then obtain st where "st \<in> {Running, Success, Failure}" "req = \<lparr>ut_id = tk_id t, ut_status = st\<rparr>"
    using update_task_request_Inr by blast
  with report show ?case by (auto intro: report_keeps)
qed (auto intro: create_keeps claim_keeps)

lemma ci_steps_keep: "ci_step\<^sup>*\<^sup>* ci ci' \<Longrightarrow> ci_inv ci \<Longrightarrow> ci_inv ci'"
  by (induction rule: rtranclp_induct) (auto intro: ci_step_keeps)

text \<open>A build that has neither failed nor succeeded has a task that is ready or in progress.\<close>

lemma running_not_stuck:
  assumes inv: "ci_inv ci" and ne: "list_by_build_id b ci \<noteq> []"
    and running: "tasks_status (list_by_build_id b ci) = BuildRunning"
  shows "\<exists>t \<in> set (ci_tasks ci). tk_build_id t = b \<and> (tk_status t = Pending \<or> in_progress t)"
proof (rule ccontr)
  assume none: "\<not> ?thesis"
  have members: "set (list_by_build_id b ci) = {t \<in> set (ci_tasks ci). tk_build_id t = b}"
    by (auto simp: list_by_build_id_def)
  have status: "tk_status t = Blocked \<or> tk_status t = Success" if "t \<in> set (ci_tasks ci)" "tk_build_id t = b" for t
  proof (cases "tk_status t")
    case Failure
    then show ?thesis
      using running that ne members by (auto simp: tasks_status_def list_ex_iff split: if_splits)
  qed (use none that in \<open>auto simp: in_progress_def\<close>)
  have "\<not> (\<forall>t \<in> set (list_by_build_id b ci). tk_status t = Success)"
    using running ne by (auto simp: tasks_status_def list_all_iff list_ex_iff split: if_splits)
  then obtain t0 where t0: "t0 \<in> set (ci_tasks ci)" "tk_build_id t0 = b" "tk_status t0 = Blocked"
    using members status by blast
  obtain rank where rank: "ranked rank (ci_tasks ci)" using inv by (auto simp: ci_inv_def)
  define B where "B = {t \<in> set (ci_tasks ci). tk_build_id t = b \<and> tk_status t = Blocked}"
  obtain t where t: "t \<in> B" "\<And>x. x \<in> B \<Longrightarrow> rank (tk_id t) \<le> rank (tk_id x)"
    using t0 ex_has_least_nat [of "\<lambda>x. x \<in> B" t0 "\<lambda>x. rank (tk_id x)"] by (auto simp: B_def)
  then have "\<not> deps_done (ci_tasks ci) t" using inv by (auto simp: B_def ci_inv_def blocked_waits_def)
  then obtain d where d: "d \<in> set (tk_waits_for t)" "d \<in> undone (ci_tasks ci)"
    by (auto simp: deps_done_iff)
  obtain t2 where t2: "t2 \<in> set (ci_tasks ci)" "tk_id t2 = d" "tk_build_id t2 = b"
    using inv t(1) d(1) by (auto simp: ci_inv_def deps_closed_def B_def)
  have "tk_status t2 \<noteq> Success" using d(2) t2 undone_iff inv by (metis ci_inv_def)
  then have "t2 \<in> B" using t2 status by (auto simp: B_def)
  moreover have "rank d < rank (tk_id t)" using rank t(1) d(1) by (auto simp: ranked_def B_def)
  ultimately show False using t(2) t2(2) by fastforce
qed

end
