(* ===== verification/CiProps.thy ===== *)
theory CiProps
  imports CiSafety
begin

text \<open>
  The properties of the CI services.
\<close>

section \<open>Dependencies and progress\<close>

definition demo_ci_task :: "uuid \<Rightarrow> task_status \<Rightarrow> uuid list \<Rightarrow> task" where
  "demo_ci_task i s ds =
     \<lparr>tk_id = i, tk_repository_id = 7, tk_build_id = 1, tk_s2_uri = ''s2'', tk_waits_for = ds,
      tk_status = s, tk_name = ''t'', tk_command = ''c'', tk_runner_id = None,
      tk_created_at = 0, tk_updated_at = 0\<rparr>"

definition demo_runner :: runner where
  "demo_runner = \<lparr>rn_id = 50, rn_name = ''r'', rn_owner_id = 9, rn_owner_name = ''al'',
     rn_owner_type = UserRunner, rn_last_active = None, rn_created_at = 0\<rparr>"

definition demo_build :: build where
  "demo_build = \<lparr>bd_id = 1, bd_number = 1, bd_repository_id = 7, bd_ref_name = ''main'',
     bd_commit_sha = ''s'', bd_trigger = PushToMain, bd_status = BuildRunning, bd_created_at = 0\<rparr>"

definition demo_ci :: "task list \<Rightarrow> ci_db" where
  "demo_ci ts = \<lparr>ci_builds = [demo_build], ci_tasks = ts, ci_runners = [demo_runner],
     ci_schema_of = intended_schema\<rparr>"

abbreviation demo_tasks :: "task list" where
  "demo_tasks \<equiv> [demo_ci_task 1 Success [], demo_ci_task 2 Pending [1], demo_ci_task 3 Blocked [2]]"

lemma demo_ci_inv: "ci_inv (demo_ci demo_tasks)"
proof -
  have "ranked (\<lambda>i. i) demo_tasks" by (simp add: ranked_def demo_ci_task_def)
  then show ?thesis
    by (auto simp: ci_inv_def demo_ci_def tasks_ok_def honours_deps_def blocked_waits_def deps_done_def
        deps_closed_def demo_ci_task_def known_labels_def intended_schema_def)
qed

text \<open>
  C1: whatever the schema of the tables, in every state that completed creations of builds, claims
  and reports of the assigned runners reach, a task handed to a runner has had every task it waits
  for end in success.
\<close>

theorem claimed_task_has_its_dependencies:
  assumes "ci_step\<^sup>*\<^sup>* ci ci'" and "ci_inv ci"
    and "fst (claim_task locked now runner_id ids ci') = Inr (Some t)"
    and "t2 \<in> set (ci_tasks ci')" and "tk_id t2 \<in> set (tk_waits_for t)"
  shows "tk_status t2 = Success"
proof -
  have inv: "ci_inv ci'" using ci_steps_keep assms(1,2) .
  obtain t0 where t0: "t0 \<in> set (ci_tasks ci')" "claimable locked ids t0" "t = assign runner_id now t0"
    using claim_task_Some [OF assms(3)] by metis
  then have "set (tk_waits_for t) \<inter> undone (ci_tasks ci') = {}"
    using inv by (auto simp: ci_inv_def honours_deps_def claimable_def deps_done_iff)
  with assms(4,5) show ?thesis by (auto simp: undone_def)
qed

theorem claimed_task_has_its_dependencies_witness:
  "\<exists>t. fst (claim_task {} 5 50 [7] (demo_ci demo_tasks)) = Inr (Some t) \<and> tk_waits_for t = [1] \<and>
     (\<forall>t2 \<in> set demo_tasks. tk_id t2 = 1 \<longrightarrow> tk_status t2 = Success)"
proof -
  obtain t where t: "fst (claim_task {} 5 50 [7] (demo_ci demo_tasks)) = Inr (Some t)" "tk_waits_for t = [1]"
    by (simp add: claim_task_def demo_ci_def claimable_def demo_ci_task_def demo_runner_def assign_def)
  moreover have "tk_status t2 = Success" if "t2 \<in> set demo_tasks" "tk_id t2 = 1" for t2
    using claimed_task_has_its_dependencies [OF rtranclp.rtrancl_refl demo_ci_inv t(1), of t2] that t(2)
    by (simp add: demo_ci_def)
  ultimately show ?thesis by blast
qed

text \<open>
  C2: a build whose creation completed is never stuck: while its reported status is neither
  success nor failure, one of its tasks is ready to be claimed or in a runner's hands. (In an
  accepted configuration the dependencies have no cycle, and each success unblocks the tasks that
  waited only for it.) It holds on either schema: where \<open>blocked\<close> is no label, no task is blocked.
\<close>

theorem running_build_can_progress:
  assumes "ci_step\<^sup>*\<^sup>* ci ci'" and "ci_inv ci"
    and "list_by_build_id b ci' \<noteq> []" and "tasks_status (list_by_build_id b ci') = BuildRunning"
  shows "\<exists>t \<in> set (ci_tasks ci'). tk_build_id t = b \<and> (tk_status t = Pending \<or> in_progress t)"
  using running_not_stuck [OF ci_steps_keep [OF assms(1,2)] assms(3,4)] .

theorem running_build_can_progress_witness:
  "\<exists>t \<in> set (ci_tasks (demo_ci demo_tasks)). tk_build_id t = 1 \<and> (tk_status t = Pending \<or> in_progress t)"
proof -
  have tasks: "list_by_build_id 1 (demo_ci demo_tasks) = demo_tasks"
    by (simp add: list_by_build_id_def demo_ci_def demo_ci_task_def)
  moreover have "tasks_status demo_tasks = BuildRunning"
    by (simp add: tasks_status_def demo_ci_task_def)
  ultimately show ?thesis
    using running_build_can_progress [OF rtranclp.rtrancl_refl demo_ci_inv, of 1] by simp
qed

section \<open>Build responses\<close>

lemma list_ex_filter: "list_ex P xs \<longleftrightarrow> 0 < length (filter P xs)"
  by (induction xs) auto

lemma list_all_filter: "list_all P xs \<longleftrightarrow> length xs = length (filter P xs)"
proof (induction xs)
  case (Cons x xs)
  have "length (filter P xs) \<noteq> Suc (length xs)" using length_filter_le [of P xs] by linarith
  then show ?case using Cons by (cases "P x") (auto simp: eq_commute)
qed simp

lemma sql_status_eq: "sql_status ts = tasks_status ts"
  by (simp add: sql_status_def tasks_status_def list_ex_filter list_all_filter Let_def)

lemma sort_tasks_invariant:
  "tasks_status (sort_key f ts) = tasks_status ts"
  "length (filter P (sort_key f ts)) = length (filter P ts)"
  "tk_updated_at ` set (sort_key f ts) = tk_updated_at ` set ts"
  "sort_key f ts = [] \<longleftrightarrow> ts = []"
proof -
  show empty: "sort_key f ts = [] \<longleftrightarrow> ts = []" by (metis length_0_conv length_sort)
  have "length (filter P (sort_key f ts)) = length (sort_key f (filter P ts))"
    by (simp only: filter_sort)
  then show "length (filter P (sort_key f ts)) = length (filter P ts)" by simp
  show "tasks_status (sort_key f ts) = tasks_status ts"
    by (simp add: tasks_status_def empty list_ex_iff list_all_iff)
qed simp

text \<open>
  the two computations of a build's summary agree: the one in Rust over the fetched tasks
  (\<open>get_build\<close>) and the one in SQL over the join (\<open>list_builds\<close>) give the same status, counts and
  time of the last update.
\<close>

theorem build_summaries_agree:
  "build_response_of b (list_by_build_id (bd_id b) ci) =
   build_response_from_stats (build_stats (ci_tasks ci) b)"
  by (simp add: build_response_of_def list_by_build_id_def sort_tasks_invariant
      build_response_from_stats_def build_stats_def Let_def build.extend_def
      build_with_stats.fields_def sql_status_eq)

section \<open>Creating a build\<close>


definition demo_core :: core_db where
  "demo_core = empty_core\<lparr>db_users := [demo_user 9 ''al''],
     db_repos := [demo_row 7 0 Public ''r'']\<rparr>"

definition demo_env :: build_env where
  "demo_env =
     \<lparr>be_commit = (\<lambda>_ _ s. Inr s), be_blob = (\<lambda>_ _ _ _. Inr []),
      be_toml = (\<lambda>_. Inr demo_chain), be_nodes = (\<lambda>cfg. map tc_name (cc_tasks cfg)),
      be_stream = (\<lambda>_ _ _. Inr ''s2''), be_build_id = 1, be_task_id = (\<lambda>i. 10 + i), be_now = 0,
      be_clock = int, be_order = rev\<rparr>"


lemma demo_chain_new: "ci_config_new (be_toml demo_env) (be_nodes demo_env) s = Inr demo_chain"
proof -
  have "validate_ci_config (map tc_name (cc_tasks demo_chain)) demo_chain = Inr ()" by code_simp
  then show ?thesis by (simp add: ci_config_new_def demo_env_def)
qed

lemma demo_resolve:
  "resolve_build demo_env ''al'' ''r'' ''topic'' ''s'' demo_core =
     Inr (the_view demo_core None (demo_row 7 0 Public ''r''), ''s'', demo_chain, ci_trigger_of ''topic'',
       \<lparr>bc_trigger = PullRequest, bc_tasks = [''a'', ''b'', ''c'']\<rparr>)"
proof -
  let ?bc = "\<lparr>bc_trigger = PullRequest, bc_tasks = [''a'', ''b'', ''c'']\<rparr>"
  have get: "repo_get ''al'' ''r'' None demo_core = Inr (Some (the_view demo_core None (demo_row 7 0 Public ''r'')))"
    by (simp add: repo_get_def demo_core_def empty_core_def demo_row_def demo_user_def owner_ids_def
        fetch_optional_def repo_view_def the_view_def owner_name_of_def find_user_def)
  have bc: "get_build_config demo_chain (ci_trigger_of ''topic'') = Inr ?bc"
    by (simp add: get_build_config_def ci_trigger_of_def demo_config_def demo_task_def DEFAULT_BRANCH_def
        last_segment_def)
  show ?thesis
    by (simp add: resolve_build_def get demo_chain_new bc) (simp add: demo_env_def)
qed


section \<open>The schema of the migrations that are run\<close>

lemma update_task_refused:
  assumes "\<not> sc_blocked (ci_schema_of ci)"
  shows "update_task now \<lparr>ut_id = i, ut_status = Success\<rparr> ci =
    (let ci1 = snd (repo_update_task now i Success ci)
     in (case find (\<lambda>t. tk_id t = i) (ci_tasks ci1) of
           None \<Rightarrow> (Inl (TaskNotFound (NotFoundError ''task'' (IdUuid i))), ci1)
         | Some t \<Rightarrow> (Inl (TaskDatabaseError OtherDbError), ci1)))"
proof (cases "find (\<lambda>t. tk_id t = i) (update_where (\<lambda>t. tk_id t = i) (set_status Success now) (ci_tasks ci))")
  case None
  then show ?thesis by (simp add: update_task_def repo_update_task_def Let_def)
next
  case (Some t)
  from find_SomeD [OF Some] have "t \<in> set (update_where (\<lambda>t. tk_id t = i) (set_status Success now) (ci_tasks ci))"
    "tk_id t = i" by simp_all
  then obtain r where "t = (if tk_id r = i then set_status Success now r else r)" "tk_id t = i"
    unfolding set_update_where by blast
  then have "tk_status t = Success" by (cases "tk_id r = i") simp_all
  with Some assms show ?thesis
    by (simp add: update_task_def repo_update_task_def unblock_tasks_def Let_def)
qed

text \<open>
  C39: on the schema of the migrations that are run, no build is ever created: a request whose
  configuration resolves ends in a database error, and no request changes the tables. A runner's
  report of a success answers an error too, although its status has been stored: the task is found
  successful afterwards.
\<close>

theorem squashed_schema_refuses_builds:
  assumes schema: "ci_schema_of ci = squashed_schema"
  shows "create_build env owner repo ref_name sha core ci =
      (case resolve_build env owner repo ref_name sha core of
         Inl e \<Rightarrow> (Inl e, ci) | Inr _ \<Rightarrow> (Inl (BuildDatabaseError OtherDbError), ci)) \<and>
    (\<forall>t \<in> set (ci_tasks ci). \<exists>ci'.
      update_task now \<lparr>ut_id = tk_id t, ut_status = Success\<rparr> ci = (Inl (TaskDatabaseError OtherDbError), ci') \<and>
      (\<exists>t' \<in> set (ci_tasks ci'). tk_id t' = tk_id t \<and> tk_status t' = Success))"
proof (intro conjI ballI)
  show "create_build env owner repo ref_name sha core ci =
      (case resolve_build env owner repo ref_name sha core of
         Inl e \<Rightarrow> (Inl e, ci) | Inr _ \<Rightarrow> (Inl (BuildDatabaseError OtherDbError), ci))"
    by (simp add: create_build_def build_create_def schema squashed_schema_def Let_def
        split: sum.split prod.split)
next
  fix t assume t: "t \<in> set (ci_tasks ci)"
  let ?ci1 = "snd (repo_update_task now (tk_id t) Success ci)"
  have stored: "ci_tasks ?ci1 = update_where (\<lambda>x. tk_id x = tk_id t) (set_status Success now) (ci_tasks ci)"
    by (simp add: status_after)
  have t1: "set_status Success now t \<in> set (ci_tasks ?ci1)"
    using t by (auto simp: stored set_update_where)
  then have "find (\<lambda>x. tk_id x = tk_id t) (ci_tasks ?ci1) \<noteq> None"
    by (auto simp: find_None_iff)
  then have "update_task now \<lparr>ut_id = tk_id t, ut_status = Success\<rparr> ci =
      (Inl (TaskDatabaseError OtherDbError), ?ci1)"
    using schema by (auto simp: update_task_refused squashed_schema_def Let_def)
  moreover have "\<exists>t' \<in> set (ci_tasks ?ci1). tk_id t' = tk_id t \<and> tk_status t' = Success"
    using t1 by (intro bexI [of _ "set_status Success now t"]) simp_all
  ultimately show "\<exists>ci'. update_task now \<lparr>ut_id = tk_id t, ut_status = Success\<rparr> ci =
        (Inl (TaskDatabaseError OtherDbError), ci') \<and>
      (\<exists>t' \<in> set (ci_tasks ci'). tk_id t' = tk_id t \<and> tk_status t' = Success)" by blast
qed

theorem squashed_schema_refuses_builds_witness:
  "let ci = (demo_ci [demo_ci_task 1 Running []])\<lparr>ci_schema_of := squashed_schema\<rparr>
   in create_build demo_env ''al'' ''r'' ''topic'' ''s'' demo_core ci = (Inl (BuildDatabaseError OtherDbError), ci) \<and>
     (\<exists>ci'. update_task 5 \<lparr>ut_id = 1, ut_status = Success\<rparr> ci = (Inl (TaskDatabaseError OtherDbError), ci'))"
proof -
  let ?ci = "(demo_ci [demo_ci_task 1 Running []])\<lparr>ci_schema_of := squashed_schema\<rparr>"
  have "ci_schema_of ?ci = squashed_schema" by simp
  note run = squashed_schema_refuses_builds [OF this]
  have "create_build demo_env ''al'' ''r'' ''topic'' ''s'' demo_core ?ci = (Inl (BuildDatabaseError OtherDbError), ?ci)"
    by (simp only: run demo_resolve) simp
  moreover have "\<exists>ci'. update_task 5 \<lparr>ut_id = 1, ut_status = Success\<rparr> ?ci = (Inl (TaskDatabaseError OtherDbError), ci')"
    using run [THEN conjunct2, of 5] by (auto simp: demo_ci_def demo_ci_task_def)
  ultimately show ?thesis by simp
qed

section \<open>Claiming\<close>



section \<open>Polling\<close>

lemma claimed_response:
  assumes "claim_task locked now runner_id ids ci = (Inr (Some t), ci')"
  shows "tr_repository_id (task_response_from t) \<in> set ids \<and> tr_status (task_response_from t) = Assigned"
proof -
  have "fst (claim_task locked now runner_id ids ci) = Inr (Some t)" using assms by simp
  then obtain t0 where "claimable locked ids t0" "t = assign runner_id now t0"
    by (rule claim_task_Some)
  then show ?thesis by (simp add: claimable_def task_response_from_def)
qed

lemma poll_loop_error:
  "claim_task (locked i) (claim_time i) runner_id ids ci = (Inl e, ci1) \<Longrightarrow>
   poll_loop locked claim_time instant others deadline runner_id ids i ci = Some (Inl (TaskDatabaseError e), ci1)"
  by (subst poll_loop.simps) (simp only: prod.case sum.case)

lemma poll_loop_found:
  "claim_task (locked i) (claim_time i) runner_id ids ci = (Inr (Some t), ci1) \<Longrightarrow>
   poll_loop locked claim_time instant others deadline runner_id ids i ci = Some (Inr (Some (task_response_from t)), ci1)"
  by (subst poll_loop.simps) (simp only: prod.case sum.case option.case)

lemma poll_loop_again:
  "claim_task (locked i) (claim_time i) runner_id ids ci = (Inr None, ci1) \<Longrightarrow>
   poll_loop locked claim_time instant others deadline runner_id ids i ci =
     (if deadline \<le> instant i then Some (Inr None, ci1)
      else poll_loop locked claim_time instant others deadline runner_id ids (Suc i) (others i ci1))"
  by (subst poll_loop.simps) (simp only: prod.case sum.case option.case)

lemmas poll_loop_cases = poll_loop_error poll_loop_found poll_loop_again

lemma poll_loop_ends:
  assumes clock: "\<And>i. start + int i * 1000000 \<le> instant i" and "i \<le> 60"
  shows "\<exists>res ci'. poll_loop locked claim_time instant others (start + 60 * 1000000) runner_id ids i ci = Some (res, ci') \<and>
    (\<forall>t. res = Inr (Some t) \<longrightarrow> tr_repository_id t \<in> set ids \<and> tr_status t = Assigned)"
  using assms(2)
proof (induction "60 - i" arbitrary: i ci rule: less_induct)
  case less
  obtain res ci1 where claim: "claim_task (locked i) (claim_time i) runner_id ids ci = (res, ci1)" by fastforce
  consider e where "res = Inl e" | t where "res = Inr (Some t)" | "res = Inr None"
    by (metis not_None_eq sum.exhaust)
  then show ?case
  proof cases
    case 1
    with claim show ?thesis by (simp add: poll_loop_cases(1))
  next
    case (2 t)
    with claim claimed_response show ?thesis by (simp add: poll_loop_cases(2))
  next
    case 3
    show ?thesis
    proof (cases "start + 60 * 1000000 \<le> instant i")
      case True
      with claim 3 show ?thesis by (simp add: poll_loop_cases(3))
    next
      case False
      with clock [of i] less.prems have "i \<noteq> 60" "Suc i \<le> 60" by auto
      then have "60 - Suc i < 60 - i" by simp
      from less.hyps [OF this \<open>Suc i \<le> 60\<close>] claim 3 False show ?thesis by (simp add: poll_loop_cases(3))
    qed
  qed
qed

text \<open>
  C37: \<open>poll_task\<close> returns, whatever the other runners do meanwhile, since each round sleeps for a
  second and the loop stops 60 seconds after its start; a task it returns is assigned, and
  belongs to a public repository of the runner's owner.
\<close>

theorem poll_task_returns:
  assumes clock: "\<And>i. start + int i * 1000000 \<le> instant i"
  shows "\<exists>res ci'. poll_task locked claim_time instant others now start runner_id core ci = Some (res, ci') \<and>
    (case res of
       Inr (Some t) \<Rightarrow>
         tr_status t = Assigned \<and>
         (\<exists>r owner. r \<in> set (db_repos core) \<and> rp_id r = tr_repository_id t \<and> rp_visibility r = Public \<and>
            runner_get_by_id runner_id (snd (runner_touch now runner_id ci)) = Some owner \<and>
            rp_owner_id r \<in> set (owner_ids core (rn_owner_name owner)))
     | _ \<Rightarrow> True)"
proof -
  obtain res1 ci1 where touch: "runner_touch now runner_id ci = (res1, ci1)" by fastforce
  show ?thesis
  proof (cases "\<exists>u r repos c. res1 = Inr u \<and> runner_get_by_id runner_id ci1 = Some r \<and>
      repo_list_by_owner (rn_owner_name r) None None MAX_PER_PAGE_LIMIT core = Inr (repos, c)")
    case False
    then show ?thesis
      by (auto simp: poll_task_def touch split: sum.splits option.splits prod.splits)
  next
    case True
    then obtain u r repos c where ok: "res1 = Inr u" "runner_get_by_id runner_id ci1 = Some r"
      and repos: "repo_list_by_owner (rn_owner_name r) None None MAX_PER_PAGE_LIMIT core = Inr (repos, c)" by blast
    let ?loop = "poll_loop locked claim_time instant others (start + 60 * 1000000) runner_id (map rp_id repos) 0 ci1"
    have run: "poll_task locked claim_time instant others now start runner_id core ci = ?loop"
      by (simp add: poll_task_def touch ok repos)
    obtain res ci' where loop: "?loop = Some (res, ci')"
      and inside: "\<forall>t. res = Inr (Some t) \<longrightarrow> tr_repository_id t \<in> set (map rp_id repos) \<and> tr_status t = Assigned"
      using poll_loop_ends [OF clock, of 0] by blast
    have "\<exists>x. x \<in> set (db_repos core) \<and> rp_id x = i \<and> rp_visibility x = Public \<and>
        rp_owner_id x \<in> set (owner_ids core (rn_owner_name r))" if "i \<in> set (map rp_id repos)" for i
    proof -
      from that obtain v where v: "v \<in> set repos" "rp_id v = i" by auto
      obtain x where "x \<in> set (db_repos core)" "repo_view core None x = Inr v"
        "rp_owner_id x \<in> set (owner_ids core (rn_owner_name r))" "visible_to core None x"
        using list_by_owner_row [OF repos v(1)] by blast
      moreover from this have "rp_id x = i"
        using v(2) repo_view_row(2) by (metis repo_key_def snd_conv)
      ultimately show ?thesis by (auto simp: visible_to_def viewer_orgs_def)
    qed
    then show ?thesis
      using loop inside by (intro exI [of _ res] exI [of _ ci']) (auto simp: run touch ok split: sum.splits option.splits)
  qed
qed

theorem poll_task_returns_witness:
  "\<exists>res ci'. poll_task (\<lambda>_. {}) int (\<lambda>i. int i * 1000000) (\<lambda>_ ci. ci) 0 0 50 demo_core (demo_ci demo_tasks) = Some (res, ci')"
  using poll_task_returns [of 0 "\<lambda>i. int i * 1000000" "\<lambda>_. {}" int "\<lambda>_ ci. ci" 0 50 demo_core "demo_ci demo_tasks"]
  by auto

section \<open>Inserts that overlap with runners\<close>

text \<open>
  The plan of the three-task chain: \<open>b\<close> waits for \<open>a\<close>, and \<open>c\<close> waits for both.
\<close>

definition demo_plan :: "planned_task list" where
  "demo_plan =
     [\<lparr>pt_id = 10, pt_name = ''a'', pt_command = ''run'', pt_status = Pending, pt_waits_for = []\<rparr>,
      \<lparr>pt_id = 11, pt_name = ''b'', pt_command = ''run'', pt_status = Blocked, pt_waits_for = [10]\<rparr>,
      \<lparr>pt_id = 12, pt_name = ''c'', pt_command = ''run'', pt_status = Blocked, pt_waits_for = [10, 11]\<rparr>]"

lemma demo_plan_eq:
  "planned_tasks demo_env demo_chain \<lparr>bc_trigger = PullRequest, bc_tasks = [''a'', ''b'', ''c'']\<rparr> = demo_plan"
  by (simp add: planned_tasks_def get_task_configs_def demo_config_def demo_task_def demo_env_def
      assign_ids_def plan_task_def deps_of_def List.map_filter_def upt_conv_Cons demo_plan_def)

definition demo_insert :: "planned_task list \<Rightarrow> ci_db \<Rightarrow> ci_db" where
  "demo_insert ps ci = snd (insert_planned (\<lambda>_. Inr ''s2'') (\<lambda>_. 0) 7 1 ps ci)"

definition demo_finish_a :: "ci_db \<Rightarrow> ci_db" where
  "demo_finish_a ci =
     snd (update_task 2 \<lparr>ut_id = 10, ut_status = Success\<rparr> (snd (claim_task {} 1 50 [7] ci)))"

lemmas demo_run_simps =
  demo_insert_def demo_finish_a_def demo_plan_def demo_ci_def demo_build_def demo_runner_def
  task_create_def checked_def tasks_ok_def claim_task_def claimable_def assign_def update_task_def
  repo_update_task_def set_status_def unblock_tasks_def unblockable_def deps_done_def Let_def
  intended_schema_def

text \<open>
  C34: the tasks of a build are inserted one by one while runners already see them, and the
  order matters. On the schema that the code is written for, which accepts these inserts: if \<open>a\<close> ends before \<open>b\<close> and
  \<open>c\<close> are inserted, they stay blocked for ever and the build stays running with nothing to claim. If \<open>a\<close> ends when \<open>c\<close> is inserted and \<open>b\<close> is not,
  \<open>c\<close> is handed out before \<open>b\<close>, which it waits for, has run.
\<close>

theorem build_inserts_race_with_runners:
  "(let ci = demo_insert (drop 1 demo_plan) (demo_finish_a (demo_insert (take 1 demo_plan) (demo_ci [])))
    in map tk_status (ci_tasks ci) = [Success, Blocked, Blocked] \<and>
       tasks_status (list_by_build_id 1 ci) = BuildRunning \<and> fst (claim_task {} 3 50 [7] ci) = Inr None)
   \<and>
   (let ci = demo_insert [demo_plan ! 1] (demo_finish_a (demo_insert [demo_plan ! 0, demo_plan ! 2] (demo_ci [])))
    in map (\<lambda>t. (tk_name t, tk_status t)) (ci_tasks ci) = [(''a'', Success), (''c'', Pending), (''b'', Blocked)] \<and>
       (\<exists>t. fst (claim_task {} 3 50 [7] ci) = Inr (Some t) \<and> tk_name t = ''c''))"
proof
  define ci1 where "ci1 = demo_insert (drop 1 demo_plan) (demo_finish_a (demo_insert (take 1 demo_plan) (demo_ci [])))"
  define L where "L = list_by_build_id 1 ci1"
  have s1: "map tk_status (ci_tasks ci1) = [Success, Blocked, Blocked]" "map tk_build_id (ci_tasks ci1) = [1, 1, 1]"
    by (simp_all add: ci1_def demo_run_simps)
  have "\<forall>t \<in> set (ci_tasks ci1). tk_build_id t = 1" using s1(2) by auto
  then have mem: "set L = set (ci_tasks ci1)"
    unfolding L_def list_by_build_id_def by auto
  have st: "tk_status ` set (ci_tasks ci1) = {Success, Blocked}"
    using arg_cong [OF s1(1), of set] by auto
  then have "tk_status ` set L = {Success, Blocked}" by (simp add: mem)
  then have "L \<noteq> []" "\<exists>t \<in> set L. tk_status t = Blocked" "\<forall>t \<in> set L. tk_status t = Success \<or> tk_status t = Blocked"
    by (auto simp: set_eq_iff image_iff) metis
  then have "L \<noteq> []" "\<not> list_ex (\<lambda>t. tk_status t = Failure) L" "\<not> list_all (\<lambda>t. tk_status t = Success) L"
    unfolding list_ex_iff list_all_iff by (simp, metis task_status.distinct, metis task_status.distinct)
  then have "tasks_status L = BuildRunning" by (simp add: tasks_status_def)
  moreover have "\<forall>t \<in> set (ci_tasks ci1). \<not> claimable {} [7] t"
  proof
    fix t assume "t \<in> set (ci_tasks ci1)"
    then have "tk_status t \<in> {Success, Blocked}" using st by blast
    then show "\<not> claimable {} [7] t" by (auto simp: claimable_def)
  qed
  ultimately show "let ci = demo_insert (drop 1 demo_plan) (demo_finish_a (demo_insert (take 1 demo_plan) (demo_ci [])))
    in map tk_status (ci_tasks ci) = [Success, Blocked, Blocked] \<and>
       tasks_status (list_by_build_id 1 ci) = BuildRunning \<and> fst (claim_task {} 3 50 [7] ci) = Inr None"
    using s1(1) claim_task_None unfolding ci1_def [symmetric] L_def Let_def by blast
next
  let ?ci2 = "demo_insert [demo_plan ! 1] (demo_finish_a (demo_insert [demo_plan ! 0, demo_plan ! 2] (demo_ci [])))"
  show "let ci = ?ci2
    in map (\<lambda>t. (tk_name t, tk_status t)) (ci_tasks ci) = [(''a'', Success), (''c'', Pending), (''b'', Blocked)] \<and>
       (\<exists>t. fst (claim_task {} 3 50 [7] ci) = Inr (Some t) \<and> tk_name t = ''c'')"
    by (simp add: demo_run_simps)
qed

end
