(* ===== verification/AccountProps.thy ===== *)
theory AccountProps
  imports AccountService
begin

text \<open>
  What the account and device services guarantee: a deleted account stays locked out of every
  way to sign in, whatever is called afterwards, while its access tokens keep working; a device
  code yields one token to callers that come one after the other, and two to callers that race.
\<close>

section \<open>A deleted account\<close>

definition deleted_user :: "uuid \<Rightarrow> core_db \<Rightarrow> bool" where
  "deleted_user u db \<longleftrightarrow> user_exists db u \<and>
     (\<forall>r \<in> set (db_users db). us_id r = u \<longrightarrow> us_deleted_at r \<noteq> None)"

definition no_live_session :: "uuid \<Rightarrow> auth_db \<Rightarrow> bool" where
  "no_live_session u db \<longleftrightarrow> (\<forall>s \<in> set (db_sessions db). ss_user_id s = u \<longrightarrow> ss_revoked_at s \<noteq> None)"

definition locked_out :: "uuid \<Rightarrow> auth_world \<Rightarrow> bool" where
  "locked_out u w \<longleftrightarrow> deleted_user u (aw_core w) \<and> no_live_session u (aw_auth w)"

text \<open>Every call of the authentication services.\<close>

inductive account_step :: "auth_env \<Rightarrow> auth_world \<Rightarrow> auth_world \<Rightarrow> bool" for env where
  send: "account_step env w (snd (send_auth_email env io email w))"
| login: "account_step env w (snd (verify_auth_code env io email code agent ip w))"
| github: "account_step env w (snd (exchange_github_code env io code state agent ip w))"
| refresh: "account_step env w (snd (refresh_session env io token agent ip w))"
| logout: "account_step env w (snd (logout env io token w))"
| delete: "account_step env w (snd (delete_account io user_id w))"
| add: "account_step env w (snd (add_email env io user_id email w))"
| verify: "account_step env w (snd (verify_email env io user_id email code w))"
| device: "account_step env w (snd (request_device_code env io client_id url w))"
| poll: "account_step env w (snd (poll_token env io device_code w))"
| approve: "account_step env w (snd (authorize_device env io user_code user_id w))"
| access: "validate_token env now token ty w = Some (r, w') \<Longrightarrow> account_step env w w'"

lemma deleted_user_cong: "db_users db = db_users db' \<Longrightarrow> deleted_user u db = deleted_user u db'"
  by (simp add: deleted_user_def user_exists_def)

lemma no_live_cong: "db_sessions db = db_sessions db' \<Longrightarrow> no_live_session u db = no_live_session u db'"
  by (simp add: no_live_session_def)

lemma deleted_user_view:
  assumes "deleted_user u db" "r \<in> set (db_users db)" "us_id (user_view db r) = u"
  shows "us_deleted_at (user_view db r) \<noteq> None"
  using assms by (auto simp: deleted_user_def user_view_def user_row.defs)

lemma found_deleted:
  assumes "deleted_user u db"
  shows "get_by_primary_email email db = Some x \<Longrightarrow> us_id x = u \<Longrightarrow> us_deleted_at x \<noteq> None"
    and "user_get_by_id i db = Some x \<Longrightarrow> us_id x = u \<Longrightarrow> us_deleted_at x \<noteq> None"
    and "user_get_by_id i db = Some x \<Longrightarrow> us_id x = i"
  using deleted_user_view [OF assms]
  by (auto simp: get_by_primary_email_def user_get_by_id_def user_view_def user_row.defs dest: find_SomeD)

lemma user_create_deleted:
  "deleted_user u db \<Longrightarrow>
   deleted_user u (snd (user_create_from readme handle ids now email verified provider attempt db)) \<and>
   (\<forall>x. fst (user_create_from readme handle ids now email verified provider attempt db) = Inr x \<longrightarrow> us_id x \<noteq> u)"
proof (induction readme handle ids now email verified provider attempt db rule: user_create_from.induct)
  case (1 readme handle ids now email verified provider attempt db)
  obtain res db' where ins: "user_insert readme (fst (ids attempt)) (snd (ids attempt)) now
      (generated_name (handle attempt)) email verified provider db = (res, db')" by fastforce
  have ok: "deleted_user u db' \<and> (\<forall>x. res = Inr x \<longrightarrow> us_id x \<noteq> u)"
    using ins "1.prems"
    by (auto simp: user_insert_def Let_def checked_def deleted_user_def users_ok_def user_exists_def list_ex_iff
        user_view_def user_row.defs split: if_splits)
  show ?case
  proof (cases res)
    case (Inl e)
    with ins ok 1(1) [OF ins [symmetric] Inl] show ?thesis
      by (subst (1 2) user_create_from.simps) auto
  next
    case (Inr x)
    with ins ok show ?thesis by (subst (1 2) user_create_from.simps) auto
  qed
qed

lemma user_create_deletedD:
  assumes "user_create readme handle ids now email verified provider db = (res, db')" "deleted_user u db"
  shows "deleted_user u db'" and "res = Inr x \<Longrightarrow> us_id x \<noteq> u"
  using user_create_deleted [OF assms(2), of readme handle ids now email verified provider 1] assms(1)
  by (auto simp: user_create_def)

lemma create_session_no_live:
  assumes "no_live_session u db" "v \<noteq> u"
  shows "no_live_session u (snd (create_session core i now v h f a p e db))"
  using assms by (auto simp: create_session_def Let_def checked_def no_live_session_def)

lemma revoke_no_live:
  "no_live_session u db \<Longrightarrow> no_live_session u (revoke_session now i db)"
  "no_live_session u db \<Longrightarrow> no_live_session u (revoke_sessions_by_family now f db)"
  "no_live_session u db \<Longrightarrow> no_live_session u (revoke_sessions_by_user now v db)"
  "no_live_session u (revoke_sessions_by_user now u db)"
  by (simp_all add: no_live_session_def revoke_session_def revoke_sessions_by_family_def
      revoke_sessions_by_user_def table_simps)

lemma open_session_locked:
  assumes "locked_out u w" "v \<noteq> u"
  shows "locked_out u (snd (open_session env io v agent ip w))"
  using assms create_session_no_live [of u "aw_auth w" v]
  by (auto simp: open_session_def case_prod_beta Let_def locked_out_def split: sum.splits)

lemma mark_deleted:
  "user_exists db u \<Longrightarrow> deleted_user u (mark_user_as_deleted now u db)"
  "deleted_user u db \<Longrightarrow> deleted_user u (mark_user_as_deleted now v db)"
  by (simp_all add: deleted_user_def user_exists_def mark_user_as_deleted_def table_simps
      if_distrib [of us_id] cong: if_cong)

section \<open>Every call keeps it locked out\<close>

lemma verify_code_sessions:
  "verify_and_consume_auth_code now v h m db = (r, db') \<Longrightarrow> db_sessions db' = db_sessions db"
  by (auto simp: verify_and_consume_auth_code_def Let_def split: option.splits if_splits)

lemma email_code_sessions:
  "verify_and_consume_email_code k now v email h m (core, db) = (r, core', db') \<Longrightarrow>
   db_sessions db' = db_sessions db \<and> db_users core' = db_users core"
  by (auto simp: verify_and_consume_email_code_def upsert_verified_def Let_def checked_def
      split: option.splits if_splits sum.splits prod.splits)

lemma user_verify_users: "user_verify_email now v db = (r, db') \<Longrightarrow> db_users db' = db_users db"
  by (auto simp: user_verify_email_def split: sum.splits)

lemma locked_outI:
  "locked_out u w \<Longrightarrow> db_users (aw_core w') = db_users (aw_core w) \<Longrightarrow>
   db_sessions (aw_auth w') = db_sessions (aw_auth w) \<Longrightarrow> locked_out u w'"
  by (simp add: locked_out_def deleted_user_def user_exists_def no_live_session_def)

lemma send_auth_email_locked:
  assumes "locked_out u w"
  shows "locked_out u (snd (send_auth_email env io email w))"
proof -
  have "locked_out u (snd (find_or_create_user env io email w'))" if "locked_out u w'" for w'
    using that user_create_deletedD(1) [of "io_readme io" "io_handle io" "io_ids io" "io_now io" email False
        EmailProvider "aw_core w'" _ _ u]
    by (auto simp: find_or_create_user_def locked_out_def Let_def split: option.split sum.split prod.split)
  moreover have "locked_out u (snd (send_code env io email v w'))" if "locked_out u w'" for v w'
    by (rule locked_outI [OF that])
      (auto simp: send_code_def create_auth_code_def invalidate_auth_codes_def checked_def Let_def
        split: prod.splits option.splits if_splits)
  moreover have "locked_out u (w\<lparr>aw_cache := c\<rparr>)" for c
    by (rule locked_outI [OF assms]) simp_all
  ultimately show ?thesis
    unfolding send_auth_email_def
    by (auto split: prod.split sum.split bool.split option.split intro!: then_do_inv [where P = "locked_out u"])
qed

lemma verify_auth_code_locked:
  assumes "locked_out u w"
  shows "locked_out u (snd (verify_auth_code env io email code agent ip w))"
proof (cases "get_by_primary_email email (aw_core w)")
  case (Some user)
  show ?thesis
  proof (cases "us_deleted_at user")
    case None
    with Some assms have ne: "us_id user \<noteq> u"
      using found_deleted(1) [OF _ Some] by (metis locked_out_def)
    obtain v auth where v: "verify_and_consume_auth_code (io_now io) (us_id user) (hash_string (en_lib env) code)
        MAX_AUTH_CODE_ATTEMPTS (aw_auth w) = (v, auth)" by (metis prod.collapse)
    obtain r core where r: "user_verify_email (io_now io) (us_id user) (aw_core w) = (r, core)"
      by (metis prod.collapse)
    have l: "locked_out u (w\<lparr>aw_core := core, aw_auth := auth\<rparr>)" "locked_out u (w\<lparr>aw_auth := auth\<rparr>)"
      by (rule locked_outI [OF assms]; simp add: verify_code_sessions [OF v] user_verify_users [OF r])+
    have "locked_out u (snd (then_do (open_session env io (us_id user) agent ip
        (w\<lparr>aw_core := core, aw_auth := auth\<rparr>)) (\<lambda>t w1. (g t, w1))))" for g :: "string \<Rightarrow> session_error + auth_tokens"
      by (rule then_do_inv) (simp_all add: open_session_locked l ne)
    with Some None v r l show ?thesis
      by (cases v; cases r) (simp_all add: verify_auth_code_def)
  qed (simp add: verify_auth_code_def Some assms)
qed (simp add: verify_auth_code_def assms)

lemma refresh_read_user:
  "refresh_read env io token w = Inr (s, jwt) \<Longrightarrow>
   \<exists>x. user_get_by_id (ss_user_id s) (aw_core w) = Some x \<and> us_deleted_at x = None"
  by (auto simp: refresh_read_def Let_def split: if_splits)

lemma refresh_session_locked:
  assumes "locked_out u w"
  shows "locked_out u (snd (refresh_session env io token agent ip w))"
proof (cases "refresh_read env io token w")
  case (Inr sj)
  obtain s jwt where sj: "sj = (s, jwt)" by (cases sj)
  from refresh_read_user [OF Inr [unfolded sj]] assms have ne: "ss_user_id s \<noteq> u"
    by (metis locked_out_def found_deleted(2,3))
  have replay: "locked_out u (snd (refresh_replay env io call s jwt w'))" if "locked_out u w'" for w' call
    using that by (auto simp: refresh_replay_def reuse_detected_def locked_out_def revoke_no_live
        split: sum.split option.split)
  have "locked_out u (snd (refresh_persist env io expiry s agent ip jwt w'))" if "locked_out u w'" for w' expiry
    using that create_session_no_live [OF revoke_no_live(1) ne]
    by (auto simp: refresh_persist_def Let_def locked_out_def case_prod_beta split: sum.split)
  moreover have "locked_out u (snd (refresh_claim env io s w))"
    by (rule locked_outI [OF assms]) (simp_all add: refresh_claim_auth)
  ultimately show ?thesis
    unfolding refresh_session_def Inr sj
    by (auto simp: replay assms intro!: then_do_inv [where P = "locked_out u"])
qed (simp add: refresh_session_def assms)

lemma exchange_github_code_locked:
  assumes "locked_out u w"
  shows "locked_out u (snd (exchange_github_code env io code state agent ip w))"
proof -
  have user: "locked_out u w1 \<and> us_id x \<noteq> u" if "github_user io email w = (Inr (x, b), w1)" for email x b w1
    using that assms found_deleted(1) [of u "aw_core w" email]
      user_create_deletedD [of "io_readme io" "io_handle io" "io_ids io" "io_now io" email True
        GitHubProvider "aw_core w" _ _ u]
    by (auto simp: github_user_def locked_out_def split: option.splits sum.splits prod.splits if_splits)
  have err: "locked_out u w1" if "github_user io email w = (Inl e, w1)" for email e w1
    using that assms user_create_deletedD(1) [of "io_readme io" "io_handle io" "io_ids io" "io_now io" email True
        GitHubProvider "aw_core w" _ _ u]
    by (auto simp: github_user_def locked_out_def split: option.splits sum.splits prod.splits if_splits)
  have ups: "locked_out u (w1\<lparr>aw_core := upsert_verified_emails t i es (aw_core w1)\<rparr>)" if "locked_out u w1" for w1 t i es
    by (rule locked_outI [OF that]) (simp_all add: upsert_verified_emails_def)
  have opn: "locked_out u (snd (then_do (open_session env io v agent ip w1) (\<lambda>t w. (g t, w))))"
    if "locked_out u w1" "v \<noteq> u" for v w1 and g :: "string \<Rightarrow> session_error + auth_tokens"
    using that by (intro then_do_inv [where P = "locked_out u"]) (simp_all add: open_session_locked)
  have "locked_out u (snd (then_do (github_user io email w) (\<lambda>(user, is_new) w1. f user is_new w1)))"
    if "\<And>x b w1. locked_out u w1 \<Longrightarrow> us_id x \<noteq> u \<Longrightarrow> locked_out u (snd (f x b w1))"
    for email and f :: "user \<Rightarrow> bool \<Rightarrow> auth_world \<Rightarrow> (session_error + auth_tokens) \<times> auth_world"
    using user [of email] err [of email] that
    by (cases "github_user io email w"; cases "fst (github_user io email w)") auto
  note chain = this
  show ?thesis
    unfolding exchange_github_code_def
    by (auto simp: assms Let_def split: sum.split option.split intro!: chain opn ups)
qed

lemma poll_token_sessions:
  "poll_token env io code w = (r, w') \<Longrightarrow> aw_core w' = aw_core w \<and> db_sessions (aw_auth w') = db_sessions (aw_auth w)"
  by (auto simp: poll_token_def poll_exchange_def expire_device_authorization_def create_token_def checked_def Let_def
      split: sum.splits if_splits device_status.splits option.splits prod.splits)

lemma issue_code_sessions:
  "issue_and_send_code env io v email w = (r, w') \<Longrightarrow>
   aw_core w' = aw_core w \<and> db_sessions (aw_auth w') = db_sessions (aw_auth w)"
  by (auto simp: issue_and_send_code_def create_code_def invalidate_codes_for_email_def checked_def Let_def
      split: sum.splits if_splits bool.splits option.splits prod.splits)

lemma account_step_locked:
  assumes "account_step env w w'" "locked_out u w"
  shows "locked_out u w'"
  using assms
proof cases
  case (logout io token)
  with assms(2) show ?thesis
    by (auto simp: logout_def Let_def locked_out_def revoke_no_live split: option.split)
next
  case (delete io v)
  with assms(2) show ?thesis
    by (simp add: delete_account_def locked_out_def mark_deleted revoke_no_live)
next
  case (add io v email)
  obtain r w1 where i: "issue_and_send_code env io v email w = (r, w1)" by (metis prod.collapse)
  with add assms(2) issue_code_sessions [OF i] show ?thesis
    by (auto simp: add_email_def intro: locked_outI)
next
  case (verify io v email code)
  obtain r core auth where c: "verify_and_consume_email_code (io_email_ids io 0) (io_now io) v email
      (hash_string (en_lib env) code) MAX_EMAIL_CODE_ATTEMPTS (aw_core w, aw_auth w) = (r, core, auth)"
    by (metis prod.collapse)
  with verify email_code_sessions [OF c] show ?thesis
    by (auto simp: verify_email_def intro: locked_outI [OF assms(2)])
next
  case (device io client_id url)
  then show ?thesis
    by (auto simp: request_device_code_def create_device_authorization_def checked_def Let_def case_prod_beta
        intro!: locked_outI [OF assms(2)] split: sum.split)
next
  case (poll io code)
  obtain r w1 where "poll_token env io code w = (r, w1)" by (metis prod.collapse)
  with poll poll_token_sessions [OF this] show ?thesis by (auto intro: locked_outI [OF assms(2)])
next
  case (approve io code v)
  then show ?thesis
    by (auto simp: authorize_device_def authorize_device_row_def Let_def
        intro!: locked_outI [OF assms(2)] split: sum.split option.split)
next
  case (access now token ty r)
  then show ?thesis
    by (auto simp: validate_token_def touch_token_def intro!: locked_outI [OF assms(2)]
        split: option.splits bool.splits if_splits)
qed (simp_all add: send_auth_email_locked verify_auth_code_locked exchange_github_code_locked refresh_session_locked)

text \<open>What a locked-out user gets from the three ways to obtain a session, and from a token.\<close>

lemma locked_out_login:
  assumes "locked_out u w" "get_by_primary_email email (aw_core w) = Some x" "us_id x = u"
  shows "verify_auth_code env io email code agent ip w = (Inl SessionUnauthorized, w)"
  using found_deleted(1) [OF _ assms(2,3)] assms(1,2) by (simp add: verify_auth_code_def locked_out_def)

lemma locked_out_refresh:
  assumes "locked_out u w" "get_session_by_refresh_hash (hash_string (en_lib env) token) (aw_auth w) = Some s"
    and "ss_user_id s = u"
  shows "\<exists>e. refresh_session env io token agent ip w = (Inl e, w)"
proof (cases "refresh_read env io token w")
  case (Inr sj)
  then have r: "refresh_read env io token w = Inr (fst sj, snd sj)" by simp
  with refresh_read_Inr [OF r] assms(2) have "fst sj = s" by simp
  with refresh_read_user [OF r] assms(1,3) found_deleted(2,3) show ?thesis by (metis locked_out_def)
qed (simp add: refresh_session_def)

lemma locked_out_github:
  assumes "locked_out u w" "get_by_primary_email email (aw_core w) = Some x" "us_id x = u"
  shows "github_user io email w = (Inl SessionUnauthorized, w)"
  using found_deleted(1) [OF _ assms(2,3)] assms(1,2) by (simp add: github_user_def locked_out_def)

lemma deleted_locked:
  assumes "user_exists (aw_core w) u"
  shows "locked_out u (snd (delete_account io u w))"
  using mark_deleted(1) [OF assms] by (simp add: locked_out_def delete_account_def revoke_no_live)

lemma locked_out_steps: "(account_step env)\<^sup>*\<^sup>* w w' \<Longrightarrow> locked_out u w \<Longrightarrow> locked_out u w'"
  by (induction rule: rtranclp_induct) (auto intro: account_step_locked)

text \<open>
  C23: After \<open>delete_account\<close>, whatever calls of the authentication services follow, every
  session of the user is revoked, a login code for its primary address is refused, the refresh of
  any of its sessions fails without changing anything, and a GitHub sign-in with its primary
  address is refused.
\<close>

theorem deleted_account_stays_locked_out:
  assumes "user_exists (aw_core w) u"
    and "(account_step env)\<^sup>*\<^sup>* (snd (delete_account io0 u w)) w'"
  shows "no_live_session u (aw_auth w') \<and>
    (\<forall>email x io code agent ip. get_by_primary_email email (aw_core w') = Some x \<longrightarrow> us_id x = u \<longrightarrow>
        verify_auth_code env io email code agent ip w' = (Inl SessionUnauthorized, w') \<and>
        github_user io email w' = (Inl SessionUnauthorized, w')) \<and>
    (\<forall>token s io agent ip.
        get_session_by_refresh_hash (hash_string (en_lib env) token) (aw_auth w') = Some s \<longrightarrow> ss_user_id s = u \<longrightarrow>
        (\<exists>e. refresh_session env io token agent ip w' = (Inl e, w')))"
proof -
  have l: "locked_out u w'" using locked_out_steps [OF assms(2) deleted_locked [OF assms(1)]] .
  then have "no_live_session u (aw_auth w')" by (simp add: locked_out_def)
  moreover note locked_out_login [OF l] locked_out_refresh [OF l] locked_out_github [OF l]
  ultimately show ?thesis by blast
qed

theorem deleted_account_stays_locked_out_witness:
  "\<exists>e. refresh_session demo_env (demo_io 0) ''old'' None None (snd (delete_account (demo_io 0) 9 demo_world))
     = (Inl e, snd (delete_account (demo_io 0) 9 demo_world))"
proof -
  let ?w = "snd (delete_account (demo_io 0) 9 demo_world)"
  have "user_exists (aw_core demo_world) 9"
    by (simp add: demo_world_def user_exists_def demo_store_def demo_user_def)
  note d = deleted_account_stays_locked_out [OF this rtranclp.rtrancl_refl]
  have "get_session_by_refresh_hash (hash_string (en_lib demo_env) ''old'') (aw_auth ?w)
      = Some (demo_session\<lparr>ss_revoked_at := Some 0\<rparr>)"
    by (simp add: delete_account_def get_session_by_refresh_hash_def revoke_sessions_by_user_def demo_world_def
        empty_auth_def demo_session_def demo_io_def)
  with d show ?thesis by (metis demo_session_def session.select_convs(2) session.update_convs(9))
qed

section \<open>What deletion leaves behind\<close>

text \<open>
  Deleting an account does not end its access tokens: \<open>validate_token\<close> answers every
  token as before, and a device that the user approved before still gets a new token.
\<close>

theorem deletion_leaves_access_tokens:
  "map_option fst (validate_token env now token ty (snd (delete_account io u w))) =
     map_option fst (validate_token env now token ty w) \<and>
   map_prod (map_sum id to_access_token) (\<lambda>w. db_tokens (aw_auth w))
       (poll_token env io' code (snd (delete_account io u w))) =
     map_prod (map_sum id to_access_token) (\<lambda>w. db_tokens (aw_auth w)) (poll_token env io' code w)"
proof
  show "map_option fst (validate_token env now token ty (snd (delete_account io u w))) =
     map_option fst (validate_token env now token ty w)"
    by (simp add: validate_token_def delete_account_def get_token_by_hash_def revoke_sessions_by_user_def
        split: option.split bool.split)
  have "rel_option (\<lambda>x y. us_name x = us_name y \<and> us_emails x = us_emails y)
      (user_get_by_id i (mark_user_as_deleted t u db)) (user_get_by_id i db)" for i t db
    by (cases "find (\<lambda>u. us_id u = i) (db_users db)")
      (simp_all add: user_get_by_id_def mark_user_as_deleted_def find_update_where_same user_view_def
        user_row.defs user.defs emails_of_def)
  note same = this [of _ "io_now io" "aw_core w"]
  have "map_prod (map_sum id to_access_token) (\<lambda>w. db_tokens (aw_auth w))
       (poll_exchange env io' d (snd (delete_account io u w))) =
     map_prod (map_sum id to_access_token) (\<lambda>w. db_tokens (aw_auth w)) (poll_exchange env io' d w)" for d
  proof (cases "da_user_id d")
    case (Some i)
    with same [of i] show ?thesis
      by (cases "user_get_by_id i (aw_core w)"; cases "user_get_by_id i (aw_core (snd (delete_account io u w)))")
        (auto simp: poll_exchange_def delete_account_def primary_email_def create_token_def checked_def Let_def
          case_prod_beta revoke_sessions_by_user_def expire_device_authorization_def split: option.split)
  qed (simp add: poll_exchange_def delete_account_def revoke_sessions_by_user_def)
  then show "map_prod (map_sum id to_access_token) (\<lambda>w. db_tokens (aw_auth w))
       (poll_token env io' code (snd (delete_account io u w))) =
     map_prod (map_sum id to_access_token) (\<lambda>w. db_tokens (aw_auth w)) (poll_token env io' code w)"
    by (auto simp: poll_token_def poll_read_def delete_account_def revoke_sessions_by_user_def
        get_device_by_device_code_hash_def expire_device_authorization_def
        split: sum.split device_status.split)
qed

end
