(* ===== verification/DeviceProps.thy ===== *)
theory DeviceProps
  imports AccountProps
begin

text \<open>
  The device flow as a state machine: pending, authorized, expired, where expired is final. One
  token comes out of it to callers that poll one after the other; callers that both read the
  authorization before either expires it get one each.
\<close>

section \<open>Expired is final\<close>

definition device_spent :: "auth_env \<Rightarrow> string \<Rightarrow> auth_world \<Rightarrow> bool" where
  "device_spent env code w \<longleftrightarrow> (\<exists>d. poll_read env code w = Inr d \<and> da_status d = DeviceExpired)"

definition device_row :: "auth_env \<Rightarrow> string \<Rightarrow> auth_world \<Rightarrow> device_authorization option" where
  "device_row env code w = get_device_by_device_code_hash (hash_string (en_lib env) code) (aw_auth w)"

lemma device_spent_row:
  "device_spent env code w \<longleftrightarrow> (\<exists>d. device_row env code w = Some d \<and> da_status d = DeviceExpired)"
  by (auto simp: device_spent_def poll_read_def device_row_def Let_def)

lemma spent_poll:
  assumes "device_spent env code w"
  shows "poll_token env io code w = (Inl (DeviceTokenExpired ''device_code''), w)"
  using assms by (auto simp: device_spent_def poll_token_def)

lemma device_spent_cong:
  "db_devices (aw_auth w') = db_devices (aw_auth w) \<Longrightarrow> device_spent env code w \<Longrightarrow> device_spent env code w'"
  by (simp add: device_spent_row device_row_def get_device_by_device_code_hash_def)

text \<open>The writes to the table of devices.\<close>

lemma spent_update:
  assumes "device_spent env code w"
    and "db_devices (aw_auth w') = update_where p f (db_devices (aw_auth w))"
    and "\<And>d. da_device_code_hash (f d) = da_device_code_hash d"
    and "\<And>d. p d \<Longrightarrow> da_status d = DeviceExpired \<Longrightarrow> da_status (f d) = DeviceExpired"
  shows "device_spent env code w'"
proof -
  obtain d where "device_row env code w = Some d" "da_status d = DeviceExpired"
    using assms(1) by (auto simp: device_spent_row)
  then show ?thesis
    using assms(2-4)
    by (simp add: device_spent_row device_row_def get_device_by_device_code_hash_def find_update_where_same)
qed

lemma spent_expire:
  "device_spent env code w \<Longrightarrow>
   db_devices (aw_auth w') = db_devices (expire_device_authorization i (aw_auth w)) \<Longrightarrow> device_spent env code w'"
  by (rule spent_update [where p = "\<lambda>d. da_id d = i" and f = "\<lambda>d. d\<lparr>da_status := DeviceExpired\<rparr>"])
    (simp_all add: expire_device_authorization_def)

lemma spent_append:
  "device_spent env code w \<Longrightarrow> db_devices (aw_auth w') = db_devices (aw_auth w) @ [d] \<Longrightarrow> device_spent env code w'"
  by (auto simp: device_spent_row device_row_def get_device_by_device_code_hash_def find_append)

lemma poll_devices:
  assumes "poll_token env io code w = (r, w')"
  shows "db_devices (aw_auth w') = db_devices (aw_auth w) \<or>
    (\<exists>i. db_devices (aw_auth w') = db_devices (expire_device_authorization i (aw_auth w)))"
  using assms
  by (auto simp: poll_token_def poll_exchange_def create_token_def checked_def Let_def expire_device_authorization_def
      split: sum.splits if_splits device_status.splits option.splits prod.splits)

lemma authorize_devices:
  assumes "authorize_device env io code v w = (r, w')"
  shows "db_devices (aw_auth w') = db_devices (aw_auth w) \<or>
    (\<exists>p. (\<forall>d. p d \<longrightarrow> da_status d = DevicePending) \<and>
      db_devices (aw_auth w') = update_where p (\<lambda>d. d\<lparr>da_status := DeviceAuthorized, da_user_id := Some v\<rparr>)
        (db_devices (aw_auth w)))"
proof -
  define p :: "device_authorization \<Rightarrow> bool" where "p = (\<lambda>d. da_user_code_hash d = hash_string (en_lib env) code \<and> da_status d = DevicePending \<and>
    io_now io < da_expires_at d)"
  have "\<forall>d. p d \<longrightarrow> da_status d = DevicePending" by (simp add: p_def)
  moreover have "db_devices (aw_auth w') = db_devices (aw_auth w) \<or>
      db_devices (aw_auth w') = update_where p (\<lambda>d. d\<lparr>da_status := DeviceAuthorized, da_user_id := Some v\<rparr>)
        (db_devices (aw_auth w))"
    using assms
    by (cases "find p (db_devices (aw_auth w))"; cases "user_exists (aw_core w) v")
      (auto simp: authorize_device_def authorize_device_row_def Let_def p_def)
  ultimately show ?thesis by blast
qed

section \<open>Calls that leave the devices alone\<close>

lemma create_session_devices: "db_devices (snd (create_session core i now v h f a p e db)) = db_devices db"
  by (auto simp: create_session_def Let_def checked_def)

lemma open_session_devices: "db_devices (aw_auth (snd (open_session env io v agent ip w))) = db_devices (aw_auth w)"
  using create_session_devices
  by (auto simp: open_session_def Let_def case_prod_beta split: sum.split)

lemma send_code_devices: "db_devices (aw_auth (snd (send_code env io email v w))) = db_devices (aw_auth w)"
  by (auto simp: send_code_def create_auth_code_def invalidate_auth_codes_def checked_def Let_def
      split: prod.split option.split)

lemma verify_code_devices:
  "verify_and_consume_auth_code now v h m db = (r, db') \<Longrightarrow> db_devices db' = db_devices db"
  by (auto simp: verify_and_consume_auth_code_def Let_def split: option.splits if_splits)

lemma email_code_devices:
  "verify_and_consume_email_code k now v email h m (core, db) = (r, core', db') \<Longrightarrow> db_devices db' = db_devices db"
  by (auto simp: verify_and_consume_email_code_def Let_def split: option.splits if_splits sum.splits prod.splits)

lemma issue_code_devices:
  "db_devices (aw_auth (snd (issue_and_send_code env io v email w))) = db_devices (aw_auth w)"
  by (auto simp: issue_and_send_code_def create_code_def invalidate_codes_for_email_def checked_def Let_def
      split: sum.split bool.split option.split prod.split)

lemma send_auth_email_devices:
  "db_devices (aw_auth (snd (send_auth_email env io email w))) = db_devices (aw_auth w)"
proof -
  have "db_devices (aw_auth (snd (then_do (find_or_create_user env io email (w\<lparr>aw_cache := c\<rparr>)) (\<lambda>found w1.
      case found of None \<Rightarrow> (Inr (), w1) | Some user \<Rightarrow> send_code env io email user w1)))) = db_devices (aw_auth w)" for c
    by (rule then_do_inv [where P = "\<lambda>w'. db_devices (aw_auth w') = db_devices (aw_auth w)"])
      (simp_all add: find_or_create_auth send_code_devices split: option.split)
  then show ?thesis by (simp add: send_auth_email_def split: prod.split sum.split bool.split)
qed

lemma verify_auth_code_devices:
  "db_devices (aw_auth (snd (verify_auth_code env io email code agent ip w))) = db_devices (aw_auth w)"
proof (cases "get_by_primary_email email (aw_core w)")
  case (Some user)
  obtain v auth where v: "verify_and_consume_auth_code (io_now io) (us_id user) (hash_string (en_lib env) code)
      MAX_AUTH_CODE_ATTEMPTS (aw_auth w) = (v, auth)" by (metis prod.collapse)
  have "db_devices (aw_auth (snd (then_do (open_session env io (us_id user) agent ip
      (w\<lparr>aw_core := core, aw_auth := auth\<rparr>)) (\<lambda>t w1. (g t, w1))))) = db_devices auth"
    for g :: "string \<Rightarrow> session_error + auth_tokens" and core
    by (rule then_do_inv [where P = "\<lambda>w'. db_devices (aw_auth w') = db_devices auth"])
      (simp_all add: open_session_devices)
  with Some v verify_code_devices [OF v] show ?thesis
    by (auto simp: verify_auth_code_def split: auth_code_verification.split sum.split prod.split)
qed (simp add: verify_auth_code_def)

lemma exchange_github_code_devices:
  "db_devices (aw_auth (snd (exchange_github_code env io code state agent ip w))) = db_devices (aw_auth w)"
proof -
  let ?P = "\<lambda>w'. db_devices (aw_auth w') = db_devices (aw_auth w)"
  have "?P (snd (github_user io email w))" for email
    by (simp add: github_user_def split: option.split sum.split prod.split)
  moreover have "?P (snd (then_do (open_session env io u agent ip w1) (\<lambda>t w. (g t, w))))"
    if "?P w1" for u w1 and g :: "string \<Rightarrow> session_error + auth_tokens"
    using that by (intro then_do_inv [where P = ?P]) (simp_all add: open_session_devices)
  ultimately show ?thesis
    unfolding exchange_github_code_def
    by (auto simp: Let_def split: sum.split option.split intro!: then_do_inv [where P = ?P])
qed

lemma refresh_session_devices:
  "db_devices (aw_auth (snd (refresh_session env io token agent ip w))) = db_devices (aw_auth w)"
proof -
  let ?P = "\<lambda>w'. db_devices (aw_auth w') = db_devices (aw_auth w)"
  have "?P (snd (refresh_replay env io call s jwt w'))" if "?P w'" for s jwt w' call
    using that by (auto simp: refresh_replay_def reuse_detected_def revoke_sessions_by_family_def
        split: sum.split option.split)
  moreover have "?P (snd (refresh_persist env io expiry s agent ip jwt w'))" if "?P w'" for s jwt w' expiry
    using that create_session_devices
    by (auto simp: refresh_persist_def Let_def case_prod_beta revoke_session_def split: sum.split)
  ultimately show ?thesis
    unfolding refresh_session_def
    by (auto simp: refresh_claim_auth split: sum.split intro!: then_do_inv [where P = ?P])
qed

section \<open>One token for each device code\<close>

lemma account_step_spent:
  assumes "account_step env w w'" "device_spent env code w"
  shows "device_spent env code w'"
  using assms
proof cases
  case (logout io token)
  then show ?thesis
    by (auto simp: logout_def Let_def revoke_session_def intro!: device_spent_cong [OF _ assms(2)] split: option.split)
next
  case (delete io v)
  then show ?thesis
    by (auto simp: delete_account_def revoke_sessions_by_user_def intro!: device_spent_cong [OF _ assms(2)])
next
  case (add io v email)
  then show ?thesis
    by (auto simp: add_email_def issue_code_devices intro!: device_spent_cong [OF _ assms(2)])
next
  case (verify io v email c)
  obtain r core auth where "verify_and_consume_email_code (io_email_ids io 0) (io_now io) v email
      (hash_string (en_lib env) c) MAX_EMAIL_CODE_ATTEMPTS (aw_core w, aw_auth w) = (r, core, auth)"
    by (metis prod.collapse)
  with verify email_code_devices [OF this] show ?thesis
    by (auto simp: verify_email_def intro!: device_spent_cong [OF _ assms(2)])
next
  case (device io client_id url)
  show ?thesis
    using device assms(2)
    by (auto simp: request_device_code_def create_device_authorization_def checked_def Let_def case_prod_beta
        intro: device_spent_cong spent_append split: sum.split)
next
  case (poll io c)
  obtain r w1 where "poll_token env io c w = (r, w1)" by (metis prod.collapse)
  with poll poll_devices [OF this] show ?thesis
    using assms(2) by (auto intro: device_spent_cong spent_expire)
next
  case (approve io c v)
  obtain r w1 where a: "authorize_device env io c v w = (r, w1)" by (metis prod.collapse)
  from authorize_devices [OF a] show ?thesis
  proof
    assume "db_devices (aw_auth w1) = db_devices (aw_auth w)"
    with approve a show ?thesis by (auto intro!: device_spent_cong [OF _ assms(2)])
  next
    assume "\<exists>p. (\<forall>d. p d \<longrightarrow> da_status d = DevicePending) \<and> db_devices (aw_auth w1) =
      update_where p (\<lambda>d. d\<lparr>da_status := DeviceAuthorized, da_user_id := Some v\<rparr>) (db_devices (aw_auth w))"
    then obtain p where "\<forall>d. p d \<longrightarrow> da_status d = DevicePending" and "db_devices (aw_auth w1) =
      update_where p (\<lambda>d. d\<lparr>da_status := DeviceAuthorized, da_user_id := Some v\<rparr>) (db_devices (aw_auth w))"
      by blast
    with approve a show ?thesis by (auto intro!: spent_update [OF assms(2)])
  qed
next
  case (access now token ty r)
  then show ?thesis
    by (auto simp: validate_token_def touch_token_def intro!: device_spent_cong [OF _ assms(2)]
        split: option.splits bool.splits if_splits)
qed (auto simp: send_auth_email_devices verify_auth_code_devices exchange_github_code_devices
    refresh_session_devices intro!: device_spent_cong [OF _ assms(2)])

lemma poll_success:
  assumes "poll_token env io code w = (Inr r, w')"
  shows "\<exists>d. poll_read env code w = Inr d \<and> da_status d = DeviceAuthorized \<and> poll_exchange env io d w = (Inr r, w')"
  using assms by (auto simp: poll_token_def split: sum.splits if_splits device_status.splits)

lemma poll_exchange_Inr:
  assumes "poll_exchange env io d w = (Inr r, w')"
  shows "(r, w') = (r\<lparr>to_access_token := fst (generate_access_token (en_lib env) PersonalToken (io_bytes io))\<rparr>,
      w\<lparr>aw_auth := expire_device_authorization (da_id d) ((aw_auth w)\<lparr>db_tokens := db_tokens (aw_auth w) @
        [\<lparr>at_id = io_id io, at_principal_id = the (da_user_id d), at_client_id = da_client_id d,
          at_token_hash = snd (generate_access_token (en_lib env) PersonalToken (io_bytes io)),
          at_token_type = PersonalToken, at_created_at = io_now io, at_last_used_at = None\<rparr>]\<rparr>)\<rparr>)"
  using assms
  by (auto simp: poll_exchange_def create_token_def checked_def Let_def case_prod_beta
      split: option.splits if_splits)

lemma exchange_spends:
  assumes "poll_read env code w = Inr d" "poll_exchange env io d w = (Inr r, w')"
  shows "device_spent env code w'"
proof -
  have "device_row env code w = Some d" using assms(1) by (simp add: poll_read_def device_row_def Let_def)
  then have "device_row env code w' = Some (d\<lparr>da_status := DeviceExpired\<rparr>)"
    using poll_exchange_Inr [OF assms(2)]
    by (simp add: device_row_def get_device_by_device_code_hash_def expire_device_authorization_def
        find_update_where_same)
  then show ?thesis by (simp add: device_spent_row)
qed

text \<open>
  C25: Once \<open>poll_token\<close> has handed out a token for a device code, no later poll of that code
  does, whatever calls come in between: every one answers \<open>TokenExpired\<close>. But the read and the
  exchange of a poll are separate statements: a second caller that read the authorization before
  the first expired it gets a second token of its own, and both are stored.
\<close>

theorem device_code_yields_one_token:
  assumes "poll_token env io code w = (Inr r, w1)"
  shows "(\<forall>w' io'. (account_step env)\<^sup>*\<^sup>* w1 w' \<longrightarrow>
        poll_token env io' code w' = (Inl (DeviceTokenExpired ''device_code''), w')) \<and>
    (\<forall>(io2 :: io) d. poll_read env code w = Inr d \<longrightarrow> tokens_ok (db_tokens (aw_auth w1)) \<longrightarrow>
        io_id io2 \<notin> at_id ` set (db_tokens (aw_auth w1)) \<longrightarrow>
        snd (generate_access_token (en_lib env) PersonalToken (io_bytes io2))
          \<notin> at_token_hash ` set (db_tokens (aw_auth w1)) \<longrightarrow>
        (\<exists>r2 w2. poll_exchange env io2 d w1 = (Inr r2, w2) \<and>
           length (db_tokens (aw_auth w2)) = length (db_tokens (aw_auth w)) + 2))"
proof (intro conjI allI impI)
  obtain d where d: "poll_read env code w = Inr d" "poll_exchange env io d w = (Inr r, w1)"
    using poll_success [OF assms] by blast
  fix w' io' assume "(account_step env)\<^sup>*\<^sup>* w1 w'"
  then have "device_spent env code w'"
    by (induction rule: rtranclp_induct) (auto intro: exchange_spends [OF d] account_step_spent)
  then show "poll_token env io' code w' = (Inl (DeviceTokenExpired ''device_code''), w')"
    by (rule spent_poll)
next
  fix io2 :: io and d
  assume d: "poll_read env code w = Inr d" and ok: "tokens_ok (db_tokens (aw_auth w1))"
    and fresh: "io_id io2 \<notin> at_id ` set (db_tokens (aw_auth w1))"
      "snd (generate_access_token (en_lib env) PersonalToken (io_bytes io2))
        \<notin> at_token_hash ` set (db_tokens (aw_auth w1))"
  have e: "poll_exchange env io d w = (Inr r, w1)" using poll_success [OF assms] d by simp
  from ok fresh poll_exchange_Inr [OF e] have "tokens_ok (db_tokens (aw_auth w1) @
      [\<lparr>at_id = io_id io2, at_principal_id = p, at_client_id = c,
        at_token_hash = snd (generate_access_token (en_lib env) PersonalToken (io_bytes io2)),
        at_token_type = PersonalToken, at_created_at = io_now io2, at_last_used_at = None\<rparr>])" for p c
    by (auto simp: tokens_ok_def)
  moreover have "aw_core w1 = aw_core w" "length (db_tokens (aw_auth w1)) = length (db_tokens (aw_auth w)) + 1"
    using poll_exchange_Inr [OF e] by (simp_all add: expire_device_authorization_def)
  ultimately show "\<exists>r2 w2. poll_exchange env io2 d w1 = (Inr r2, w2) \<and>
      length (db_tokens (aw_auth w2)) = length (db_tokens (aw_auth w)) + 2"
    using e
    by (auto simp: poll_exchange_def create_token_def checked_def Let_def case_prod_beta
        expire_device_authorization_def split: option.splits if_splits)
qed

definition device_world :: auth_world where
  "device_world = demo_world\<lparr>
     aw_core := demo_store\<lparr>db_emails := [\<lparr>em_id = 1, em_user_id = 9, em_email = ''al@x.io'', em_is_primary = True,
        em_is_verified = True, em_created_at = 0, em_verified_at = Some 0\<rparr>]\<rparr>,
     aw_auth := empty_auth\<lparr>db_devices := [\<lparr>da_id = 1, da_device_code_hash = ''#dev'', da_user_code_hash = ''#usr'',
        da_client_id = ''cli'', da_user_id = Some 9, da_status = DeviceAuthorized, da_created_at = 0,
        da_expires_at = 600\<rparr>]\<rparr>\<rparr>"

theorem device_code_yields_one_token_witness:
  "\<exists>r w1. poll_token demo_env (demo_io 0) ''dev'' device_world = (Inr r, w1) \<and>
     fst (poll_token demo_env (demo_io 1) ''dev'' w1) = Inl (DeviceTokenExpired ''device_code'')"
proof -
  have "\<exists>r w1. poll_token demo_env (demo_io 0) ''dev'' device_world = (Inr r, w1)"
    by (auto simp: poll_token_def poll_read_def poll_exchange_def Let_def device_world_def empty_auth_def demo_io_def
        get_device_by_device_code_hash_def user_get_by_id_def demo_store_def demo_user_def user_view_def
        user_row.defs user.defs emails_of_def primary_email_def user_email.defs create_token_def checked_def
        tokens_ok_def case_prod_beta)
  then obtain r w1 where p: "poll_token demo_env (demo_io 0) ''dev'' device_world = (Inr r, w1)" by blast
  from device_code_yields_one_token [OF p] p show ?thesis by (metis fst_conv rtranclp.rtrancl_refl)
qed

end
