(* ===== verification/MailProps.thy ===== *)
theory MailProps
  imports AccountProps
begin

text \<open>
  The way of an address code from the mail back to the server: the mailed code verifies the
  address, once, and the address is taken from then on.
\<close>

section \<open>Writing the verified address\<close>

lemma distinct_map_iff: "distinct xs \<Longrightarrow> distinct (map f xs) \<longleftrightarrow> inj_on f (set xs)"
  by (simp add: distinct_map)

lemma set_verified_fields [simp]:
  "em_id (set_verified now e) = em_id e" "em_user_id (set_verified now e) = em_user_id e"
  "em_email (set_verified now e) = em_email e" "em_is_primary (set_verified now e) = em_is_primary e"
  "em_is_verified (set_verified now e)"
  by (simp_all add: set_verified_def)

lemma verify_row_ok:
  fixes now :: time and u :: uuid
  assumes ok: "emails_ok es" and free: "\<not> list_ex (\<lambda>e. em_email e = m \<and> em_is_verified e) es"
  defines "es' \<equiv> update_where (\<lambda>e. em_user_id e = u \<and> em_email e = m) (set_verified now) es"
  shows "emails_ok es'"
proof -
  let ?p = "\<lambda>e. em_user_id e = u \<and> em_email e = m"
  have ids: "map em_id es' = map em_id es"
    and pairs: "map (\<lambda>e. (em_user_id e, em_email e)) es' = map (\<lambda>e. (em_user_id e, em_email e)) es"
    and prim: "map em_user_id (filter em_is_primary es') = map em_user_id (filter em_is_primary es)"
    by (simp_all add: es'_def table_simps filter_update_where)
  have "distinct (map em_id es)" using ok by (simp add: emails_ok_def)
  then have d: "distinct es" "distinct es'" using distinct_map ids by metis+
  have one: "e = e'" if "e \<in> set es" "e' \<in> set es" "?p e" "?p e'" for e e'
    using ok that key_inj [of "\<lambda>e. (em_user_id e, em_email e)" es e e'] by (auto simp: emails_ok_def)
  have old: "e = e'" if "e \<in> set es" "e' \<in> set es" "em_is_verified e" "em_is_verified e'" "em_email e = em_email e'" for e e'
    using ok that key_inj [of em_email "filter em_is_verified es" e e'] by (auto simp: emails_ok_def)
  have mem: "x \<in> set es' \<Longrightarrow> \<exists>e \<in> set es. x = (if ?p e then set_verified now e else e)" for x
    unfolding es'_def set_update_where by (rule iffD1 [OF image_iff])
  have "inj_on em_email (set (filter em_is_verified es'))"
  proof (rule inj_onI)
    fix x y assume "x \<in> set (filter em_is_verified es')" "y \<in> set (filter em_is_verified es')" and xy: "em_email x = em_email y"
    then have "x \<in> set es'" "y \<in> set es'" and v: "em_is_verified x" "em_is_verified y" by simp_all
    with mem obtain e e' where e: "e \<in> set es" "x = (if ?p e then set_verified now e else e)"
      and e': "e' \<in> set es" "y = (if ?p e' then set_verified now e' else e')" by blast
    note e = e v(1) and e' = e' v(2)
    show "x = y"
    proof (cases "em_email x = m")
      case True
      with e e' free xy have "?p e" "?p e'" by (auto simp: list_ex_iff split: if_splits)
      with one e e' show ?thesis by metis
    next
      case False
      with e e' xy have "x = e" "y = e'" by (auto split: if_splits)
      with old [OF e(1) e'(1)] v xy show ?thesis by simp
    qed
  qed
  then have "distinct (map em_email (filter em_is_verified es'))"
    using d by (simp add: distinct_map)
  with ok show ?thesis by (simp add: emails_ok_def ids pairs prim)
qed

lemma upsert_verified_free:
  assumes ok: "emails_ok (db_emails core)" and free: "\<not> is_email_taken m core"
    and u: "user_exists core u" and k: "k \<notin> em_id ` set (db_emails core)"
  shows "\<exists>row core'. upsert_verified k now u m core = (Inr row, core') \<and> em_email row = m \<and> em_is_verified row \<and>
    is_email_taken m core'"
proof -
  let ?p = "\<lambda>e. em_user_id e = u \<and> em_email e = m"
  let ?new = "\<lparr>em_id = k, em_user_id = u, em_email = m, em_is_primary = False,
      em_is_verified = True, em_created_at = now, em_verified_at = Some now\<rparr>"
  define es where "es = (if list_ex ?p (db_emails core) then update_where ?p (set_verified now) (db_emails core)
    else db_emails core @ [?new])"
  have "emails_ok es"
  proof (cases "list_ex ?p (db_emails core)")
    case True
    with verify_row_ok [OF ok, of m u now] free show ?thesis by (simp add: es_def is_email_taken_def)
  next
    case False
    with ok free k show ?thesis
      by (auto simp: es_def emails_ok_def is_email_taken_def list_ex_iff image_iff)
  qed
  moreover have "\<exists>e. find ?p es = Some e \<and> em_email e = m \<and> em_is_verified e"
  proof (cases "list_ex ?p (db_emails core)")
    case True
    then obtain e where "find ?p (db_emails core) = Some e"
      by (metis (mono_tags, lifting) find_None_iff list_ex_iff not_None_eq)
    with True find_SomeD [OF this] show ?thesis by (simp add: es_def find_update_where_same)
  next
    case False
    then have "find ?p (db_emails core) = None" by (auto simp: find_None_iff list_ex_iff)
    with False show ?thesis by (auto simp: es_def find_append)
  qed
  then obtain e where e: "find ?p es = Some e" "em_email e = m" "em_is_verified e" by blast
  moreover have "list_ex (\<lambda>e. em_email e = m \<and> em_is_verified e) es"
    using find_SomeD [OF e(1)] e(2,3) by (auto simp: list_ex_iff)
  ultimately show ?thesis
    using u by (auto simp: upsert_verified_def Let_def checked_def is_email_taken_def es_def user_email.defs
        simp flip: es_def)
qed

section \<open>From the mail back to the server\<close>

lemma issue_success:
  assumes "issue_and_send_code env io u m w = (Inr (), w1)"
    and inv: "one_email_code (aw_core w, aw_auth w)"
  defines "code \<equiv> map (\<lambda>i. readable_alphabet ! i) (io_idx io)"
  shows "aw_core w1 = aw_core w" and "aw_mail w1 = aw_mail w @ [(m, code)]" and "user_exists (aw_core w) u"
    and "one_email_code (aw_core w1, aw_auth w1)"
    and "email_slot (aw_core w1, aw_auth w1) (u, m) =
      Some (hash_string (en_lib env) code, 0, io_now io + seconds get_auth_code_expiry_in_seconds)"
proof -
  obtain c auth2 where cr: "create_code (aw_core w) (io_id io) (io_now io) u m (hash_string (en_lib env) code)
      (io_now io + seconds get_auth_code_expiry_in_seconds)
      (invalidate_codes_for_email (io_now io) u m (aw_auth w)) = (Inr c, auth2)"
    and w1: "aw_core w1 = aw_core w" "aw_auth w1 = auth2" "aw_mail w1 = aw_mail w @ [(m, code)]"
    using assms(1)
    by (auto simp: issue_and_send_code_def generate_readable_code_def code_def Let_def
        split: prod.splits sum.splits bool.splits option.splits)
  then show "aw_core w1 = aw_core w" "aw_mail w1 = aw_mail w @ [(m, code)]" by simp_all
  show "user_exists (aw_core w) u"
    using cr by (auto simp: create_code_def Let_def checked_def split: if_splits)
  have "email_issue (io_id io, io_now io) (u, m) (hash_string (en_lib env) code)
      (io_now io + seconds get_auth_code_expiry_in_seconds) (aw_core w, aw_auth w)
    = (Inr c, aw_core w1, aw_auth w1)"
    using cr w1 by (simp add: email_issue_def)
  from email_issue_step [OF inv this]
  show "one_email_code (aw_core w1, aw_auth w1)" "email_slot (aw_core w1, aw_auth w1) (u, m) =
      Some (hash_string (en_lib env) code, 0, io_now io + seconds get_auth_code_expiry_in_seconds)"
    by simp_all
qed

text \<open>What a guess answers, read off the service.\<close>

lemma verify_email_guess:
  "verify_email env io u m code w =
    (case email_guess (\<lambda>t. io_email_ids io 0) (io_now io) (u, m) (hash_string (en_lib env) code) (aw_core w, aw_auth w) of
       (r, core, auth) \<Rightarrow>
         (case r of
            Inl e \<Rightarrow>
              if is_unique_violation e then Inl (AccountConflict (ConflictError ''email'' (IdStr m)))
              else Inl (AccountDatabaseError e)
          | Inr Accepted \<Rightarrow> fst (verify_email env io u m code w)
          | Inr Exhausted \<Rightarrow> Inl AccountTooManyAttempts
          | Inr Rejected \<Rightarrow> Inl AccountInvalidCode
          | Inr NoCode \<Rightarrow> Inl AccountInvalidCode, w\<lparr>aw_core := core, aw_auth := auth\<rparr>))"
  by (auto simp: verify_email_def email_guess_def split: prod.split sum.split email_code_verification.split)

text \<open>
  C26: When \<open>add_email\<close> succeeds it has mailed a code, and within ten minutes that code, sent
  back by the same user, verifies the address; from then on the code is refused and the address
  is taken for everybody.
\<close>

theorem mailed_code_verifies_the_address:
  assumes "add_email env io u m w = (Inr (), w1)"
    and inv: "one_email_code (aw_core w, aw_auth w)" and ok: "emails_ok (db_emails (aw_core w))"
    and t: "io_now io' < io_now io + seconds 600" and k: "io_email_ids io' 0 \<notin> em_id ` set (db_emails (aw_core w))"
  shows "\<exists>code resp w2. aw_mail w1 = aw_mail w @ [(m, code)] \<and>
    verify_email env io' u m code w1 = (Inr resp, w2) \<and> er_email resp = m \<and> er_is_verified resp \<and>
    (\<forall>io2. fst (verify_email env io2 u m code w2) = Inl AccountInvalidCode) \<and>
    (\<forall>io2 v. add_email env io2 v m w2 = (Inl (AccountConflict (ConflictError ''email'' (IdStr m))), w2))"
proof -
  have free: "\<not> is_email_taken m (aw_core w)" and iss: "issue_and_send_code env io u m w = (Inr (), w1)"
    using assms(1) by (auto simp: add_email_def split: if_splits)
  define code where "code = map (\<lambda>i. readable_alphabet ! i) (io_idx io)"
  note s = issue_success [OF iss inv, folded code_def]
  obtain c where c: "find (unused_email_code (u, m)) (db_email_codes (aw_auth w1)) = Some c"
      "ec_code_hash c = hash_string (en_lib env) code" "io_now io' < ec_expires_at c"
    using s(5) t by (auto simp: email_slot_def get_auth_code_expiry_in_seconds_def AUTH_CODE_EXPIRY_MINUTES_def)
  obtain row core' where up: "upsert_verified (io_email_ids io' 0) (io_now io') u m (aw_core w1) = (Inr row, core')"
      "em_email row = m" "em_is_verified row" "is_email_taken m core'"
    using upsert_verified_free [OF ok free s(3) k] s(1) by metis
  have "active_email_code (io_now io') u m = (\<lambda>c. unused_email_code (u, m) c \<and> io_now io' < ec_expires_at c)"
    by (auto simp: active_email_code_def unused_email_code_def fun_eq_iff)
  then have l: "latest ec_created_at (filter (active_email_code (io_now io') u m) (db_email_codes (aw_auth w1))) = Some c"
    using email_rows.latest_active [of "db_email_codes (aw_auth w1)"] s(4) c by (simp add: one_email_code_def)
  define w2 where "w2 = w1\<lparr>aw_core := core', aw_auth := (aw_auth w1)\<lparr>db_email_codes :=
    update_where (\<lambda>d. ec_id d = ec_id c) (\<lambda>c. c\<lparr>ec_used_at := Some (io_now io')\<rparr>) (db_email_codes (aw_auth w1))\<rparr>\<rparr>"
  have v: "verify_email env io' u m code w1 = (Inr (user_email_response_from row), w2)"
    using l c up(1) by (simp add: verify_email_def verify_and_consume_email_code_def w2_def Let_def)
  have g: "email_guess (\<lambda>t. io_email_ids io' 0) (io_now io') (u, m) (hash_string (en_lib env) code) (aw_core w1, aw_auth w1)
      = (Inr Accepted, aw_core w2, aw_auth w2)"
    using c up(1) by (simp add: email_guess_cases [OF s(4)] w2_def Let_def)
  note st = email_guess_step [OF s(4) g]
  have inv2: "one_email_code (aw_core w2, aw_auth w2)" and none: "email_slot (aw_core w2, aw_auth w2) (u, m) = None"
    using st s(5) c by (auto simp: email_slot_def split: if_splits)
  then have "email_guess fresh now (u, m) h (aw_core w2, aw_auth w2) = (Inr NoCode, aw_core w2, aw_auth w2)" for fresh now h
    by (simp add: email_guess_cases email_slot_def)
  then have "fst (verify_email env io2 u m code w2) = Inl AccountInvalidCode" for io2
    by (subst verify_email_guess) simp
  moreover have "add_email env io2 v m w2 = (Inl (AccountConflict (ConflictError ''email'' (IdStr m))), w2)" for io2 v
    using up(4) by (simp add: add_email_def w2_def)
  ultimately show ?thesis
    using v s(2) up(2,3) by (auto simp: user_email_response_from_def)
qed

theorem mailed_code_verifies_the_address_witness:
  "\<exists>code w1 resp w2. add_email demo_env (demo_io 0) 9 ''al@x.io'' demo_world = (Inr (), w1) \<and>
     aw_mail w1 = [(''al@x.io'', code)] \<and>
     verify_email demo_env (demo_io 1) 9 ''al@x.io'' code w1 = (Inr resp, w2) \<and> er_email resp = ''al@x.io''"
proof -
  have "\<exists>w1. add_email demo_env (demo_io 0) 9 ''al@x.io'' demo_world = (Inr (), w1)"
    by (auto simp: add_email_def issue_and_send_code_def is_email_taken_def demo_world_def demo_store_def empty_core_def
        demo_user_def demo_io_def set_nx_with_ttl_def cmd_set_nx_ex_def live_def create_code_def checked_def
        email_codes_ok_def invalidate_codes_for_email_def empty_auth_def user_exists_def Let_def case_prod_beta)
  then obtain w1 where a: "add_email demo_env (demo_io 0) 9 ''al@x.io'' demo_world = (Inr (), w1)" by blast
  have inv: "one_email_code (aw_core demo_world, aw_auth demo_world)" "emails_ok (db_emails (aw_core demo_world))"
    "io_email_ids (demo_io 1) 0 \<notin> em_id ` set (db_emails (aw_core demo_world))" "aw_mail demo_world = []"
    by (simp_all add: one_email_code_def single_code_def demo_world_def empty_auth_def demo_store_def empty_core_def
        emails_ok_def)
  from mailed_code_verifies_the_address [OF a inv(1,2) _ inv(3)] obtain code resp w2 where
    "aw_mail w1 = aw_mail demo_world @ [(''al@x.io'', code)]"
    "verify_email demo_env (demo_io 1) 9 ''al@x.io'' code w1 = (Inr resp, w2)" "er_email resp = ''al@x.io''"
    by (auto simp: demo_io_def seconds_def)
  with a inv(4) show ?thesis by auto
qed

end
