(* ===== verification/QuestionProps.thy ===== *)
theory QuestionProps
  imports QuestionService
begin

text \<open>
  The score of a question, an answer or a comment is the sum of the votes for it, in every
  reachable state of the question service; two transactions of the same user that overlap break
  this.
\<close>

section \<open>Votes\<close>

definition votes_for :: "uuid \<Rightarrow> vote_row list \<Rightarrow> int" where
  "votes_for i votes = sum_list (map vo_value (filter (\<lambda>v. vo_target_id v = i) votes))"

definition vote_key :: "vote_row \<Rightarrow> uuid \<times> uuid" where
  "vote_key v = (vo_user_id v, vo_target_id v)"

abbreviation is_vote :: "uuid \<Rightarrow> uuid \<Rightarrow> vote_row \<Rightarrow> bool" where
  "is_vote u t v \<equiv> vo_user_id v = u \<and> vo_target_id v = t"

definition old_value :: "uuid \<Rightarrow> uuid \<Rightarrow> vote_row list \<Rightarrow> int" where
  "old_value u t votes = coalesce (map_option vo_value (find (is_vote u t) votes)) 0"

lemma votes_for_simps [simp]:
  "votes_for i [] = 0"
  "votes_for i (v # vs) = (if vo_target_id v = i then vo_value v else 0) + votes_for i vs"
  "votes_for i (vs @ ws) = votes_for i vs + votes_for i ws"
  by (simp_all add: votes_for_def)

lemma is_vote_key: "is_vote u t v \<longleftrightarrow> vote_key v = (u, t)"
  by (simp add: vote_key_def)

lemma votes_for_delete:
  "distinct (map vote_key vs) \<Longrightarrow>
   votes_for i (filter (\<lambda>v. \<not> is_vote u t v) vs) = votes_for i vs - (if i = t then old_value u t vs else 0)"
proof (induction vs)
  case (Cons v vs)
  show ?case
  proof (cases "is_vote u t v")
    case True
    then have "\<forall>w \<in> set vs. \<not> is_vote u t w" using Cons.prems unfolding is_vote_key by (auto simp: image_iff)
    then have "filter (\<lambda>v. \<not> is_vote u t v) vs = vs" by (simp add: filter_id_conv)
    then show ?thesis using True by (auto simp: old_value_def coalesce_def)
  next
    case False
    then have "find (is_vote u t) (v # vs) = find (is_vote u t) vs" by auto
    then have "old_value u t (v # vs) = old_value u t vs" by (simp add: old_value_def)
    then show ?thesis using False Cons by simp
  qed
qed (simp add: old_value_def coalesce_def)

lemma votes_for_replace:
  "distinct (map vote_key vs) \<Longrightarrow>
   votes_for i (update_where (is_vote u t) (\<lambda>v. v\<lparr>vo_value := value\<rparr>) vs)
     = votes_for i vs + (if i = t \<and> list_ex (is_vote u t) vs then value - old_value u t vs else 0)"
proof (induction vs)
  case (Cons v vs)
  show ?case
  proof (cases "is_vote u t v")
    case True
    then have "\<forall>w \<in> set vs. \<not> is_vote u t w" using Cons.prems unfolding is_vote_key by (auto simp: image_iff)
    then have "update_where (is_vote u t) (\<lambda>v. v\<lparr>vo_value := value\<rparr>) vs = vs" by (intro update_where_id) blast
    then show ?thesis using True by (auto simp: old_value_def coalesce_def)
  next
    case False
    then have "find (is_vote u t) (v # vs) = find (is_vote u t) vs" by auto
    then have "old_value u t (v # vs) = old_value u t vs" by (simp add: old_value_def)
    then show ?thesis using False Cons by auto
  qed
qed simp

definition valid_votes :: "vote_row list \<Rightarrow> bool" where
  "valid_votes vs \<longleftrightarrow> distinct (map vote_key vs) \<and> (\<forall>v \<in> set vs. vo_value v = 1 \<or> vo_value v = -1)"

lemma existing_vote:
  "map_option vo_value (find (is_vote u t) vs) \<noteq> None \<longleftrightarrow> list_ex (is_vote u t) vs"
  by (auto simp: find_None_iff list_ex_iff)

text \<open>What replacing a vote changes, also when the value read before is out of date.\<close>

lemma put_vote_Inr:
  assumes "valid_votes vs" and "put_vote now core u t value existing vs = Inr vs'"
    and "existing \<noteq> None \<Longrightarrow> list_ex (is_vote u t) vs"
  shows "valid_votes vs' \<and> vo_target_id ` set vs' \<subseteq> insert t (vo_target_id ` set vs)
    \<and> (\<forall>i. votes_for i vs' = votes_for i vs + (if i = t then value - old_value u t vs else 0))"
proof (cases "value = 0")
  case True
  then have vs': "vs' = filter (\<lambda>v. \<not> is_vote u t v) vs" using assms(2) by (simp add: put_vote_def Let_def)
  have "distinct (map vote_key vs)" using assms(1) by (simp add: valid_votes_def)
  from votes_for_delete [OF this] have "votes_for i vs' = votes_for i vs - (if i = t then old_value u t vs else 0)" for i
    by (simp only: vs')
  moreover have "valid_votes vs'" using assms(1) unfolding vs' by (auto simp: valid_votes_def distinct_map_filter)
  moreover have "vo_target_id ` set vs' \<subseteq> insert t (vo_target_id ` set vs)" unfolding vs' by auto
  ultimately show ?thesis using True by simp
next
  case nz: False
  with assms(2) have v: "value = 1 \<or> value = -1" by (auto simp: put_vote_def Let_def split: if_splits)
  show ?thesis
  proof (cases "existing = None")
    case False
    with assms(2) nz v have vs': "vs' = update_where (is_vote u t) (\<lambda>v. v\<lparr>vo_value := value\<rparr>) vs"
      by (auto simp: put_vote_def Let_def)
    have "map vote_key vs' = map vote_key vs" "vo_target_id ` set vs' = vo_target_id ` set vs"
      unfolding vs' by (simp_all add: table_simps vote_key_def)
    moreover have "\<forall>x \<in> set vs'. vo_value x = 1 \<or> vo_value x = -1"
      using assms(1) v unfolding vs' by (auto simp: ball_update_where valid_votes_def)
    ultimately show ?thesis using assms False unfolding vs' valid_votes_def by (auto simp: votes_for_replace)
  next
    case True
    with assms(2) nz v have none: "\<not> list_ex (is_vote u t) vs"
      and vs': "vs' = vs @ [\<lparr>vo_user_id = u, vo_target_id = t, vo_value = value, vo_created_at = now\<rparr>]"
      by (auto simp: put_vote_def Let_def split: if_splits)
    have "find (is_vote u t) vs = None" using none by (simp add: find_None_iff list_ex_iff)
    then have "old_value u t vs = 0" by (simp add: old_value_def coalesce_def)
    moreover have "(u, t) \<notin> set (map vote_key vs)" using none by (auto simp: list_ex_iff vote_key_def)
    ultimately show ?thesis using assms(1) v unfolding vs' valid_votes_def by (auto simp: vote_key_def)
  qed
qed

section \<open>Scores\<close>

text \<open>Every target of votes, with its score.\<close>

definition scores :: "question_db \<Rightarrow> (uuid \<times> int) list" where
  "scores db = map (\<lambda>q. (qn_id q, qn_upvote q)) (qd_questions db) @ map (\<lambda>a. (an_id a, an_upvote a)) (qd_answers db)
     @ map (\<lambda>c. (co_id c, co_upvote c)) (qd_comments db)"

definition tallied :: "question_db \<Rightarrow> bool" where
  "tallied db \<longleftrightarrow> distinct (map fst (scores db)) \<and> valid_votes (qd_votes db)
     \<and> vo_target_id ` set (qd_votes db) \<subseteq> fst ` set (scores db)
     \<and> (\<forall>(i, n) \<in> set (scores db). n = votes_for i (qd_votes db))"

lemma bump_Inr:
  assumes "bump (\<lambda>r. key r = i) score set_score delta rows = Inr (n, rows')"
    and "distinct (map key rows)"
    and "\<And>n r. key (set_score n r) = key r" "\<And>n r. score (set_score n r) = n"
  shows "map (\<lambda>r. (key r, score r)) rows' = map (\<lambda>(j, m). (j, if j = i then m + delta else m)) (map (\<lambda>r. (key r, score r)) rows)
    \<and> (i, n - delta) \<in> set (map (\<lambda>r. (key r, score r)) rows)"
proof -
  from assms(1) obtain r where r: "find (\<lambda>r. key r = i) rows = Some r" "n = score r + delta"
    "rows' = update_where (\<lambda>r. key r = i) (\<lambda>r. set_score (score r + delta) r) rows"
    by (auto simp: bump_def split: option.splits if_splits)
  then have m: "r \<in> set rows" "key r = i" by (auto dest: find_SomeD)
  have "map (\<lambda>r. (key r, score r)) rows' = map (\<lambda>x. (key x, if key x = i then score x + delta else score x)) rows"
    unfolding r(3) update_where_def by (auto simp: assms(3,4))
  then show ?thesis using m r by force
qed

lemma add_upvote_Inr:
  assumes "add_upvote kind i delta db = Inr (n, db')" and "distinct (map fst (scores db))"
  shows "scores db' = map (\<lambda>(j, m). (j, if j = i then m + delta else m)) (scores db)
    \<and> qd_votes db' = qd_votes db \<and> (i, n - delta) \<in> set (scores db)"
proof -
  have d: "distinct (map qn_id (qd_questions db))" "distinct (map an_id (qd_answers db))" "distinct (map co_id (qd_comments db))"
    using assms(2) by (simp_all add: scores_def comp_def)
  have other: "map (\<lambda>(j, m). (j, if j = i then m + delta else m)) ps = ps" if "i \<notin> fst ` set ps" for ps
    using that by (induction ps) auto
  have apart: "qn_id ` set (qd_questions db) \<inter> an_id ` set (qd_answers db) = {}"
    "qn_id ` set (qd_questions db) \<inter> co_id ` set (qd_comments db) = {}"
    "an_id ` set (qd_answers db) \<inter> co_id ` set (qd_comments db) = {}"
    using assms(2) by (auto simp: scores_def comp_def)
  show ?thesis
  proof (cases kind)
    case QuestionTarget
    then obtain rows where b: "bump (\<lambda>q. qn_id q = i) qn_upvote (\<lambda>n q. q\<lparr>qn_upvote := n\<rparr>) delta (qd_questions db) = Inr (n, rows)"
      and db': "db' = db\<lparr>qd_questions := rows\<rparr>" using assms(1) by (auto simp: map_sum_def split: sum.splits)
    note e = bump_Inr [OF b d(1)]
    then have "i \<in> qn_id ` set (qd_questions db)" by (auto simp: image_iff) 
    then show ?thesis using e apart unfolding db' scores_def by (auto simp: other disjoint_iff image_iff)
  next
    case AnswerTarget
    then obtain rows where b: "bump (\<lambda>a. an_id a = i) an_upvote (\<lambda>n a. a\<lparr>an_upvote := n\<rparr>) delta (qd_answers db) = Inr (n, rows)"
      and db': "db' = db\<lparr>qd_answers := rows\<rparr>" using assms(1) by (auto simp: map_sum_def split: sum.splits)
    note e = bump_Inr [OF b d(2)]
    then have "i \<in> an_id ` set (qd_answers db)" by (auto simp: image_iff)
    then show ?thesis using e apart unfolding db' scores_def by (auto simp: other disjoint_iff image_iff)
  next
    case CommentTarget
    then obtain rows where b: "bump (\<lambda>c. co_id c = i) co_upvote (\<lambda>n c. c\<lparr>co_upvote := n\<rparr>) delta (qd_comments db) = Inr (n, rows)"
      and db': "db' = db\<lparr>qd_comments := rows\<rparr>" using assms(1) by (auto simp: map_sum_def split: sum.splits)
    note e = bump_Inr [OF b d(3)]
    then have "i \<in> co_id ` set (qd_comments db)" by (auto simp: image_iff)
    then show ?thesis using e apart unfolding db' scores_def by (auto simp: other disjoint_iff image_iff)
  qed
qed

section \<open>What the operations keep\<close>

text \<open>The effect of a vote, also when the vote read before is out of date.\<close>

lemma vote_write_outcome:
  assumes "tallied db" and "vote_write now core u t kind value existing db = (res, db')"
    and "existing \<noteq> None \<Longrightarrow> list_ex (is_vote u t) (qd_votes db)"
  shows "case res of Inl _ \<Rightarrow> db' = db
    | Inr r \<Rightarrow> valid_votes (qd_votes db') \<and> vo_target_id ` set (qd_votes db') \<subseteq> fst ` set (scores db)
        \<and> (\<forall>i. votes_for i (qd_votes db') = votes_for i (qd_votes db) + (if i = t then value - old_value u t (qd_votes db) else 0))
        \<and> scores db' = map (\<lambda>(j, m). (j, if j = t then m + (value - coalesce existing 0) else m)) (scores db)
        \<and> (t, vx_new_score r) \<in> set (scores db')"
proof (cases "put_vote now core u t value existing (qd_votes db)")
  case (Inl e)
  then show ?thesis using assms(2) by (auto simp: vote_write_def)
next
  case (Inr votes)
  note p = put_vote_Inr [OF _ Inr assms(3)]
  let ?db = "db\<lparr>qd_votes := votes\<rparr>"
  show ?thesis
  proof (cases "add_upvote kind t (value - coalesce existing 0) ?db")
    case (Inl e)
    then show ?thesis using assms(2) Inr by (auto simp: vote_write_def)
  next
    case add: (Inr x)
    obtain n db2 where x: "x = (n, db2)" by (cases x)
    have s: "scores ?db = scores db" by (simp add: scores_def)
    have "distinct (map fst (scores ?db))" using assms(1) by (simp add: tallied_def s)
    note a = add_upvote_Inr [OF add [unfolded x] this, unfolded s]
    have v: "valid_votes (qd_votes db)" using assms(1) by (simp add: tallied_def)
    have "t \<in> fst ` set (scores db)" using a by force
    moreover have "vo_target_id ` set (qd_votes db) \<subseteq> fst ` set (scores db)" using assms(1) by (simp add: tallied_def)
    ultimately have "vo_target_id ` set votes \<subseteq> fst ` set (scores db)" using p [OF v] by blast
    moreover have "(t, n) \<in> set (scores db2)" using a by force
    moreover have "res = Inr \<lparr>vx_target_id = t, vx_new_score = n, vx_user_vote = (if value = 0 then None else Some value)\<rparr>"
      "db' = db2" using assms(2) Inr add x by (auto simp: vote_write_def)
    ultimately show ?thesis using p [OF v] a by simp
  qed
qed

lemma vote_write_votes:
  assumes "vote_write now core u t kind value existing db = (Inr r, db')"
  shows "put_vote now core u t value existing (qd_votes db) = Inr (qd_votes db')"
  using assms by (cases kind) (auto simp: vote_write_def map_sum_def split: sum.splits prod.splits)

lemma tallied_vote:
  assumes "tallied db"
  shows "tallied (snd (vote now core u t kind value db))"
proof -
  obtain res db' where run: "vote now core u t kind value db = (res, db')" by force
  have old: "coalesce (vote_read u t db) 0 = old_value u t (qd_votes db)" by (simp add: vote_read_def old_value_def)
  have "vote_read u t db \<noteq> None \<Longrightarrow> list_ex (is_vote u t) (qd_votes db)"
    unfolding vote_read_def by (simp only: existing_vote)
  note w = vote_write_outcome [OF assms run [unfolded vote_def] this, unfolded old]
  show ?thesis
  proof (cases res)
    case (Inr r)
    then have w: "valid_votes (qd_votes db')" "vo_target_id ` set (qd_votes db') \<subseteq> fst ` set (scores db)"
      "\<And>i. votes_for i (qd_votes db') = votes_for i (qd_votes db) + (if i = t then value - old_value u t (qd_votes db) else 0)"
      "scores db' = map (\<lambda>(j, m). (j, if j = t then m + (value - old_value u t (qd_votes db)) else m)) (scores db)"
      using w by simp_all
    have "map fst (scores db') = map fst (scores db)" unfolding w(4) by (auto simp: comp_def)
    moreover from this have "fst ` set (scores db') = fst ` set (scores db)" by (metis list.set_map)
    moreover have "\<forall>(i, n) \<in> set (scores db'). n = votes_for i (qd_votes db')"
      using assms unfolding w(3,4) tallied_def by auto
    ultimately show ?thesis using assms w(1,2) by (simp add: run tallied_def)
  qed (use w assms run in simp)
qed

lemma tallied_same:
  "tallied db \<Longrightarrow> scores db' = scores db \<Longrightarrow> qd_votes db' = qd_votes db \<Longrightarrow> tallied db'"
  by (simp add: tallied_def)

lemma votes_for_other: "i \<notin> vo_target_id ` set vs \<Longrightarrow> votes_for i vs = 0"
  by (induction vs) auto

definition known :: "question_db \<Rightarrow> uuid set" where
  "known db = fst ` set (scores db)"

lemma tallied_extend:
  assumes "tallied db" and "qd_votes db' = qd_votes db" and m: "mset (scores db') = mset (scores db) + mset new"
    and "distinct (map fst new)" and "\<forall>p \<in> set new. fst p \<notin> known db \<and> snd p = 0"
  shows "tallied db'"
proof -
  have "mset (map fst (scores db')) = mset (map fst (scores db) @ map fst new)"
    unfolding mset_map m by simp
  then have d: "distinct (map fst (scores db')) \<longleftrightarrow> distinct (map fst (scores db) @ map fst new)"
    by (rule mset_eq_imp_distinct_iff)
  have s: "set (scores db') = set (scores db) \<union> set new" using arg_cong [OF m, of set_mset] by simp
  have "votes_for (fst p) (qd_votes db) = 0" if "p \<in> set new" for p
  proof (rule votes_for_other)
    have "vo_target_id ` set (qd_votes db) \<subseteq> known db" using assms(1) by (simp add: tallied_def known_def)
    then show "fst p \<notin> vo_target_id ` set (qd_votes db)" using that assms(5) by blast
  qed
  note zero = this
  have t: "distinct (map fst (scores db))" "valid_votes (qd_votes db)" "vo_target_id ` set (qd_votes db) \<subseteq> fst ` set (scores db)"
    "\<forall>(i, n) \<in> set (scores db). n = votes_for i (qd_votes db)" using assms(1) by (simp_all add: tallied_def)
  have "distinct (map fst (scores db) @ map fst new)" 
  proof -
    have "fst ` set (scores db) \<inter> fst ` set new = {}"
      unfolding known_def [symmetric] using assms(5) by auto
    then show ?thesis using t(1) assms(4) by simp
  qed
  moreover have "\<forall>(i, n) \<in> set (scores db'). n = votes_for i (qd_votes db')"
    using t(4) zero assms(5) unfolding s assms(2) by fastforce
  moreover have "vo_target_id ` set (qd_votes db') \<subseteq> fst ` set (scores db')"
    using t(3) unfolding s assms(2) image_Un by blast
  ultimately show ?thesis using t(2) d assms(2) by (simp add: tallied_def)
qed

section \<open>The state machine\<close>

text \<open>
  One rule per operation. Generated identifiers are new among the questions, answers and
  comments; the core tables are whatever the other services have left.
\<close>

inductive question_step :: "question_db \<Rightarrow> question_db \<Rightarrow> bool" where
  asked: "i \<notin> known db \<Longrightarrow> question_step db (snd (create_question i now core owner repo author title body db))"
| question_edited: "question_step db (snd (update_question now core owner repo number title body db))"
| answered: "(\<And>k. ids k \<notin> known db) \<Longrightarrow>
    question_step db (snd (create_answer ids now core owner repo number author body db))"
| answer_edited: "question_step db (snd (update_answer show now i body db))"
| question_commented: "(\<And>k. ids k \<notin> known db) \<Longrightarrow>
    question_step db (snd (create_question_comment ids now core owner repo number author body db))"
| answer_commented: "i \<notin> known db \<Longrightarrow>
    question_step db (snd (create_answer_comment i now core answer_id author body db))"
| comment_edited: "question_step db (snd (update_comment show now i body db))"
| question_voted: "question_step db (snd (vote_question now core owner repo number user value db))"
| answer_voted: "question_step db (snd (vote_answer now core target user value db))"
| comment_voted: "question_step db (snd (vote_comment now core target user value db))"

inductive_cases question_stepE: "question_step db db'"

text \<open>A comment on a question needs no tally: only the statements differ in what they insert.\<close>

lemma snd_found [simp]: "snd (found entity i x db) = db"
  by (simp add: found_def)

lemma snd_q_db [simp]: "snd (q_db x) = snd x"
  by (simp add: q_db_def)

lemma snd_question_repository [simp]: "snd (question_repository core owner repo db) = db"
  by (auto simp: question_repository_def then_do_def split: prod.splits sum.splits)

lemma tallied_insert_comments:
  assumes "tallied db" and "\<forall>c \<in> set rows. co_id c \<notin> known db \<and> co_upvote c = 0"
  shows "tallied (snd (insert_comments core rows db))"
proof (cases "rows = [] \<or> \<not> distinct (map co_id (qd_comments db @ rows)) \<or> \<not> list_all (\<lambda>c. account_exists core (co_author_id c)) rows")
  case True
  then show ?thesis using assms(1) by (auto simp: insert_comments_def)
next
  case False
  then have e: "snd (insert_comments core rows db) = db\<lparr>qd_comments := qd_comments db @ rows\<rparr>"
    and d: "distinct (map co_id rows)" by (auto simp: insert_comments_def)
  show ?thesis unfolding e
    by (rule tallied_extend [OF assms(1), where new = "map (\<lambda>c. (co_id c, co_upvote c)) rows"])
      (use assms(2) d in \<open>auto simp: scores_def comp_def\<close>)
qed

lemma tallied_create_question:
  assumes "tallied db" and "i \<notin> known db"
  shows "tallied (snd (repo_create_question i now core author repository title body db))"
proof (cases "fst (repo_create_question i now core author repository title body db)")
  case (Inl e)
  then show ?thesis using assms(1) by (auto simp: repo_create_question_def Let_def split: sum.splits if_splits)
next
  case (Inr q)
  then show ?thesis
    by (intro tallied_extend [OF assms(1), where new = "[(i, 0)]"])
      (use assms(2) in \<open>auto simp: repo_create_question_def Let_def scores_def split: sum.splits if_splits\<close>)
qed

lemma tallied_create_answer:
  assumes "tallied db" and "\<And>k. ids k \<notin> known db"
  shows "tallied (snd (repo_create_answer ids now core owner repo number author body db))"
proof -
  define rows where "rows = map (\<lambda>(k, q). \<lparr>an_id = ids k, an_question_id = qn_id q, an_author_id = author, an_body = body,
                     an_upvote = 0, an_created_at = now, an_updated_at = now\<rparr>)
                   (enumerate 0 (questions_at core owner repo number db))"
  have r: "\<forall>a \<in> set rows. an_id a \<notin> known db \<and> an_upvote a = 0" using assms(2) by (auto simp: rows_def)
  have run: "repo_create_answer ids now core owner repo number author body db =
     (if rows = [] then (Inr None, db)
      else if \<not> distinct (map an_id (qd_answers db @ rows)) then (Inl UniqueViolation, db)
      else if \<not> account_exists core author then (Inl OtherDbError, db)
      else (Inr (Some (bare_answer (hd rows))), db\<lparr>qd_answers := qd_answers db @ rows\<rparr>))"
    by (simp add: repo_create_answer_def rows_def Let_def)
  show ?thesis
  proof (cases "rows = [] \<or> \<not> distinct (map an_id (qd_answers db @ rows)) \<or> \<not> account_exists core author")
    case True
    then show ?thesis using assms(1) by (auto simp: run)
  next
    case False
    then have e: "snd (repo_create_answer ids now core owner repo number author body db) = db\<lparr>qd_answers := qd_answers db @ rows\<rparr>"
      and d: "distinct (map an_id rows)" by (auto simp: run)
    show ?thesis unfolding e
      by (rule tallied_extend [OF assms(1), where new = "map (\<lambda>a. (an_id a, an_upvote a)) rows"])
        (use r d in \<open>auto simp: scores_def comp_def\<close>)
  qed
qed

text \<open>Statements on the texts, and the operations as a whole.\<close>

lemma tallied_texts:
  "tallied db \<Longrightarrow> tallied (snd (repo_update_question now i number title body db))"
  "tallied db \<Longrightarrow> tallied (snd (repo_update_answer now i body db))"
  "tallied db \<Longrightarrow> tallied (snd (repo_update_qcomment now i body db))"
  by (rule tallied_same; auto simp: repo_update_question_def repo_update_answer_def repo_update_qcomment_def Let_def
      scores_def table_simps)+

lemma known_ids: "known (snd (question_repository core owner repo db)) = known db"
  by simp

lemmas tallied_chain = then_do_inv [where P = tallied] tallied_vote tallied_texts

lemma tallied_vote_on: "tallied db \<Longrightarrow> tallied (snd (vote_on now core kind target user value db))"
  by (simp add: vote_on_def tallied_chain)

lemma tallied_question_step:
  assumes "question_step db db'" and "tallied db"
  shows "tallied db'"
  using assms
proof (cases rule: question_step.cases)
  case (asked i now core owner repo author title body)
  show ?thesis unfolding asked(1) create_question_def
  proof (rule then_do_post [where P = tallied])
    fix repository db1 assume "question_repository core owner repo db = (Inr repository, db1)"
    then have "db1 = db" using snd_question_repository by (metis snd_conv)
    then show "tallied (snd (then_do (q_db (repo_create_question i now core author (rp_id repository) title body db1))
        (\<lambda>q db2. (Inr (question_response_from q), db2))))"
      using tallied_create_question [OF assms(2) asked(2)] by (intro then_do_inv [where P = tallied]) simp_all
  qed (use assms(2) snd_question_repository in \<open>metis snd_conv\<close>)
next
  case (question_voted now core owner repo number user val)
  show ?thesis unfolding question_voted vote_question_def
    by (intro then_do_inv [where P = tallied]) (simp_all add: assms(2) tallied_vote_on)
next
  case (answer_edited sh now i body)
  then show ?thesis using tallied_texts(2) [OF assms(2), of now i body]
    by (auto simp: update_answer_def split: prod.split intro: then_do_inv [where P = tallied])
next
  case (comment_edited sh now i body)
  then show ?thesis using tallied_texts(3) [OF assms(2), of now i body]
    by (auto simp: update_comment_def split: prod.split intro: then_do_inv [where P = tallied])
qed (use assms(2) in \<open>auto simp: update_question_def create_answer_def create_question_comment_def
    create_answer_comment_def vote_answer_def vote_comment_def tallied_vote_on
    repo_create_question_comment_def repo_create_qcomment_def new_comment_row_def
    split: option.split prod.split
    intro!: tallied_chain tallied_create_answer tallied_insert_comments dest: tallied_texts\<close>)

section \<open>Properties\<close>

definition no_questions :: question_db where
  "no_questions = \<lparr>qd_questions = [], qd_answers = [], qd_comments = [], qd_votes = []\<rparr>"

text \<open>
  C16: in every state that the operations of the question service reach, one after the other,
  the score of every question, answer and comment is the sum of the votes for it; every vote is
  1 or -1, and a user has at most one vote for a target.
\<close>

theorem scores_are_the_sums_of_votes:
  assumes "question_step\<^sup>*\<^sup>* no_questions db"
  shows "(\<forall>q \<in> set (qd_questions db). qn_upvote q = votes_for (qn_id q) (qd_votes db))
    \<and> (\<forall>a \<in> set (qd_answers db). an_upvote a = votes_for (an_id a) (qd_votes db))
    \<and> (\<forall>c \<in> set (qd_comments db). co_upvote c = votes_for (co_id c) (qd_votes db))
    \<and> distinct (map (\<lambda>v. (vo_user_id v, vo_target_id v)) (qd_votes db))
    \<and> vo_value ` set (qd_votes db) \<subseteq> {1, -1}"
proof -
  have "tallied no_questions" by (simp add: tallied_def scores_def no_questions_def valid_votes_def)
  with assms have "tallied db" by (induction rule: rtranclp_induct) (auto intro: tallied_question_step)
  then show ?thesis
    by (auto simp: tallied_def scores_def valid_votes_def vote_key_def [abs_def] image_subset_iff)
qed

definition forum :: core_db where
  "forum = empty_core\<lparr>db_users := [demo_user 9 ''al''], db_repos := [demo_row 7 0 Public ''r'']\<rparr>"

text \<open>Question 50 of user 9, voted up by its author.\<close>

definition asked_and_voted :: question_db where
  "asked_and_voted = \<lparr>qd_questions = [\<lparr>qn_id = 50, qn_number = 1, qn_author_id = 9, qn_repository_id = 7,
       qn_title = ''T'', qn_body = ''b'', qn_upvote = 1, qn_impression = 0, qn_created_at = 100, qn_updated_at = 100\<rparr>],
     qd_answers = [], qd_comments = [],
     qd_votes = [\<lparr>vo_user_id = 9, vo_target_id = 50, vo_value = 1, vo_created_at = 101\<rparr>]\<rparr>"

lemma asked_and_voted_runs:
  "snd (vote_question 101 forum ''al'' ''r'' 1 9 1 (snd (create_question 50 100 forum ''al'' ''r'' 9 ''T'' ''b'' no_questions))) = asked_and_voted"
  by code_simp

theorem scores_are_the_sums_of_votes_witness:
  "qn_upvote (hd (qd_questions asked_and_voted)) = votes_for (qn_id (hd (qd_questions asked_and_voted))) (qd_votes asked_and_voted)
   \<and> qn_upvote (hd (qd_questions asked_and_voted)) = 1"
proof -
  let ?db1 = "snd (create_question 50 100 forum ''al'' ''r'' 9 ''T'' ''b'' no_questions)"
  have "question_step no_questions ?db1" by (rule asked) (simp add: known_def scores_def no_questions_def)
  moreover have "question_step ?db1 asked_and_voted"
    unfolding asked_and_voted_runs [symmetric] by (rule question_voted)
  ultimately have "question_step\<^sup>*\<^sup>* no_questions asked_and_voted" by (meson rtranclp.simps)
  from scores_are_the_sums_of_votes [OF this] show ?thesis by (simp add: asked_and_voted_def)
qed

text \<open>
  C29: two vote transactions of a user on the same target that both read before either writes:
  when the user had a vote and both succeed, the score ends up off the sum of the votes by the
  difference between the new and the old vote.
\<close>

theorem overlapping_votes_lose_the_count:
  assumes "tallied db" and "vote_read u t db = Some old" and "value \<noteq> 0"
    and "vote_write now1 core1 u t kind value (vote_read u t db) db = (Inr first, db1)"
    and "vote_write now2 core2 u t kind value (vote_read u t db) db1 = (Inr second, db2)"
  shows "(t, vx_new_score second) \<in> set (scores db2)
    \<and> vx_new_score second = votes_for t (qd_votes db2) + (value - old)"
proof -
  have "map_option vo_value (find (is_vote u t) (qd_votes db)) \<noteq> None" using assms(2) by (auto simp: vote_read_def)
  then have found: "list_ex (is_vote u t) (qd_votes db)" by (simp only: existing_vote)
  have votes1: "qd_votes db1 = update_where (is_vote u t) (\<lambda>v. v\<lparr>vo_value := value\<rparr>) (qd_votes db)"
    using vote_write_votes [OF assms(4)] assms(2,3) by (auto simp: put_vote_def Let_def split: if_splits)
  have found1: "list_ex (is_vote u t) (qd_votes db1)" unfolding votes1 using found
    by (simp add: table_simps) (auto simp: list_ex_iff)
  have "find (is_vote u t) (qd_votes db1) = map_option (\<lambda>v. v\<lparr>vo_value := value\<rparr>) (find (is_vote u t) (qd_votes db))"
    unfolding votes1 by (subst find_update_where_same, simp) (auto dest: find_SomeD simp: map_option_case split: option.splits)
  then have old1: "old_value u t (qd_votes db1) = value"
    using \<open>map_option vo_value (find (is_vote u t) (qd_votes db)) \<noteq> None\<close> by (auto simp: old_value_def coalesce_def)
  have "tallied (snd (vote now1 core1 u t kind value db))" by (rule tallied_vote [OF assms(1)])
  then have t1: "tallied db1" using assms(4) by (simp add: vote_def)
  have c: "coalesce (vote_read u t db) 0 = old" by (simp add: assms(2) coalesce_def)
  have w: "votes_for t (qd_votes db2) = votes_for t (qd_votes db1)"
    "scores db2 = map (\<lambda>(j, m). (j, if j = t then m + (value - old) else m)) (scores db1)"
    "(t, vx_new_score second) \<in> set (scores db2)"
    using vote_write_outcome [OF t1 assms(5) found1] unfolding c old1 sum.case by (elim conjE; simp only: if_True refl diff_self add_0_right)+
  then obtain m where "(t, m) \<in> set (scores db1)" "vx_new_score second = m + (value - old)"
    by (auto split: if_splits)
  moreover from this(1) t1 have "m = votes_for t (qd_votes db1)" by (auto simp: tallied_def)
  ultimately show ?thesis using w by simp
qed

text \<open>The author turns the vote around twice at once: one vote against, a score of -3.\<close>

theorem overlapping_votes_lose_the_count_witness:
  "\<exists>first db1 second db2.
     vote_write 102 forum 9 50 QuestionTarget (-1) (vote_read 9 50 asked_and_voted) asked_and_voted = (Inr first, db1)
     \<and> vote_write 103 forum 9 50 QuestionTarget (-1) (vote_read 9 50 asked_and_voted) db1 = (Inr second, db2)
     \<and> vx_new_score second = -3 \<and> votes_for 50 (qd_votes db2) = -1
     \<and> vx_new_score second = votes_for 50 (qd_votes db2) + (-1 - 1)"
proof -
  let ?db1 = "snd (vote_write 102 forum 9 50 QuestionTarget (-1) (Some 1) asked_and_voted)"
  let ?db2 = "snd (vote_write 103 forum 9 50 QuestionTarget (-1) (Some 1) ?db1)"
  let ?r1 = "\<lparr>vx_target_id = 50, vx_new_score = -1, vx_user_vote = Some (-1)\<rparr>"
  let ?r2 = "\<lparr>vx_target_id = 50, vx_new_score = -3, vx_user_vote = Some (-1)\<rparr>"
  have old: "vote_read 9 50 asked_and_voted = Some 1" by code_simp
  have "fst (vote_write 102 forum 9 50 QuestionTarget (-1) (Some 1) asked_and_voted) = Inr ?r1"
    "fst (vote_write 103 forum 9 50 QuestionTarget (-1) (Some 1) ?db1) = Inr ?r2" by code_simp+
  then have w: "vote_write 102 forum 9 50 QuestionTarget (-1) (vote_read 9 50 asked_and_voted) asked_and_voted = (Inr ?r1, ?db1)"
    "vote_write 103 forum 9 50 QuestionTarget (-1) (vote_read 9 50 asked_and_voted) ?db1 = (Inr ?r2, ?db2)"
    unfolding old by (simp_all add: prod_eq_iff)
  have t: "tallied asked_and_voted"
    by (simp add: tallied_def scores_def asked_and_voted_def valid_votes_def vote_key_def)
  have "vx_new_score ?r2 = votes_for 50 (qd_votes ?db2) + (-1 - 1)"
    using overlapping_votes_lose_the_count [OF t old _ w] by simp
  moreover from this have "votes_for 50 (qd_votes ?db2) = -1" by simp
  ultimately show ?thesis using w by (intro exI [of _ ?r1] exI [of _ ?db1] exI [of _ ?r2] exI [of _ ?db2]) simp
qed

end
