(* ===== verification/ReviewInv.thy ===== *)
theory ReviewInv
  imports ReviewService
begin

text \<open>
  The numbering of reviews, diffs and revisions. Every operation of the service keeps
  \<open>review_wf\<close>: the reviews of a repository, the diffs of a review and the revisions of a diff
  are numbered 1, 2, 3, ... without a gap, the foreign keys resolve, and a verdict is about a
  revision of the diff it names. The state machine \<open>review_step\<close> has one step per operation.
\<close>

section \<open>Consecutive numbers\<close>

definition consecutive :: "int list \<Rightarrow> bool" where
  "consecutive ns \<longleftrightarrow> sort ns = [1..int (length ns)]"

lemma consecutive_Nil [simp]: "consecutive []"
  by (simp add: consecutive_def)

lemma consecutive_mset: "consecutive ns \<longleftrightarrow> mset ns = mset [1..int (length ns)]"
proof
  assume "consecutive ns"
  then show "mset ns = mset [1..int (length ns)]" unfolding consecutive_def by (metis mset_sort)
next
  assume m: "mset ns = mset [1..int (length ns)]"
  have "sorted [1..int (length ns)]" by simp
  then show "consecutive ns" unfolding consecutive_def
    by (metis m properties_for_sort mset_sort sort_key_id_if_sorted sorted_sort)
qed

lemma consecutive_set: "consecutive ns \<Longrightarrow> set ns = {1..int (length ns)}"
  unfolding consecutive_mset by (metis set_mset_mset set_upto)

lemma consecutive_snoc:
  assumes "consecutive ns" and "n = int (length ns) + 1"
  shows "consecutive (ns @ [n])"
proof -
  have "[1..n] = [1..int (length ns)] @ [n]" using assms(2) by (simp add: upto_rec2)
  then show ?thesis using assms unfolding consecutive_mset by (simp add: algebra_simps)
qed

definition nums :: "'k \<Rightarrow> ('k \<times> int) list \<Rightarrow> int list" where
  "nums i ps = map snd (filter (\<lambda>p. fst p = i) ps)"

definition numbered :: "('k \<times> int) list \<Rightarrow> bool" where
  "numbered ps \<longleftrightarrow> (\<forall>p \<in> set ps. consecutive (nums (fst p) ps))"

lemma nums_append [simp]: "nums i (ps @ qs) = nums i ps @ nums i qs"
  by (simp add: nums_def)

lemma nums_single [simp]: "nums i [(k, n)] = (if k = i then [n] else [])"
  by (simp add: nums_def)

lemma nums_empty: "i \<notin> fst ` set ps \<Longrightarrow> nums i ps = []"
  unfolding nums_def by (auto simp: filter_empty_conv)

lemma numbered_nums: "numbered ps \<Longrightarrow> consecutive (nums i ps)"
  unfolding numbered_def using nums_empty [of i ps] by (cases "i \<in> fst ` set ps") auto

lemma numbered_Nil [simp]: "numbered []"
  by (simp add: numbered_def)

lemma numbered_snoc:
  assumes "numbered ps" and "n = int (length (nums i ps)) + 1"
  shows "numbered (ps @ [(i, n)])"
  unfolding numbered_def
  using numbered_nums [OF assms(1)] consecutive_snoc [OF numbered_nums [OF assms(1)] assms(2)]
  by (auto simp del: nums_single simp: nums_def)

section \<open>The invariant\<close>

definition review_keys :: "review_db \<Rightarrow> (uuid \<times> int) list" where
  "review_keys db = map (\<lambda>r. (re_repository_id r, re_number r)) (db_reviews db)"

definition diff_keys :: "review_db \<Rightarrow> (uuid \<times> int) list" where
  "diff_keys db = map (\<lambda>d. (df_review_id d, df_position d)) (db_diffs db)"

definition revision_keys :: "review_db \<Rightarrow> (uuid \<times> int) list" where
  "revision_keys db = map (\<lambda>r. (rv_diff_id r, rv_number r)) (db_revisions db)"

definition review_wf :: "review_db \<Rightarrow> bool" where
  "review_wf db \<longleftrightarrow>
     numbered (review_keys db) \<and> numbered (diff_keys db) \<and> numbered (revision_keys db)
     \<and> distinct (map re_id (db_reviews db)) \<and> distinct (map df_id (db_diffs db)) \<and> distinct (map rv_id (db_revisions db))
     \<and> set (map df_review_id (db_diffs db)) \<subseteq> set (map re_id (db_reviews db))
     \<and> set (map rv_diff_id (db_revisions db)) \<subseteq> set (map df_id (db_diffs db))
     \<and> set (map (\<lambda>v. (vd_revision_id v, vd_diff_id v)) (db_verdicts db))
         \<subseteq> set (map (\<lambda>r. (rv_id r, rv_diff_id r)) (db_revisions db))"

lemmas review_key_defs = review_keys_def diff_keys_def revision_keys_def

definition no_reviews :: review_db where
  "no_reviews = \<lparr>db_reviews = [], db_diffs = [], db_revisions = [], db_reviewers = [], db_verdicts = [],
                 db_comments = []\<rparr>"

lemma wf_no_reviews: "review_wf no_reviews"
  by (simp add: review_wf_def no_reviews_def review_key_defs)

section \<open>Statements on the tables\<close>

text \<open>Statements that touch none of the keys.\<close>

lemma wf_repo_update_review:
  "review_wf db \<Longrightarrow> review_wf (snd (repo_update_review now i status title description db))"
  by (auto simp: repo_update_review_def review_wf_def review_key_defs table_simps)

lemma wf_update_diff: "review_wf (update_diff now i status message db) \<longleftrightarrow> review_wf db"
  by (simp add: update_diff_def review_wf_def review_key_defs table_simps)

lemma wf_update_revision_sha: "review_wf db \<Longrightarrow> review_wf (snd (update_revision_sha i c p db))"
  by (auto simp: update_revision_sha_def review_wf_def review_key_defs table_simps)

lemma wf_other_tables [simp]:
  "review_wf (db\<lparr>db_comments := cs\<rparr>) = review_wf db"
  "review_wf (db\<lparr>db_reviewers := rs\<rparr>) = review_wf db"
  by (simp_all add: review_wf_def review_key_defs)

lemma wf_add_reviewer: "review_wf db \<Longrightarrow> review_wf (snd (add_reviewer i now core review_id reviewer_id db))"
  by (auto simp: add_reviewer_def Let_def split: sum.splits)

lemma wf_remove_reviewer: "review_wf db \<Longrightarrow> review_wf (snd (remove_reviewer review_id reviewer_id db))"
  by (simp add: remove_reviewer_def Let_def)

lemma wf_comments:
  "review_wf db \<Longrightarrow> review_wf (snd (repo_create_comment i now core review_id diff_id revision_id author_id n db))"
  "review_wf db \<Longrightarrow> review_wf (snd (repo_update_comment now core i body db))"
  "review_wf db \<Longrightarrow> review_wf (resolve_comment now i resolved db)"
  by (simp_all add: repo_create_comment_def repo_update_comment_def resolve_comment_def Let_def)

text \<open>Statements that insert under a key.\<close>

lemma next_review_number:
  assumes "numbered (review_keys db)"
  shows "next_review_number db i = int (length (nums i (review_keys db))) + 1"
proof -
  let ?ns = "nums i (review_keys db)"
  have ns: "map re_number (filter (\<lambda>r. re_repository_id r = i) (db_reviews db)) = ?ns"
    by (simp add: nums_def review_keys_def filter_map comp_def)
  have set: "set ?ns = {1..int (length ?ns)}" by (rule consecutive_set [OF numbered_nums [OF assms]])
  show ?thesis
  proof (cases "?ns = []")
    case False
    then have "Max (set ?ns) = int (length ?ns)" unfolding set by (intro Max_eqI) (auto simp: Suc_le_eq)
    then show ?thesis using False by (simp add: next_review_number_def Let_def ns)
  qed (simp add: next_review_number_def Let_def ns)
qed

lemma wf_repo_create_review:
  assumes "review_wf db" and "repo_create_review i now core repository_id author_id target_branch db = (res, db')"
  shows "review_wf db' \<and> (\<forall>r. res = Inr r \<longrightarrow> re_id r = i \<and> i \<in> set (map re_id (db_reviews db'))
           \<and> nums i (diff_keys db') = [])"
proof -
  have n: "numbered (review_keys db @ [(repository_id, next_review_number db repository_id)])"
    using assms(1) by (auto simp: review_wf_def intro: numbered_snoc next_review_number)
  have fresh: "i \<notin> set (map re_id (db_reviews db)) \<Longrightarrow> nums i (diff_keys db) = []"
    using assms(1) by (intro nums_empty) (auto simp: review_wf_def diff_keys_def)
  show ?thesis
    using assms n fresh
    by (auto simp: repo_create_review_def Let_def review_wf_def review_key_defs reviews_ok_def bare_review_def
        review_row.defs review.defs image_subset_iff split: if_splits sum.splits)
qed

lemma wf_create_diff:
  assumes "review_wf db" and "position = int (length (nums review_id (diff_keys db))) + 1"
    and "create_diff i now review_id position message db = (res, db')"
  shows "review_wf db' \<and> (\<forall>d. res = Inr d \<longrightarrow> df_id d = i \<and> i \<in> set (map df_id (db_diffs db'))
           \<and> i \<notin> set (map df_id (db_diffs db)) \<and> nums i (revision_keys db') = []
           \<and> diff_keys db' = diff_keys db @ [(review_id, position)] \<and> db_reviews db' = db_reviews db
           \<and> revision_keys db' = revision_keys db)"
proof -
  have n: "numbered (diff_keys db @ [(review_id, position)])"
    using assms(1,2) by (auto simp: review_wf_def intro: numbered_snoc)
  have fresh: "i \<notin> set (map df_id (db_diffs db)) \<Longrightarrow> nums i (revision_keys db) = []"
    using assms(1) by (intro nums_empty) (auto simp: review_wf_def revision_keys_def)
  show ?thesis
    using assms(1,3) n fresh
    by (auto simp: create_diff_def Let_def review_wf_def review_key_defs diffs_ok_def list_ex_iff
        diff_row.defs diff.defs image_subset_iff split: if_splits sum.splits)
qed

lemma wf_create_revision:
  assumes "review_wf db" and "number = int (length (nums diff_id (revision_keys db))) + 1"
    and "create_revision i now diff_id number commit_hash parent_hash db = (res, db')"
  shows "review_wf db' \<and> db_diffs db' = db_diffs db \<and> db_reviews db' = db_reviews db
           \<and> (\<forall>k. k \<noteq> diff_id \<longrightarrow> nums k (revision_keys db') = nums k (revision_keys db))"
proof -
  have n: "numbered (revision_keys db @ [(diff_id, number)])"
    using assms(1,2) by (auto simp: review_wf_def intro: numbered_snoc)
  show ?thesis
    using assms(1,3) n
    by (auto simp: create_revision_def Let_def review_wf_def review_key_defs revisions_ok_def list_ex_iff
        image_subset_iff split: if_splits sum.splits)
qed

lemma wf_create_verdict:
  assumes "review_wf db" and "\<exists>r \<in> set (db_revisions db). rv_id r = revision_id \<and> rv_diff_id r = diff_id"
  shows "review_wf (snd (create_verdict i now core diff_id revision_id reviewer_id verdict db))"
  using assms by (auto simp: create_verdict_def review_wf_def review_key_defs image_iff)

section \<open>Effects on the refs leave the tables\<close>

lemma rw_db_set_ref [simp]: "rw_db (set_ref key n sha w) = rw_db w" "rw_core (set_ref key n sha w) = rw_core w"
  by (simp_all add: set_ref_def)

lemma rw_db_refs [simp]:
  "rw_db (snd (resolve_ref_sha env key n w)) = rw_db w"
  "rw_db (snd (create_ref env key n sha w)) = rw_db w"
  "rw_db (snd (update_ref env key n sha w)) = rw_db w"
  by (simp_all add: resolve_ref_sha_def create_ref_def update_ref_def split: option.splits sum.splits)

lemma rw_db_on_db [simp]: "rw_db (snd (on_db f w)) = snd (f (rw_db w))"
  by (simp add: on_db_def split: prod.splits)

lemma rw_db_write_db [simp]: "rw_db (snd (write_db f w)) = f (rw_db w)"
  by (simp add: write_db_def)

lemma snd_give [simp]: "snd (give r w) = w"
  by (simp add: give_def)

lemma on_db_Inr: "on_db f w = (Inr v, w') \<longleftrightarrow> f (rw_db w) = (Inr v, rw_db w') \<and> w' = w\<lparr>rw_db := rw_db w'\<rparr>"
  by (cases "f (rw_db w)") (auto simp: on_db_def)

lemma snd_get_review_by_id [simp]: "snd (get_review_by_id owner repo number w) = w"
  by (simp add: get_review_by_id_def)

lemma snd_get_review [simp]: "snd (get_review owner repo number w) = w"
  by (cases "get_review_by_id owner repo number w"; cases "fst (get_review_by_id owner repo number w)")
    (use snd_get_review_by_id [of owner repo number w] in \<open>auto simp: get_review_def\<close>)

lemma snd_find_comment [simp]: "snd (find_comment env i w) = w"
  by (simp add: find_comment_def)

lemma rw_db_pushed_commits [simp]: "rw_db (snd (pushed_commits env key b sha w)) = rw_db w"
proof -
  have "(\<lambda>w1. rw_db w1 = rw_db w) (snd (pushed_commits env key b sha w))"
    unfolding pushed_commits_def
    by (rule then_do_inv) (auto split: sum.splits list.splits)
  then show ?thesis .
qed

section \<open>Reading a review\<close>

lemma get_review_by_id_Inr:
  assumes "get_review_by_id owner repo number w = (Inr v, w')"
  shows "w' = w \<and> re_number v = number \<and> re_diffs v = Some (diffs_of (rw_db w) (re_id v))
    \<and> review_row.truncate v \<in> set (reviews_in (rw_core w) (rw_db w) owner repo)"
proof -
  let ?rows = "filter (\<lambda>r. re_number r = number) (reviews_in (rw_core w) (rw_db w) owner repo)"
  from assms have w: "w' = w" and "fetch_optional (review_details (rw_core w) (rw_db w)) ?rows = Inr (Some v)"
    by (auto simp: get_review_by_id_def get_review_by_number_def)
  then obtain r rs where e: "?rows = r # rs" and v: "review_details (rw_core w) (rw_db w) r = Inr v"
    by (auto simp: fetch_optional_def split: list.splits sum.splits)
  from e have "r \<in> set ?rows" by simp
  then have r: "r \<in> set (reviews_in (rw_core w) (rw_db w) owner repo)" "re_number r = number" by simp_all
  have "review_row.truncate v = r \<and> re_diffs v = Some (diffs_of (rw_db w) (re_id r)) \<and> re_id v = re_id r
      \<and> re_number v = re_number r"
    using v by (auto simp: review_details_def review_row.defs review.defs)
  then show ?thesis using w r by simp
qed

text \<open>The first revision that the details list is the one with the greatest number.\<close>

lemma hd_sort_key: "sort_key f xs = y # ys \<Longrightarrow> y \<in> set xs \<and> (\<forall>x \<in> set xs. f y \<le> f x)"
proof -
  assume e: "sort_key f xs = y # ys"
  have s: "sorted (map f (y # ys))" unfolding e [symmetric] by (rule sorted_sort_key)
  have t: "set (y # ys) = set xs" unfolding e [symmetric] by simp
  show ?thesis using s unfolding t [symmetric] by auto
qed

lemma latest_revision:
  assumes "review_wf db" and "revisions_of db i = r # rs"
  shows "rv_number r = int (length (nums i (revision_keys db)))
    \<and> (\<exists>x \<in> set (db_revisions db). rv_id x = rv_id r \<and> rv_diff_id x = i)"
proof -
  let ?rows = "filter (\<lambda>r. rv_diff_id r = i) (db_revisions db)"
  let ?ns = "nums i (revision_keys db)"
  obtain x xs where s: "sort_key (\<lambda>r. - rv_number r) ?rows = x # xs"
    and r: "rv_number r = rv_number x" "rv_id r = rv_id x"
    using assms(2) by (cases "sort_key (\<lambda>r. - rv_number r) ?rows")
      (auto simp: revisions_of_def revision_row.defs revision.defs)
  note h = hd_sort_key [OF s]
  have ns: "?ns = map rv_number ?rows" by (simp add: nums_def revision_keys_def filter_map comp_def)
  have "numbered (revision_keys db)" using assms(1) by (simp add: review_wf_def)
  then have set: "set ?ns = {1..int (length ?ns)}" by (intro consecutive_set numbered_nums)
  have "rv_number x \<in> set ?ns" "\<forall>n \<in> set ?ns. n \<le> rv_number x" using h by (auto simp: ns)
  then have "rv_number x = int (length ?ns)" unfolding set
    by (metis atLeastAtMost_iff int_one_le_iff_zero_less order.refl order.antisym order.trans)
  then show ?thesis using h r by auto
qed

section \<open>New diffs\<close>

text \<open>How many diffs a review has.\<close>

definition diff_count :: "uuid \<Rightarrow> review_db \<Rightarrow> int" where
  "diff_count i db = int (length (nums i (diff_keys db)))"

lemma rw_db_first_refs [simp]: "rw_db (snd (first_refs env key ref_id position sha w)) = rw_db w"
proof -
  have "(\<lambda>w1. rw_db w1 = rw_db w) (snd (first_refs env key ref_id position sha w))"
    unfolding first_refs_def by (rule then_do_inv) auto
  then show ?thesis .
qed

lemma new_diff_wf:
  assumes "review_wf (rw_db w)" and "int position = diff_count review_id (rw_db w) + 1"
    and run: "new_diff env key ref_id review_id position commit previous_sha w = (res, w')"
  shows "review_wf (rw_db w') \<and> (\<forall>u. res = Inr u \<longrightarrow> diff_count review_id (rw_db w') = int position)
     \<and> (\<forall>k \<in> set (map df_id (db_diffs (rw_db w))). nums k (revision_keys (rw_db w')) = nums k (revision_keys (rw_db w)))"
proof -
  obtain r1 w1 where c: "on_db (create_diff (rn_id env (2 * position)) (rn_now env) review_id (int position) (snd commit)) w
      = (r1, w1)" by force
  from c have c': "create_diff (rn_id env (2 * position)) (rn_now env) review_id (int position) (snd commit) (rw_db w)
      = (fst (create_diff (rn_id env (2 * position)) (rn_now env) review_id (int position) (snd commit) (rw_db w)), rw_db w1)"
    by (auto simp: on_db_def split: prod.splits)
  note d = wf_create_diff [OF assms(1) assms(2) [unfolded diff_count_def] c']
  show ?thesis
  proof (cases r1)
    case (Inl e)
    then have "w' = w1" "res = Inl e" using run c by (simp_all add: new_diff_def)
    moreover have "revision_keys (rw_db w1) = revision_keys (rw_db w)"
      using c Inl by (auto simp: on_db_def create_diff_def Let_def map_err_def revision_keys_def
          split: prod.splits sum.splits if_splits)
    ultimately show ?thesis using d by simp
  next
    case (Inr df)
    then have df: "fst (create_diff (rn_id env (2 * position)) (rn_now env) review_id (int position) (snd commit) (rw_db w))
        = Inr df" using c by (auto simp: on_db_def split: prod.splits)
    note d = d [unfolded df, simplified]
    let ?create = "create_revision (rn_id env (2 * position + 1)) (rn_now env) (df_id df) 1 (fst commit) previous_sha"
    let ?x = "on_db ?create w1"
    have rw: "rw_db w' = snd (?create (rw_db w1))"
    proof -
      have "(\<lambda>v. rw_db v = snd (?create (rw_db w1))) (snd (then_do ?x (\<lambda>_. first_refs env key ref_id (int position) (fst commit))))"
        by (rule then_do_inv) simp_all
      then show ?thesis using run c Inr by (simp add: new_diff_def)
    qed
    have one: "1 = int (length (nums (df_id df) (revision_keys (rw_db w1)))) + 1"
      proof -
      from d have "nums (df_id df) (revision_keys (rw_db w1)) = []"
        by (elim conjE) (rule trans [OF arg_cong [where f = "\<lambda>k. nums k (revision_keys (rw_db w1))"]])
      then show ?thesis by simp
    qed
    have "?create (rw_db w1) = (fst (?create (rw_db w1)), rw_db w')" by (simp add: rw)
    note r = wf_create_revision [OF conjunct1 [OF d] one this]
    have "diff_keys (rw_db w') = diff_keys (rw_db w) @ [(review_id, int position)]"
      using r d by (simp add: diff_keys_def)
    then have "diff_count review_id (rw_db w') = int position" using assms(2) by (simp add: diff_count_def)
    moreover have "\<forall>k \<in> set (map df_id (db_diffs (rw_db w))). nums k (revision_keys (rw_db w')) = nums k (revision_keys (rw_db w))"
      unfolding list.set_map using r d by metis
    ultimately show ?thesis using r by simp
  qed
qed

lemma create_diffs_wf:
  assumes "review_wf (rw_db w)" and "int position = diff_count review_id (rw_db w) + 1"
  shows "review_wf (rw_db (snd (create_diffs env key ref_id review_id position previous_sha commits w)))"
  using assms
proof (induction commits arbitrary: w position previous_sha)
  case (Cons commit commits)
  note new = new_diff_wf [OF Cons.prems, of env key ref_id commit previous_sha]
  show ?case unfolding create_diffs.simps
  proof (rule then_do_post [where P = "\<lambda>w. review_wf (rw_db w)"])
    fix v w1 assume "new_diff env key ref_id review_id position commit previous_sha w = (Inr v, w1)"
    from new [OF this] show "review_wf (rw_db (snd (create_diffs env key ref_id review_id (position + 1) (fst commit) commits w1)))"
      by (intro Cons.IH) auto
  qed (use new in blast)
qed simp

section \<open>Existing diffs\<close>

text \<open>Only the revisions of one diff have changed.\<close>

definition changes_at :: "uuid \<Rightarrow> review_db \<Rightarrow> review_db \<Rightarrow> bool" where
  "changes_at i db db' \<longleftrightarrow> review_wf db' \<and> diff_keys db' = diff_keys db
     \<and> map df_id (db_diffs db') = map df_id (db_diffs db)
     \<and> (\<forall>k. k \<noteq> i \<longrightarrow> nums k (revision_keys db') = nums k (revision_keys db))"

lemma changes_at_sha:
  "changes_at i db db' \<Longrightarrow> changes_at i db (snd (update_revision_sha j c p db'))"
  using wf_update_revision_sha [of db' j c p]
  by (auto simp: changes_at_def update_revision_sha_def review_key_defs table_simps)

lemma changes_at_update_diff:
  "changes_at i db db' \<Longrightarrow> changes_at i db (update_diff now j status message db')"
  using wf_update_diff [of now j status message db']
  by (simp add: changes_at_def) (simp add: update_diff_def review_key_defs table_simps)

lemma changes_at_revision:
  assumes "review_wf db" and "number = int (length (nums i (revision_keys db))) + 1"
  shows "changes_at i db (snd (create_revision j now i number commit_hash parent_hash db))"
  using wf_create_revision [OF assms, of j now commit_hash parent_hash]
  by (cases "create_revision j now i number commit_hash parent_hash db")
    (simp add: changes_at_def review_key_defs)

lemma update_existing_diff_wf:
  assumes "review_wf (rw_db w)" and "review_wf db0" and "df_revisions d = Some (revisions_of db0 (df_id d))"
    and same: "nums (df_id d) (revision_keys (rw_db w)) = nums (df_id d) (revision_keys db0)"
  shows "changes_at (df_id d) (rw_db w)
           (rw_db (snd (update_existing_diff env key ref_id number d position commit previous_sha w)))"
proof (cases "revisions_of db0 (df_id d)")
  case Nil
  then show ?thesis using assms by (simp add: update_existing_diff_def changes_at_def)
next
  case (Cons latest rest)
  let ?P = "\<lambda>v. changes_at (df_id d) (rw_db w) (rw_db v)"
  have start: "?P w" using assms(1) by (simp add: changes_at_def)
  have "rv_number latest + 1 = int (length (nums (df_id d) (revision_keys (rw_db w)))) + 1"
    using latest_revision [OF assms(2) Cons] same by simp
  note rev = changes_at_revision [OF assms(1) this]
  show ?thesis
    unfolding update_existing_diff_def assms(3) or_empty_simps Cons list.case
  proof (intro then_do_post [where P = ?P], goal_cases)
    case (3 v w1 v2 w2)
    then have w: "w2 = w" by simp
    show ?case unfolding w
      by (auto simp: Let_def intro!: then_do_inv [where P = ?P] changes_at_sha changes_at_update_diff rev start)
  qed (use start in auto)
qed

section \<open>The loop over the pushed commits\<close>

lemma diffs_of_positions:
  assumes "review_wf db"
  shows "df_position ` set (diffs_of db i) = {1..diff_count i db}"
proof -
  have "df_position ` set (diffs_of db i) = set (nums i (diff_keys db))"
    by (force simp: diffs_of_def nums_def diff_keys_def diff_row.defs diff.defs)
  moreover have "numbered (diff_keys db)" using assms by (simp add: review_wf_def)
  ultimately show ?thesis by (simp add: consecutive_set [OF numbered_nums] diff_count_def)
qed

lemma diffs_of_ids:
  assumes "review_wf db" and "d \<in> set (diffs_of db i)" "d2 \<in> set (diffs_of db i)" and "df_id d = df_id d2"
  shows "df_position d = df_position d2"
proof -
  from assms(2,3) obtain r r2 where r: "r \<in> set (db_diffs db)" "df_id d = df_id r" "df_position d = df_position r"
    and r2: "r2 \<in> set (db_diffs db)" "df_id d2 = df_id r2" "df_position d2 = df_position r2"
    by (auto simp: diffs_of_def diff_row.defs diff.defs)
  have "distinct (map df_id (db_diffs db))" using assms(1) by (simp add: review_wf_def)
  then have "r = r2" using key_inj [of df_id] r r2 assms(4) by metis
  then show ?thesis using r r2 by simp
qed

lemma diffs_of_revisions: "d \<in> set (diffs_of db i) \<Longrightarrow> df_revisions d = Some (revisions_of db (df_id d))"
  by (auto simp: diffs_of_def diff_row.defs diff.defs)

lemma update_diffs_wf:
  assumes "review_wf db0" and "re_diffs review = Some (diffs_of db0 (re_id review))"
    and "review_wf (rw_db w)" and "1 \<le> position"
    and "diff_count (re_id review) (rw_db w) = max (diff_count (re_id review) db0) (int position - 1)"
    and "\<And>d. d \<in> set (diffs_of db0 (re_id review)) \<Longrightarrow> int position \<le> df_position d \<Longrightarrow>
           nums (df_id d) (revision_keys (rw_db w)) = nums (df_id d) (revision_keys db0)"
  shows "review_wf (rw_db (snd (update_diffs env key ref_id review number position previous_sha commits w)))"
  using assms(3-6)
proof (induction commits arbitrary: w position previous_sha)
  case (Cons commit commits)
  let ?S = "diffs_of db0 (re_id review)" and ?P = "\<lambda>v. review_wf (rw_db v)"
  note ps = diffs_of_positions [OF assms(1), of "re_id review"]
  show ?case
  proof (cases "find (\<lambda>d. df_position d = int position) ?S")
    case None
    then have "int position \<notin> df_position ` set ?S" by (auto simp: find_None_iff)
    then have big: "diff_count (re_id review) db0 < int position" using Cons.prems(2) by (simp add: ps)
    then have "int position = diff_count (re_id review) (rw_db w) + 1" using Cons.prems(3) by simp
    note new = new_diff_wf [OF Cons.prems(1) this, of env key ref_id commit previous_sha]
    have "df_position d \<le> diff_count (re_id review) db0" if "d \<in> set ?S" for d using that ps by auto
    then have none: "\<not> int (position + 1) \<le> df_position d" if "d \<in> set ?S" for d using that big by fastforce
    show ?thesis unfolding update_diffs.simps assms(2) or_empty_simps None option.case
    proof (rule then_do_post [where P = ?P])
      fix v w1 assume "new_diff env key ref_id (re_id review) position commit previous_sha w = (Inr v, w1)"
      from new [OF this] show "?P (snd (update_diffs env key ref_id review number (position + 1) (fst commit) commits w1))"
        using big none by (intro Cons.IH) auto
    qed (use new in blast)
  next
    case (Some d)
    then have d: "d \<in> set ?S" "df_position d = int position" by (auto dest: find_SomeD)
    let ?x = "update_existing_diff env key ref_id number d position commit previous_sha w"
    have "changes_at (df_id d) (rw_db w) (rw_db (snd ?x))"
      using d Cons.prems by (intro update_existing_diff_wf [OF Cons.prems(1) assms(1)] diffs_of_revisions) auto
    then have x: "?P w1" "diff_keys (rw_db w1) = diff_keys (rw_db w)"
      "k \<noteq> df_id d \<Longrightarrow> nums k (revision_keys (rw_db w1)) = nums k (revision_keys (rw_db w))"
      if "?x = (r, w1)" for r w1 k using that by (auto simp: changes_at_def)
    have small: "int position \<le> diff_count (re_id review) db0" using d ps by force
    show ?thesis unfolding update_diffs.simps assms(2) or_empty_simps Some option.case
    proof (rule then_do_post [where P = ?P])
      fix v w1 assume e: "?x = (Inr v, w1)"
      have "nums (df_id d2) (revision_keys (rw_db w1)) = nums (df_id d2) (revision_keys db0)"
        if "d2 \<in> set ?S" "int (position + 1) \<le> df_position d2" for d2
      proof -
        have "df_id d2 \<noteq> df_id d" using diffs_of_ids [OF assms(1) that(1) d(1)] d(2) that(2) by auto
        then show ?thesis using x(3) [OF e] Cons.prems(4) that by simp
      qed
      then show "?P (snd (update_diffs env key ref_id review number (position + 1) (fst commit) commits w1))"
        using x(1,2) [OF e] Cons.prems(3) small by (intro Cons.IH) (auto simp: diff_count_def)
    qed (use x(1) in blast)
  qed
qed simp

end
