(* ===== verification/ReviewSteps.thy ===== *)
theory ReviewSteps
  imports ReviewInv
begin

text \<open>
  Every operation of \<open>service/core/review.rs\<close> keeps the numbering invariant, and the state
  machine of the operations, whatever the environments answer and whatever pushes and the other
  services do to the refs and to the other tables in between.
\<close>

section \<open>Each operation keeps the invariant\<close>

definition wf_world :: "review_world \<Rightarrow> bool" where
  "wf_world w \<longleftrightarrow> review_wf (rw_db w)"

lemma wf_refs [simp]:
  "wf_world (snd (resolve_ref_sha env key n w)) = wf_world w"
  "wf_world (snd (create_ref env key n sha w)) = wf_world w"
  "wf_world (snd (update_ref env key n sha w)) = wf_world w"
  "wf_world (snd (first_refs env key ref_id position sha w)) = wf_world w"
  "wf_world (snd (pushed_commits env key b sha w)) = wf_world w"
  "wf_world (snd (give r w)) = wf_world w"
  "wf_world (snd (get_review_by_id owner repo number w)) = wf_world w"
  "wf_world (snd (get_review owner repo number w)) = wf_world w"
  "wf_world (snd (find_comment env i w)) = wf_world w"
  by (simp_all add: wf_world_def)

lemma wf_statements:
  "wf_world w \<Longrightarrow> wf_world (snd (on_db (repo_update_review now i status title description) w))"
  "wf_world w \<Longrightarrow> wf_world (snd (on_db (update_revision_sha i c p) w))"
  "wf_world w \<Longrightarrow> wf_world (snd (on_db (add_reviewer i now core review_id reviewer_id) w))"
  "wf_world w \<Longrightarrow> wf_world (snd (on_db (repo_create_comment i now core review_id diff_id revision_id author_id n) w))"
  "wf_world w \<Longrightarrow> wf_world (snd (on_db (repo_update_comment now core i body) w))"
  "wf_world w \<Longrightarrow> wf_world (snd (write_db (update_diff now i dstatus message) w))"
  "wf_world w \<Longrightarrow> wf_world (snd (write_db (resolve_comment now i resolved) w))"
  by (simp_all add: wf_world_def wf_repo_update_review wf_update_revision_sha wf_add_reviewer wf_comments wf_update_diff)

lemma wf_mark_merged: "review_wf (mark_merged now drs db) \<longleftrightarrow> review_wf db"
  unfolding mark_merged_def
  by (induction drs arbitrary: db) (simp_all add: wf_update_diff split_beta)

lemma wf_write_merged: "wf_world w \<Longrightarrow> wf_world (snd (write_db (mark_merged now drs) w))"
  by (simp add: wf_world_def wf_mark_merged)

lemma wf_rebase_diffs: "wf_world w \<Longrightarrow> wf_world (snd (rebase_diffs env key ref_id parent drs w))"
proof (induction env key ref_id parent drs w rule: rebase_diffs.induct)
  case (2 env key ref_id parent d r rest w)
  then show ?case
    by (auto split: sum.splits intro!: then_do_inv [where P = wf_world] wf_statements)
qed simp

lemmas wf_chain = then_do_inv [where P = wf_world] wf_statements wf_write_merged wf_rebase_diffs

lemma wf_publish:
  "wf_world w \<Longrightarrow> wf_world (snd (publish_review env owner repo number w))"
  "wf_world w \<Longrightarrow> wf_world (snd (publish_review_diff env owner repo number position w))"
  by (auto simp: publish_review_def publish_review_diff_def Let_def split: option.split intro!: wf_chain)

lemma wf_updates:
  "wf_world w \<Longrightarrow> wf_world (snd (update_review env owner repo number title description w))"
  "wf_world w \<Longrightarrow> wf_world (snd (update_review_diff env owner repo number position message w))"
  by (auto simp: update_review_def update_review_diff_def split: option.split intro!: wf_chain)

lemma wf_merge: "wf_world w \<Longrightarrow> wf_world (snd (merge_review_diff env owner repo number position w))"
  by (auto simp: merge_review_diff_def merge_commit_def land_diffs_def Let_def intro!: wf_chain)

lemma wf_reviewers:
  "wf_world w \<Longrightarrow> wf_world (snd (add_review_reviewer env owner repo number name w))"
  "wf_world w \<Longrightarrow> wf_world (snd (remove_review_reviewer owner repo number name w))"
  by (auto simp: add_review_reviewer_def remove_review_reviewer_def remove_reviewer_def Let_def wf_world_def
      split: option.split intro!: then_do_inv [where P = "\<lambda>w. review_wf (rw_db w)"] wf_add_reviewer)

lemma wf_comment_calls:
  "wf_world w \<Longrightarrow> wf_world (snd (reply_to_review_comment env comment_id user_id body w))"
  "wf_world w \<Longrightarrow> wf_world (snd (update_review_comment env comment_id body w))"
  "wf_world w \<Longrightarrow> wf_world (snd (resolve_review_comment env comment_id resolved w))"
  by (auto simp: reply_to_review_comment_def update_review_comment_def resolve_review_comment_def intro!: wf_chain)

lemma wf_create_comments:
  "wf_world w \<Longrightarrow> wf_world (snd (create_comments env review_id diff_id author_id k cs w))"
  by (induction env review_id diff_id author_id k cs w rule: create_comments.induct) (auto intro!: wf_chain)

lemma wf_record_verdict:
  assumes "wf_world w" and "d \<in> set (diffs_of (rw_db w) i)"
  shows "wf_world (snd (record_verdict env d position reviewer_id verdict w))"
proof (cases "revisions_of (rw_db w) (df_id d)")
  case (Cons r rs)
  have wf: "review_wf (rw_db w)" using assms(1) by (simp add: wf_world_def)
  from latest_revision [OF wf Cons]
  have "\<exists>x \<in> set (db_revisions (rw_db w)). rv_id x = rv_id r \<and> rv_diff_id x = df_id d" by simp
  from wf_create_verdict [OF wf this] show ?thesis
    by (simp add: record_verdict_def diffs_of_revisions [OF assms(2)] Cons wf_world_def)
qed (use assms in \<open>simp add: record_verdict_def diffs_of_revisions\<close>)

lemma wf_review_review_diff:
  assumes "wf_world w"
  shows "wf_world (snd (review_review_diff env owner repo number position reviewer_id action comments w))"
  unfolding review_review_diff_def
proof (rule then_do_post [where P = wf_world])
  fix review w1 assume e: "get_review_by_id owner repo number w = (Inr review, w1)"
  note r = get_review_by_id_Inr [OF e]
  then have w: "w1 = w" and ds: "or_empty (re_diffs review) = diffs_of (rw_db w) (re_id review)" by simp_all
  have v: "wf_world (snd (record_verdict env d position reviewer_id verdict w))"
    if "find (\<lambda>d. df_position d = position) (diffs_of (rw_db w) (re_id review)) = Some d" for d verdict
    using wf_record_verdict [OF assms] find_SomeD [OF that] by blast
  let ?rest = "case find (\<lambda>d. df_position d = position) (or_empty (re_diffs review)) of
      None \<Rightarrow> (Inl (ReviewNotFound (NotFoundError ''diff'' (IdStr (''position '' @ show_int position)))), w1)
    | Some d \<Rightarrow>
        if action \<noteq> CommentAction \<and> df_status d = DiffMerged then (Inl DiffAlreadyMerged, w1)
        else if action \<noteq> CommentAction \<and> reviewer_id = re_author_id review then (Inl CannotReviewOwnDiff, w1)
        else
          then_do
            (case action of
               ApproveAction \<Rightarrow> record_verdict env d position reviewer_id VerdictApproved w1
             | RejectAction \<Rightarrow> record_verdict env d position reviewer_id VerdictRejected w1
             | CommentAction \<Rightarrow> (Inr (), w1)) (\<lambda>_ w2.
          then_do (create_comments env (re_id review) (df_id d) reviewer_id 1 comments w2) (\<lambda>_ w3.
          then_do (on_db (repo_update_review (rn_now env) (re_id review) None None None) w3) (\<lambda>_.
          get_review owner repo number)))"
  show "wf_world (snd ?rest)"
    unfolding ds w using assms v
    by (auto split: option.split review_action.split intro!: wf_chain wf_create_comments)
qed (use assms snd_get_review_by_id [of owner repo number w] in auto)

lemma wf_create_review_call:
  assumes "wf_world w"
  shows "wf_world (snd (create_review env q w))"
  unfolding create_review_def Let_def
proof (rule then_do_post [where P = wf_world], goal_cases)
  case (2 v w1)
  then have w1: "wf_world w1" using wf_refs(5) assms by (metis snd_conv)
  obtain target_sha commits where v: "v = (target_sha, commits)" by (cases v)
  show ?case unfolding v prod.case
  proof (rule then_do_post [where P = wf_world], goal_cases)
    case (2 repository w2)
    then have w2: "review_wf (rw_db w2)" using w1 by (simp add: wf_world_def)
    show ?case
    proof (rule then_do_post [where P = wf_world], goal_cases)
      case (1 e w3)
      then show ?case using w2 by (auto simp: wf_world_def on_db_def dest: wf_repo_create_review split: prod.splits)
    next
      case (2 review w3)
      then have "repo_create_review (rn_id env 0) (rn_now env) (rw_core w2) (rp_id repository)
          (pq_pusher_id q) (pq_target_branch q) (rw_db w2) = (Inr review, rw_db w3)"
        by (auto simp: on_db_def map_err_def split: prod.splits sum.splits)
      note r = wf_repo_create_review [OF w2 this]
      then have "wf_world (snd (create_diffs env (pq_owner q, pq_repo q) (short_id env (re_id review)) (re_id review) 1
          target_sha commits w3))"
        unfolding wf_world_def by (intro create_diffs_wf) (auto simp: diff_count_def)
      then show ?case by (intro wf_chain) simp_all
    qed
  qed (use w1 in simp)
qed (use assms wf_refs(5) in \<open>metis snd_conv\<close>)

lemma wf_process_update:
  assumes "wf_world w"
  shows "wf_world (snd (process_review_update env q w))"
proof (cases "pq_review_number q")
  case (Some n)
  show ?thesis unfolding process_review_update_def Let_def Some option.case
  proof (rule then_do_post [where P = wf_world], goal_cases)
    case (2 review w1)
    note r = get_review_by_id_Inr [OF 2]
    show ?case
    proof (rule then_do_post [where P = wf_world], goal_cases)
      case (2 v w2)
      then have db: "rw_db w2 = rw_db w" using r rw_db_pushed_commits by (metis snd_conv)
      obtain target_sha commits where v: "v = (target_sha, commits)" by (cases v)
      have "wf_world (snd (update_diffs env (pq_owner q, pq_repo q) (short_id env (re_id review)) review (as_i32 n) 1
          target_sha commits w2))"
        unfolding wf_world_def
        by (rule update_diffs_wf [of "rw_db w"]) (use assms r in \<open>auto simp: db wf_world_def diff_count_def\<close>)
      then show ?case unfolding v prod.case by (intro wf_chain) simp_all
    qed (use assms r wf_refs(5) in \<open>metis snd_conv\<close>)
  qed (use assms snd_get_review_by_id in \<open>metis snd_conv\<close>)
qed (use assms in \<open>simp add: process_review_update_def Let_def\<close>)

section \<open>The state machine\<close>

text \<open>
  One rule per operation; \<open>elsewhere\<close> is any change of the refs by pushes and of the other
  tables by the other services.
\<close>

inductive review_step :: "review_world \<Rightarrow> review_world \<Rightarrow> bool" where
  created: "review_step w (snd (create_review env q w))"
| updated_by_push: "review_step w (snd (process_review_update env q w))"
| published: "review_step w (snd (publish_review env owner repo number w))"
| diff_published: "review_step w (snd (publish_review_diff env owner repo number position w))"
| edited: "review_step w (snd (update_review env owner repo number title description w))"
| diff_edited: "review_step w (snd (update_review_diff env owner repo number position message w))"
| diff_merged: "review_step w (snd (merge_review_diff env owner repo number position w))"
| reviewer_added: "review_step w (snd (add_review_reviewer env owner repo number name w))"
| reviewer_removed: "review_step w (snd (remove_review_reviewer owner repo number name w))"
| replied: "review_step w (snd (reply_to_review_comment env comment_id user_id body w))"
| comment_edited: "review_step w (snd (update_review_comment env comment_id body w))"
| comment_resolved: "review_step w (snd (resolve_review_comment env comment_id resolved w))"
| diff_reviewed: "review_step w (snd (review_review_diff env owner repo number position reviewer_id action comments w))"
| elsewhere: "rw_db w' = rw_db w \<Longrightarrow> review_step w w'"

text \<open>Runs, as the list of the states after each step.\<close>

inductive review_run :: "review_world \<Rightarrow> review_world list \<Rightarrow> review_world \<Rightarrow> bool" where
  stop: "review_run w [] w"
| step: "review_run w ws w1 \<Longrightarrow> review_step w1 w2 \<Longrightarrow> review_run w (ws @ [w2]) w2"

inductive_simps review_run_Nil [simp]: "review_run w [] w'"
  and review_run_snoc [simp]: "review_run w (ws @ [v]) w'"

inductive_cases review_stepE: "review_step w w'"

lemma review_step_wf:
  assumes "review_step w w'" and "wf_world w"
  shows "wf_world w'"
  using assms
  by (elim review_stepE)
    (simp_all add: wf_create_review_call wf_process_update wf_publish wf_updates wf_merge wf_reviewers
      wf_comment_calls wf_review_review_diff, simp add: wf_world_def)

lemma review_run_wf: "review_run w ws w' \<Longrightarrow> wf_world w \<Longrightarrow> \<forall>v \<in> set (w' # ws). wf_world v"
  by (induction rule: review_run.induct) (auto intro: review_step_wf)

end
