(* ===== verification/ReviewMerge.thy ===== *)
theory ReviewMerge
  imports ReviewSteps
begin

text \<open>
  What merging does: the rebase only rewrites revisions and the refs of their diffs, the
  statements after it have one exact effect on the tables, and reading the review back succeeds.
\<close>

section \<open>The rebase\<close>

text \<open>The commit that results from picking commits one after the other onto a parent.\<close>

fun cherry_chain :: "review_env \<Rightarrow> repo_key \<Rightarrow> string \<Rightarrow> string list \<Rightarrow> git_error + string" where
  "cherry_chain env key parent [] = Inr parent"
| "cherry_chain env key parent (c # cs) =
     and_then (rn_cherry_pick env key c parent) (\<lambda>n. cherry_chain env key n cs)"

definition rebase_changes :: "repo_key \<Rightarrow> string \<Rightarrow> review_world \<Rightarrow> review_world \<Rightarrow> bool" where
  "rebase_changes key ref_id w w' \<longleftrightarrow> rw_core w' = rw_core w
     \<and> rw_db w' = (rw_db w)\<lparr>db_revisions := db_revisions (rw_db w')\<rparr>
     \<and> (\<forall>k n. rw_refs w' k n \<noteq> rw_refs w k n \<longrightarrow> k = key \<and> (\<exists>p. n = get_current_ref ref_id p))"

lemma rebase_changes_tables:
  assumes "rebase_changes key ref_id w w'"
  shows "rw_core w' = rw_core w" "db_diffs (rw_db w') = db_diffs (rw_db w)" "db_reviews (rw_db w') = db_reviews (rw_db w)"
    "db_reviewers (rw_db w') = db_reviewers (rw_db w)" "db_comments (rw_db w') = db_comments (rw_db w)"
proof -
  from assms have c: "rw_core w' = rw_core w"
    and e: "rw_db w' = (rw_db w)\<lparr>db_revisions := db_revisions (rw_db w')\<rparr>" by (simp_all add: rebase_changes_def)
  show "rw_core w' = rw_core w" by (rule c)
  show "db_diffs (rw_db w') = db_diffs (rw_db w)" by (subst e) simp
  show "db_reviews (rw_db w') = db_reviews (rw_db w)" by (subst e) simp
  show "db_reviewers (rw_db w') = db_reviewers (rw_db w)" by (subst e) simp
  show "db_comments (rw_db w') = db_comments (rw_db w)" by (subst e) simp
qed

lemma rebase_changes_refl: "rebase_changes key ref_id w w"
  by (simp add: rebase_changes_def)

lemma rebase_changes_trans:
  "rebase_changes key ref_id w w1 \<Longrightarrow> rebase_changes key ref_id w1 w2 \<Longrightarrow> rebase_changes key ref_id w w2"
  unfolding rebase_changes_def by (metis review_db.update_convs(3) review_db.select_convs(3) review_db.surjective)

lemma rebase_changes_sha: "rebase_changes key ref_id w (snd (on_db (update_revision_sha i c p) w))"
  by (auto simp: rebase_changes_def on_db_def update_revision_sha_def split: prod.split)

lemma rebase_changes_ref: "rebase_changes key ref_id w (snd (update_ref env key (get_current_ref ref_id p) sha w))"
  by (auto simp: rebase_changes_def update_ref_def set_ref_def split: sum.split)

lemma rebase_diffs_outcome:
  "rebase_diffs env key ref_id parent drs w = (res, w') \<Longrightarrow>
   rebase_changes key ref_id w w'
     \<and> (\<forall>s. res = Inr s \<longrightarrow> cherry_chain env key parent (map (\<lambda>dr. rv_commit_hash (snd dr)) drs) = Inr s)"
proof (induction env key ref_id parent drs w arbitrary: res w' rule: rebase_diffs.induct)
  case (1 env key ref_id parent w)
  then show ?case by (auto simp: rebase_changes_refl)
next
  case (2 env key ref_id parent d r rest w)
  show ?case
  proof (cases "rn_cherry_pick env key (rv_commit_hash r) parent")
    case (Inl e)
    then show ?thesis using 2(2) by (auto simp: rebase_changes_refl)
  next
    case (Inr new_sha)
    note step = rebase_changes_trans [OF rebase_changes_sha rebase_changes_ref]
    from 2(2) Inr show ?thesis
    proof (simp, elim then_do_cases, goal_cases)
      case (1 e)
      with rebase_changes_sha show ?case by (metis Inl_Inr_False snd_conv)
    next
      case (2 u w1 e)
      with step show ?case by (metis Inl_Inr_False snd_conv)
    next
      case (3 u w1 u2 w2)
      have "rebase_changes key ref_id w w2" using step 3 by (metis snd_conv)
      moreover have "rebase_diffs env key ref_id new_sha rest w2 = (res, w')" using 3 by simp
      note "2.IH" [OF Inr this]
      ultimately show ?case using rebase_changes_trans by blast
    qed
  qed
qed

lemma branch_not_review_ref: "get_target_ref b \<noteq> get_current_ref ref_id p"
  by (simp add: get_target_ref_def get_current_ref_def)

lemma rebase_keeps_branches:
  "rebase_changes key ref_id w w' \<Longrightarrow> rw_refs w' k (get_target_ref b) = rw_refs w k (get_target_ref b)"
  using branch_not_review_ref unfolding rebase_changes_def by metis

section \<open>The statements after the rebase\<close>

lemma latest_revisions_Inr:
  "latest_revisions ds = Inr drs \<Longrightarrow> drs = map (\<lambda>d. (d, hd (or_empty (df_revisions d)))) ds"
proof (induction ds arbitrary: drs)
  case (Cons d ds)
  then show ?case by (auto split: list.splits)
qed simp

abbreviation merged :: "time \<Rightarrow> diff_row \<Rightarrow> diff_row" where
  "merged now d \<equiv> d\<lparr>df_status := DiffMerged, df_updated_at := now\<rparr>"

lemma mark_merged_tables:
  "mark_merged now drs db =
     db\<lparr>db_diffs := update_where (\<lambda>d. df_id d \<in> df_id ` fst ` set drs) (merged now) (db_diffs db)\<rparr>"
proof (induction drs arbitrary: db)
  case Nil
  then show ?case by (simp add: mark_merged_def update_where_def)
next
  case (Cons dr drs)
  have one: "update_diff now i (Some DiffMerged) None db
      = db\<lparr>db_diffs := update_where (\<lambda>d. df_id d = i) (merged now) (db_diffs db)\<rparr>" for i db
    by (simp add: update_diff_def coalesce_def)
  have "mark_merged now (dr # drs) db = mark_merged now drs (update_diff now (df_id (fst dr)) (Some DiffMerged) None db)"
    by (simp add: mark_merged_def split_beta)
  also have "\<dots> = db\<lparr>db_diffs := update_where (\<lambda>d. df_id d = df_id (fst dr) \<or> df_id d \<in> df_id ` fst ` set drs)
      (merged now) (db_diffs db)\<rparr>"
    unfolding Cons.IH one by (simp add: update_where_twice)
  finally show ?case by simp
qed

text \<open>A review that could be read can be read after its status has changed.\<close>

lemma read_back:
  assumes "get_review_by_id owner repo number w = (Inr v, w)"
    and "rw_core w' = rw_core w" "db_reviewers (rw_db w') = db_reviewers (rw_db w)"
      "db_comments (rw_db w') = db_comments (rw_db w)"
    and "db_reviews (rw_db w') = update_where p (\<lambda>r. r\<lparr>re_status := f r, re_updated_at := now\<rparr>) (db_reviews (rw_db w))"
  obtains resp where "get_review owner repo number w' = (Inr resp, w')"
proof -
  let ?g = "\<lambda>r :: review_row. r\<lparr>re_status := f r, re_updated_at := now\<rparr>"
  let ?rows = "\<lambda>w. filter (\<lambda>r. re_number r = number) (reviews_in (rw_core w) (rw_db w) owner repo)"
  have rows: "?rows w' = update_where p ?g (?rows w)"
    unfolding reviews_in_def assms(2,5)
    by (subst filter_update_where, simp)+ simp
  from assms(1) obtain r rs where e: "?rows w = r # rs" and d: "review_details (rw_core w) (rw_db w) r = Inr v"
    by (auto simp: get_review_by_id_def get_review_by_number_def fetch_optional_def split: list.splits sum.splits)
  have "\<exists>v'. review_details (rw_core w') (rw_db w') (if p r then ?g r else r) = Inr v'"
    using d by (auto simp: review_details_def assms(2-4))
  then obtain v' where "review_details (rw_core w') (rw_db w') (if p r then ?g r else r) = Inr v'" ..
  then have "get_review_by_id owner repo number w' = (Inr v', w')"
    by (simp add: get_review_by_id_def get_review_by_number_def fetch_optional_def rows e split del: if_split)
  then show thesis using that by (simp add: get_review_def give_def)
qed

section \<open>The outcome of a merge\<close>

abbreviation latest_of :: "diff \<Rightarrow> revision" where
  "latest_of d \<equiv> hd (or_empty (df_revisions d))"

text \<open>The diffs of a review that a merge up to a position picks, as the details list them.\<close>

definition picked_diffs :: "review_db \<Rightarrow> uuid \<Rightarrow> int \<Rightarrow> diff list" where
  "picked_diffs db i position = filter (\<lambda>d. df_position d \<le> position \<and> df_status d \<noteq> DiffMerged) (diffs_of db i)"

definition pick_row :: "uuid \<Rightarrow> int \<Rightarrow> diff_row \<Rightarrow> bool" where
  "pick_row i position d \<longleftrightarrow> df_review_id d = i \<and> df_position d \<le> position \<and> df_status d \<noteq> DiffMerged"

lemma picked_ids:
  assumes "review_wf db" and "d \<in> set (db_diffs db)"
  shows "df_id d \<in> df_id ` set (picked_diffs db i position) \<longleftrightarrow> pick_row i position d"
proof -
  have "df_id ` set (picked_diffs db i position) = df_id ` {d \<in> set (db_diffs db). pick_row i position d}"
    by (force simp: picked_diffs_def diffs_of_def pick_row_def diff_row.defs diff.defs)
  moreover have "distinct (map df_id (db_diffs db))" using assms(1) by (simp add: review_wf_def)
  ultimately show ?thesis using assms(2) key_inj [of df_id "db_diffs db"] by (auto simp: image_iff)
qed

lemma merge_diffs_effect:
  assumes "review_wf db0" and "db_diffs db = db_diffs db0"
  shows "mark_merged now (map (\<lambda>d. (d, latest_of d)) (picked_diffs db0 i position)) db
    = db\<lparr>db_diffs := update_where (pick_row i position) (merged now) (db_diffs db0)\<rparr>"
proof -
  have "update_where (\<lambda>d. df_id d \<in> df_id ` set (picked_diffs db0 i position)) (merged now) (db_diffs db0)
      = update_where (pick_row i position) (merged now) (db_diffs db0)"
    by (rule update_where_cong) (rule picked_ids [OF assms(1)])
  then show ?thesis unfolding mark_merged_tables by (simp add: image_image assms(2))
qed

lemma all_merged_iff:
  "list_all (\<lambda>d. df_status d = DiffMerged \<or> df_position d \<le> position) (diffs_of db i) \<longleftrightarrow>
   (\<forall>d \<in> set (update_where (pick_row i position) (merged now) (db_diffs db)). df_review_id d = i \<longrightarrow> df_status d = DiffMerged)"
  by (auto simp: ball_update_where list_all_iff diffs_of_def pick_row_def diff_row.defs diff.defs)

text \<open>The specification: nothing that a reader of branches, diffs and reviews sees has changed.\<close>

definition branches_and_reviews_as_before :: "review_world \<Rightarrow> review_world \<Rightarrow> bool" where
  "branches_and_reviews_as_before w w' \<longleftrightarrow>
     db_diffs (rw_db w') = db_diffs (rw_db w) \<and> db_reviews (rw_db w') = db_reviews (rw_db w)
     \<and> (\<forall>k b. rw_refs w' k (get_target_ref b) = rw_refs w k (get_target_ref b))"

text \<open>The commit to which the branch should move, from its present commit and the picked diffs.\<close>

definition merges_to :: "review_env \<Rightarrow> repo_key \<Rightarrow> diff list \<Rightarrow> string \<Rightarrow> string \<Rightarrow> bool" where
  "merges_to env key picked target_sha merge_sha \<longleftrightarrow>
     (if target_sha = rv_parent_hash (latest_of (hd picked)) then merge_sha = rv_commit_hash (latest_of (last picked))
      else cherry_chain env key target_sha (map (\<lambda>d. rv_commit_hash (latest_of d)) picked) = Inr merge_sha)"

text \<open>The branch has moved, the diffs up to the position are merged, the review is closed if that was all.\<close>

definition landed ::
  "time \<Rightarrow> repo_key \<Rightarrow> string \<Rightarrow> string \<Rightarrow> uuid \<Rightarrow> int \<Rightarrow> review_world \<Rightarrow> review_world \<Rightarrow> bool"
where
  "landed now key branch merge_sha i position w w' \<longleftrightarrow>
     (\<forall>k b. rw_refs w' k (get_target_ref b) =
        (if k = key \<and> b = branch then Some merge_sha else rw_refs w k (get_target_ref b)))
     \<and> db_diffs (rw_db w') = update_where (pick_row i position) (merged now) (db_diffs (rw_db w))
     \<and> db_reviews (rw_db w') = update_where (\<lambda>r. re_id r = i)
         (\<lambda>r. r\<lparr>re_status :=
                  if \<forall>d \<in> set (db_diffs (rw_db w')). df_review_id d = i \<longrightarrow> df_status d = DiffMerged
                  then ReviewClosed else re_status r,
                re_updated_at := now\<rparr>) (db_reviews (rw_db w))"

lemma as_before_refl [simp]: "branches_and_reviews_as_before w w"
  by (simp add: branches_and_reviews_as_before_def)

lemma as_before_rebase: "rebase_changes key ref_id w w' \<Longrightarrow> branches_and_reviews_as_before w w'"
  using rebase_keeps_branches rebase_changes_tables unfolding branches_and_reviews_as_before_def by blast

end
