(* ===== verification/ReviewProps.thy ===== *)
theory ReviewProps
  imports ReviewMerge
begin

text \<open>
  The properties of reviews: the outcome of a merge, the numbering of reviews, diffs and
  revisions in every reachable state, and the reviews that nobody can read.
\<close>

section \<open>Merging\<close>

lemma merge_commit_outcome:
  assumes "merge_commit env key review (map (\<lambda>d. (d, latest_of d)) picked) w = (res, w')"
  shows "rebase_changes key (short_id env (re_id review)) w w'
    \<and> (\<forall>sha. res = Inr sha \<longrightarrow> picked \<noteq> [] \<longrightarrow>
         (\<exists>target_sha. rw_refs w key (get_target_ref (re_target_branch review)) = Some target_sha
            \<and> merges_to env key picked target_sha sha))"
proof (cases "rw_refs w key (get_target_ref (re_target_branch review))")
  case None
  then show ?thesis using assms by (auto simp: merge_commit_def resolve_ref_sha_def rebase_changes_refl)
next
  case (Some target_sha)
  show ?thesis
  proof (cases "target_sha = rv_parent_hash (snd (hd (map (\<lambda>d. (d, latest_of d)) picked)))")
    case True
    then show ?thesis using assms Some
      by (auto simp: merge_commit_def resolve_ref_sha_def rebase_changes_refl merges_to_def hd_map last_map)
  next
    case False
    with assms Some have "rebase_diffs env key (short_id env (re_id review)) target_sha
        (map (\<lambda>d. (d, latest_of d)) picked) w = (res, w')"
      by (simp add: merge_commit_def resolve_ref_sha_def)
    from rebase_diffs_outcome [OF this] show ?thesis using False Some
      by (auto simp: merges_to_def hd_map comp_def)
  qed
qed

lemma merge_tail:
  assumes wf: "review_wf (rw_db w)" and read: "get_review_by_id owner repo number w = (Inr review, w)"
    and ch: "rebase_changes (owner, repo) ref_id w w4"
    and ds: "re_diffs review = Some (diffs_of (rw_db w) (re_id review))"
    and tail: "land_diffs env (owner, repo) number position review
        (map (\<lambda>d. (d, latest_of d)) (picked_diffs (rw_db w) (re_id review) position)) sha w4 = (res, w')"
  shows "case res of
      Inl _ \<Rightarrow> w' = w4
    | Inr _ \<Rightarrow> landed (rn_now env) (owner, repo) (re_target_branch review) sha (re_id review) position w w'"
proof (cases "rn_find_commit env (owner, repo) sha")
  case (Inl e)
  then show ?thesis using tail by (auto simp: land_diffs_def update_ref_def)
next
  case (Inr u)
  let ?closed = "list_all (\<lambda>d. df_status d = DiffMerged \<or> df_position d \<le> position) (diffs_of (rw_db w) (re_id review))"
  let ?ds = "update_where (pick_row (re_id review) position) (merged (rn_now env)) (db_diffs (rw_db w))"
  let ?w5 = "set_ref (owner, repo) (get_target_ref (re_target_branch review)) sha w4"
  let ?f = "\<lambda>r. coalesce (if ?closed then Some ReviewClosed else None) (re_status r)"
  let ?rs = "update_where (\<lambda>r. re_id r = re_id review) (\<lambda>r. r\<lparr>re_status := ?f r, re_updated_at := rn_now env\<rparr>) (db_reviews (rw_db w))"
  let ?w7 = "?w5\<lparr>rw_db := (rw_db w4)\<lparr>db_diffs := ?ds, db_reviews := ?rs\<rparr>\<rparr>"
  note db4 = rebase_changes_tables [OF ch]
  have marked: "mark_merged (rn_now env) (map (\<lambda>d. (d, latest_of d)) (picked_diffs (rw_db w) (re_id review) position)) (rw_db w4)
      = (rw_db w4)\<lparr>db_diffs := ?ds\<rparr>"
    by (rule merge_diffs_effect [OF wf db4(2)])
  have "(res, w') = get_review owner repo number ?w7"
    using tail Inr by (simp add: land_diffs_def ds update_ref_def write_db_def marked on_db_def repo_update_review_def db4
        coalesce_def char_count_def)
  moreover obtain resp where "get_review owner repo number ?w7 = (Inr resp, ?w7)"
    by (rule read_back [OF read, where w' = ?w7 and p = "\<lambda>r. re_id r = re_id review" and f = ?f and now = "rn_now env"])
      (simp_all add: db4)
  ultimately have res: "res = Inr resp" "w' = ?w7" by simp_all
  have f: "?f r = (if \<forall>d \<in> set ?ds. df_review_id d = re_id review \<longrightarrow> df_status d = DiffMerged then ReviewClosed
      else re_status r)" for r
    by (auto simp: all_merged_iff [where now = "rn_now env"] coalesce_def)
  show ?thesis unfolding res sum.case landed_def f
    by (simp add: set_ref_def get_target_ref_def rebase_keeps_branches [OF ch, unfolded get_target_ref_def, simplified])
qed

text \<open>
  C13: a merge up to a position either fails and leaves every branch, every diff and every
  review as they were, or it moves the target branch, and no other, to the last commit of the
  picked diffs (to the last of them if the target has not moved since, otherwise to the end of
  the chain of cherry-picks onto the target), marks exactly the unmerged diffs of the review up
  to that position as merged, and closes the review exactly if no unmerged diff is left.
\<close>

theorem merge_lands_or_leaves:
  assumes "review_wf (rw_db w)" and "merge_review_diff env owner repo number position w = (res, w')"
  shows "case res of
      Inl _ \<Rightarrow> branches_and_reviews_as_before w w'
    | Inr _ \<Rightarrow> \<exists>review target_sha merge_sha.
        get_review_by_id owner repo number w = (Inr review, w) \<and> re_status review = ReviewOpen
        \<and> picked_diffs (rw_db w) (re_id review) position \<noteq> []
        \<and> rw_refs w (owner, repo) (get_target_ref (re_target_branch review)) = Some target_sha
        \<and> merges_to env (owner, repo) (picked_diffs (rw_db w) (re_id review) position) target_sha merge_sha
        \<and> landed (rn_now env) (owner, repo) (re_target_branch review) merge_sha (re_id review) position w w'"
  using assms(2) unfolding merge_review_diff_def
proof (rule then_do_cases)
  fix e assume e: "get_review_by_id owner repo number w = (Inl e, w')" "res = Inl e"
  then show ?thesis using snd_get_review_by_id [of owner repo number w] by simp
next
  fix review w1
  assume read: "get_review_by_id owner repo number w = (Inr review, w1)"
  note r = get_review_by_id_Inr [OF read]
  let ?picked = "picked_diffs (rw_db w) (re_id review) position"
  let ?drs = "map (\<lambda>d. (d, latest_of d)) ?picked"
  have w1: "w1 = w" and ds: "re_diffs review = Some (diffs_of (rw_db w) (re_id review))"
    and picked: "filter (\<lambda>d. df_position d \<le> position \<and> df_status d \<noteq> DiffMerged) (or_empty (re_diffs review)) = ?picked"
    using r by (simp_all add: picked_diffs_def)
  assume rest: "(if re_status review \<noteq> ReviewOpen then (Inl (DiffNotMergeable ''review must be open to merge diffs''), w1)
     else let to_merge = filter (\<lambda>d. df_position d \<le> position \<and> df_status d \<noteq> DiffMerged) (or_empty (re_diffs review))
       in if to_merge = [] then (Inl (ReviewNotFound (NotFoundError ''diff''
                (IdStr (''no open diffs found at or before position '' @ show_int position)))), w1)
       else then_do (latest_revisions to_merge, w1) (\<lambda>drs w2.
             then_do (merge_commit env (owner, repo) review drs w2) (\<lambda>merge_sha.
             land_diffs env (owner, repo) number position review drs merge_sha))) = (res, w')"
  show ?thesis
  proof (cases "re_status review = ReviewOpen \<and> ?picked \<noteq> [] \<and> latest_revisions ?picked = Inr ?drs")
    case False
    have "\<And>drs. latest_revisions ?picked = Inr drs \<Longrightarrow> drs = ?drs" by (rule latest_revisions_Inr)
    then have "w' = w \<and> (\<exists>e. res = Inl e)" using False rest unfolding picked w1 Let_def
      by (cases "latest_revisions ?picked") (auto split: if_splits)
    then show ?thesis by auto
  next
    case True
    then have "then_do (merge_commit env (owner, repo) review ?drs w) (\<lambda>merge_sha.
             land_diffs env (owner, repo) number position review ?drs merge_sha) = (res, w')"
      using rest unfolding picked w1 Let_def by simp
    then show ?thesis
    proof (rule then_do_cases)
      fix e assume "merge_commit env (owner, repo) review ?drs w = (Inl e, w')" "res = Inl e"
      with merge_commit_outcome show ?thesis using as_before_rebase by fastforce
    next
      fix sha w4 assume m: "merge_commit env (owner, repo) review ?drs w = (Inr sha, w4)"
        and l: "land_diffs env (owner, repo) number position review ?drs sha w4 = (res, w')"
      note c = merge_commit_outcome [OF m]
      from merge_tail [OF assms(1) read [unfolded w1] conjunct1 [OF c] ds l] show ?thesis
        using c as_before_rebase read w1 True by (cases res) auto
    qed
  qed
qed

section \<open>Numbering\<close>

text \<open>
  C14: in every state of every run of the review service that starts without reviews, with any
  pushes and any answers of the git repositories and the other services in between, the reviews
  of a repository, the diffs of a review and the revisions of a diff are numbered 1, 2, 3, ...
  without a gap or a repetition, and every verdict is about a revision of the diff it names.
\<close>

theorem review_numbers_have_no_gap:
  assumes "review_run w0 ws w" and "rw_db w0 = no_reviews" and "v \<in> set (w # ws)"
  shows "consecutive (map re_number (filter (\<lambda>r. re_repository_id r = i) (db_reviews (rw_db v))))
    \<and> consecutive (map df_position (filter (\<lambda>d. df_review_id d = i) (db_diffs (rw_db v))))
    \<and> consecutive (map rv_number (filter (\<lambda>r. rv_diff_id r = i) (db_revisions (rw_db v))))
    \<and> (\<forall>x \<in> set (db_verdicts (rw_db v)). \<exists>r \<in> set (db_revisions (rw_db v)).
          rv_id r = vd_revision_id x \<and> rv_diff_id r = vd_diff_id x)"
proof -
  have "wf_world v" using review_run_wf [OF assms(1)] assms(2,3) wf_no_reviews by (auto simp: wf_world_def)
  then have wf: "review_wf (rw_db v)" by (simp add: wf_world_def)
  have nums: "nums i (review_keys (rw_db v)) = map re_number (filter (\<lambda>r. re_repository_id r = i) (db_reviews (rw_db v)))"
    "nums i (diff_keys (rw_db v)) = map df_position (filter (\<lambda>d. df_review_id d = i) (db_diffs (rw_db v)))"
    "nums i (revision_keys (rw_db v)) = map rv_number (filter (\<lambda>r. rv_diff_id r = i) (db_revisions (rw_db v)))"
    by (simp_all add: nums_def review_key_defs filter_map comp_def)
  show ?thesis
    using wf unfolding nums [symmetric] review_wf_def
    by (auto simp: image_subset_iff image_iff intro: numbered_nums) metis
qed

section \<open>Reviews that nobody can read\<close>

definition has_primary_address :: "core_db \<Rightarrow> uuid \<Rightarrow> bool" where
  "has_primary_address core i \<longleftrightarrow>
     list_ex (\<lambda>u. us_id u = i) (db_users core) \<and> list_ex (\<lambda>e. em_user_id e = i \<and> em_is_primary e) (db_emails core)"

lemma unreadable:
  assumes "\<exists>r \<in> set (reviews_in (rw_core w) (rw_db w) owner repo). re_number r = number"
    and "\<forall>r \<in> set (db_reviews (rw_db w)). has_primary_address (rw_core w) (re_author_id r)"
  shows "get_review_by_id owner repo number w = (Inl (ReviewDatabaseError OtherDbError), w)"
proof -
  let ?rows = "filter (\<lambda>r. re_number r = number) (reviews_in (rw_core w) (rw_db w) owner repo)"
  obtain r rs where e: "?rows = r # rs" using assms(1) by (cases ?rows) (auto simp: filter_empty_conv)
  then have "r \<in> set ?rows" by simp
  then have "r \<in> set (db_reviews (rw_db w))" by (simp add: reviews_in_def)
  with assms(2) have "user_json (rw_core w) (re_author_id r) = Inl OtherDbError"
    by (auto simp: user_json_def has_primary_address_def)
  then show ?thesis
    by (simp add: get_review_by_id_def get_review_by_number_def fetch_optional_def e review_details_def)
qed

lemma then_do_Inl: "x = (Inl e, s) \<Longrightarrow> then_do x f = (Inl e, s)"
  by simp

text \<open>What creating diffs and refs keeps.\<close>

definition reviews_kept :: "review_world \<Rightarrow> review_world \<Rightarrow> bool" where
  "reviews_kept w w' \<longleftrightarrow> rw_core w' = rw_core w \<and> db_reviews (rw_db w') = db_reviews (rw_db w)"

lemma reviews_kept_refl: "reviews_kept w w"
  by (simp add: reviews_kept_def)

lemma reviews_kept_refs:
  "reviews_kept v w \<Longrightarrow> reviews_kept v (snd (create_ref env key n sha w))"
  "reviews_kept v w \<Longrightarrow> reviews_kept v (snd (resolve_ref_sha env key n w))"
  "reviews_kept v w \<Longrightarrow> reviews_kept v (snd (on_db (create_diff i now j position message) w))"
  "reviews_kept v w \<Longrightarrow> reviews_kept v (snd (on_db (create_revision i now j number c p) w))"
  by (auto simp: reviews_kept_def create_ref_def resolve_ref_sha_def on_db_def create_diff_def create_revision_def
      Let_def split: option.splits sum.splits)

lemma reviews_kept_create_diffs:
  "reviews_kept v w \<Longrightarrow> reviews_kept v (snd (create_diffs env key ref_id i position previous_sha commits w))"
proof (induction commits arbitrary: w position previous_sha)
  case (Cons commit commits)
  then show ?case unfolding create_diffs.simps new_diff_def first_refs_def
    by (intro then_do_inv [where P = "reviews_kept v"] reviews_kept_refs)
qed simp

lemma reviews_kept_pushed: "reviews_kept w (snd (pushed_commits env key b sha w))"
  unfolding pushed_commits_def
  by (rule then_do_inv [where P = "reviews_kept w"])
    (auto intro: reviews_kept_refs reviews_kept_refl split: sum.splits list.splits)

lemma create_review_outcome:
  assumes "create_review env q w = (Inr resp, w')"
  obtains repository r where
    "repo_get (pq_owner q) (pq_repo q) None (rw_core w) = Inr (Some repository)"
    "rw_core w' = rw_core w" "db_reviews (rw_db w') = db_reviews (rw_db w) @ [r]"
    "re_repository_id r = rp_id repository" "re_author_id r = pq_pusher_id q" "re_number r = rs_number resp"
    "list_ex (\<lambda>u. us_id u = pq_pusher_id q) (db_users (rw_core w))"
proof -
  from assms obtain target_sha commits w1 repository review w3 w4 u where
    p: "pushed_commits env (pq_owner q, pq_repo q) (pq_target_branch q) (pq_new_sha q) w = (Inr (target_sha, commits), w1)"
    and get: "repo_get (pq_owner q) (pq_repo q) None (rw_core w1) = Inr (Some repository)"
    and c: "on_db (repo_create_review (rn_id env 0) (rn_now env) (rw_core w1) (rp_id repository)
             (pq_pusher_id q) (pq_target_branch q)) w1 = (Inr review, w3)"
    and d: "create_diffs env (pq_owner q, pq_repo q) (short_id env (re_id review)) (re_id review) 1 target_sha commits w3
        = (Inr u, w4)"
    and h: "then_do (create_ref env (pq_owner q, pq_repo q) (get_head_ref (short_id env (re_id review))) (pq_new_sha q) w4)
        (\<lambda>_. give (Inr (review_response_from review))) = (Inr resp, w')"
    by (auto simp: create_review_def Let_def then_do_Inr)
  have kept1: "reviews_kept w w1" using reviews_kept_pushed p by (metis snd_conv)
  have kept3: "reviews_kept w3 w4" using reviews_kept_create_diffs [OF reviews_kept_refl] d by (metis snd_conv)
  have "reviews_kept w3 (snd (then_do (create_ref env (pq_owner q, pq_repo q)
      (get_head_ref (short_id env (re_id review))) (pq_new_sha q) w4) (\<lambda>_. give (Inr (review_response_from review)))))"
    by (rule then_do_inv [where P = "reviews_kept w3"]) (simp_all add: reviews_kept_refs kept3)
  then have kept: "reviews_kept w3 w'" by (simp add: h)
  have resp: "resp = review_response_from review" using h by (auto simp: then_do_Inr give_def)
  let ?r = "review_row.truncate review"
  have r: "db_reviews (rw_db w3) = db_reviews (rw_db w1) @ [?r]" "re_repository_id ?r = rp_id repository"
    "re_author_id ?r = pq_pusher_id q" "re_number ?r = re_number review"
    "list_ex (\<lambda>u. us_id u = pq_pusher_id q) (db_users (rw_core w1))" "rw_core w3 = rw_core w1"
    using c by (auto simp: on_db_def repo_create_review_def Let_def bare_review_def review_row.defs review.defs
        split: prod.splits sum.splits if_splits)
  show thesis
    by (rule that [of repository ?r])
      (use kept1 kept get r resp in \<open>simp_all add: reviews_kept_def review_response_from_def\<close>)
qed

lemma repo_get_row:
  assumes "repo_get owner repo viewer core = Inr (Some v)"
  shows "\<exists>p \<in> set (db_repos core). rp_id p = rp_id v \<and> rp_name p = repo \<and> rp_owner_id p \<in> set (owner_ids core owner)"
proof -
  let ?rows = "filter (\<lambda>r. rp_name r = repo \<and> rp_owner_id r \<in> set (owner_ids core owner)) (db_repos core)"
  from assms obtain p ps where "?rows = p # ps" "repo_view core viewer p = Inr v"
    by (auto simp: repo_get_def fetch_optional_def split: list.splits sum.splits)
  then have "p \<in> set ?rows" and "repo_row.truncate v = p" by (metis list.set_intros(1), metis repo_view_row(1))
  moreover from this(2) have "rp_id p = rp_id v \<and> rp_name p = rp_name v \<and> rp_owner_id p = rp_owner_id v"
    by (auto simp: repo_row.truncate_def)
  ultimately show ?thesis by auto
qed

text \<open>
  C28: when the users have primary addresses, as every user who signs up by mail or through
  GitHub has, a push to \<open>refs/for/<branch>\<close> creates a review that no operation can read
  afterwards: every operation that starts from the review fails with a database error and
  changes nothing.
\<close>

theorem created_review_is_unreadable:
  assumes "create_review env q w = (Inr resp, w')"
    and "\<forall>u \<in> set (db_users (rw_core w)). has_primary_address (rw_core w) (us_id u)"
    and "\<forall>r \<in> set (db_reviews (rw_db w)). re_author_id r \<in> us_id ` set (db_users (rw_core w))"
  defines "n \<equiv> rs_number resp"
  shows "get_review (pq_owner q) (pq_repo q) n w' = (Inl (ReviewDatabaseError OtherDbError), w')
    \<and> publish_review env2 (pq_owner q) (pq_repo q) n w' = (Inl (ReviewDatabaseError OtherDbError), w')
    \<and> publish_review_diff env2 (pq_owner q) (pq_repo q) n position w' = (Inl (ReviewDatabaseError OtherDbError), w')
    \<and> update_review env2 (pq_owner q) (pq_repo q) n title description w' = (Inl (ReviewDatabaseError OtherDbError), w')
    \<and> update_review_diff env2 (pq_owner q) (pq_repo q) n position message w' = (Inl (ReviewDatabaseError OtherDbError), w')
    \<and> merge_review_diff env2 (pq_owner q) (pq_repo q) n position w' = (Inl (ReviewDatabaseError OtherDbError), w')
    \<and> review_review_diff env2 (pq_owner q) (pq_repo q) n position reviewer action comments w'
        = (Inl (ReviewDatabaseError OtherDbError), w')
    \<and> get_review_diff_blobs env2 (pq_owner q) (pq_repo q) n position revision compare_to w'
        = (Inl (ReviewDatabaseError OtherDbError), w')"
proof -
  from create_review_outcome [OF assms(1)] obtain repository r where
    get: "repo_get (pq_owner q) (pq_repo q) None (rw_core w) = Inr (Some repository)"
    and core: "rw_core w' = rw_core w" and rows: "db_reviews (rw_db w') = db_reviews (rw_db w) @ [r]"
    and r: "re_repository_id r = rp_id repository" "re_author_id r = pq_pusher_id q" "re_number r = n"
    and author: "list_ex (\<lambda>u. us_id u = pq_pusher_id q) (db_users (rw_core w))"
    unfolding n_def by blast
  from repo_get_row [OF get] r core rows
  have "r \<in> set (reviews_in (rw_core w') (rw_db w') (pq_owner q) (pq_repo q))"
    by (auto simp: reviews_in_def list_ex_iff)
  with r have "\<exists>r \<in> set (reviews_in (rw_core w') (rw_db w') (pq_owner q) (pq_repo q)). re_number r = n" by blast
  moreover have "\<forall>r \<in> set (db_reviews (rw_db w')). has_primary_address (rw_core w') (re_author_id r)"
    using assms(2,3) author r rows core by (auto simp: list_ex_iff)
  ultimately have get: "get_review_by_id (pq_owner q) (pq_repo q) n w' = (Inl (ReviewDatabaseError OtherDbError), w')"
    by (rule unreadable)
  show ?thesis
    by (intro conjI)
      (simp_all add: get_review_def publish_review_def publish_review_diff_def update_review_def update_review_diff_def
        merge_review_diff_def review_review_diff_def get_review_diff_blobs_def Let_def get)
qed

section \<open>Witnesses\<close>

definition demo_review_core :: core_db where
  "demo_review_core = empty_core\<lparr>db_users := [demo_user 9 ''al''], db_repos := [demo_row 7 0 Public ''r'']\<rparr>"

definition demo_mailed_core :: core_db where
  "demo_mailed_core = demo_review_core\<lparr>db_emails :=
     [\<lparr>em_id = 8, em_user_id = 9, em_email = ''a'', em_is_primary = True, em_is_verified = True,
       em_created_at = 0, em_verified_at = None\<rparr>]\<rparr>"

definition demo_review_env :: review_env where
  "demo_review_env =
     \<lparr>rn_show_uuid = show_nat, rn_message = id, rn_find_commit = (\<lambda>_ _. Inr ()),
      rn_rev_list = (\<lambda>_ _ _. Inr [(''b'', ''m''), (''a'', ''m'')]), rn_patch_id = (\<lambda>_. Inr),
      rn_cherry_pick = (\<lambda>_ c p. Inr (c @ p)), rn_diff_paths = (\<lambda>_ _ _. Inr []), rn_blobs = (\<lambda>_ _ _. Inr []),
      rn_now = 5, rn_id = (\<lambda>k. 20 + k)\<rparr>"

definition demo_review_world :: "core_db \<Rightarrow> review_world" where
  "demo_review_world core = \<lparr>rw_core = core, rw_db = no_reviews,
     rw_refs = (\<lambda>k n. if k = (''al'', ''r'') \<and> n = ''refs/heads/m'' then Some ''t'' else None)\<rparr>"

definition demo_push :: process_review_request where
  "demo_push = \<lparr>pq_owner = ''al'', pq_repo = ''r'', pq_target_branch = ''m'', pq_review_number = None,
     pq_new_sha = ''b'', pq_pusher_id = 9\<rparr>"

lemma demo_created:
  "map df_position (db_diffs (rw_db (snd (create_review demo_review_env demo_push (demo_review_world demo_review_core))))) = [1, 2]"
  by code_simp

lemma demo_created_mailed:
  "map_sum id rs_number (fst (create_review demo_review_env demo_push (demo_review_world demo_mailed_core))) = Inr 1"
  by code_simp

theorem review_numbers_have_no_gap_witness:
  "let w = snd (create_review demo_review_env demo_push (demo_review_world demo_review_core))
   in map df_position (db_diffs (rw_db w)) = [1, 2]
      \<and> consecutive (map df_position (filter (\<lambda>d. df_review_id d = 20) (db_diffs (rw_db w))))"
proof -
  let ?start = "demo_review_world demo_review_core"
  let ?w = "snd (create_review demo_review_env demo_push ?start)"
  have "review_run ?start ([] @ [?w]) ?w" by (rule review_run.step [OF review_run.stop review_step.created])
  moreover have "rw_db ?start = no_reviews" by (simp add: demo_review_world_def)
  ultimately show ?thesis
    using review_numbers_have_no_gap [of ?start "[] @ [?w]" ?w ?w 20] demo_created by (simp add: Let_def)
qed

theorem created_review_is_unreadable_witness:
  "\<exists>resp w'. create_review demo_review_env demo_push (demo_review_world demo_mailed_core) = (Inr resp, w')
     \<and> rs_number resp = 1 \<and> get_review ''al'' ''r'' 1 w' = (Inl (ReviewDatabaseError OtherDbError), w')"
proof -
  let ?w = "demo_review_world demo_mailed_core"
  obtain resp w' where run: "create_review demo_review_env demo_push ?w = (Inr resp, w')" and n: "rs_number resp = 1"
    using demo_created_mailed
    by (cases "create_review demo_review_env demo_push ?w"; cases "fst (create_review demo_review_env demo_push ?w)") auto
  have "\<forall>u \<in> set (db_users (rw_core ?w)). has_primary_address (rw_core ?w) (us_id u)"
    "\<forall>r \<in> set (db_reviews (rw_db ?w)). re_author_id r \<in> us_id ` set (db_users (rw_core ?w))"
    by (simp_all add: demo_review_world_def demo_mailed_core_def demo_review_core_def has_primary_address_def
        empty_core_def demo_user_def no_reviews_def)
  from created_review_is_unreadable [OF run this] n run show ?thesis
    by (auto simp: demo_push_def)
qed

text \<open>A review of two diffs in a world without addresses, published and merged up to its first diff.\<close>

definition demo_published :: review_world where
  "demo_published =
     snd (publish_review demo_review_env ''al'' ''r'' 1
       (snd (publish_review_diff demo_review_env ''al'' ''r'' 1 2
         (snd (publish_review_diff demo_review_env ''al'' ''r'' 1 1
           (snd (create_review demo_review_env demo_push (demo_review_world demo_review_core))))))))"

lemma demo_merges:
  "map_sum id rs_status (fst (merge_review_diff demo_review_env ''al'' ''r'' 1 1 demo_published)) = Inr ''open''
   \<and> map df_status (db_diffs (rw_db (snd (merge_review_diff demo_review_env ''al'' ''r'' 1 1 demo_published)))) = [DiffMerged, DiffOpen]
   \<and> rw_refs (snd (merge_review_diff demo_review_env ''al'' ''r'' 1 1 demo_published)) (''al'', ''r'') ''refs/heads/m'' = Some ''a''"
  by code_simp

theorem merge_lands_or_leaves_witness:
  "\<exists>resp w' (review :: review) merge_sha. merge_review_diff demo_review_env ''al'' ''r'' 1 1 demo_published = (Inr resp, w')
     \<and> landed 5 (''al'', ''r'') (re_target_branch review) merge_sha (re_id review) 1 demo_published w'
     \<and> rw_refs w' (''al'', ''r'') ''refs/heads/m'' = Some ''a''
     \<and> map df_status (db_diffs (rw_db w')) = [DiffMerged, DiffOpen]"
proof -
  let ?run = "merge_review_diff demo_review_env ''al'' ''r'' 1 1 demo_published"
  obtain resp w' where run: "?run = (Inr resp, w')"
    using demo_merges by (cases ?run; cases "fst ?run") auto
  have "wf_world (demo_review_world demo_review_core)"
    by (simp add: wf_world_def demo_review_world_def wf_no_reviews)
  then have "wf_world demo_published"
    unfolding demo_published_def by (intro wf_publish wf_create_review_call)
  then have "review_wf (rw_db demo_published)" by (simp add: wf_world_def)
  from merge_lands_or_leaves [OF this run]
  have "\<exists>(review :: review) merge_sha. landed (rn_now demo_review_env) (''al'', ''r'') (re_target_branch review) merge_sha
      (re_id review) 1 demo_published w'" by auto
  moreover have "rn_now demo_review_env = 5" by (simp add: demo_review_env_def)
  ultimately show ?thesis using demo_merges run by auto
qed

end
