(* ===== verification/Spec2Isabelle.thy ===== *)
theory Spec2Isabelle
  imports HandlerProps GitProps CommitProps CiProps OrgStore UserStore CiValidate DeviceProps MailProps NameProps QuestionProps ReviewProps
begin

text \<open>
  \<^bold>\<open>A verification development of gitdot.\<close>

  gitdot is a code forge in Rust. Its rules live in the crates \<open>gitdot-core\<close> (domain model, SQL
  repositories, services, clients) and \<open>gitdot-config\<close> (CI configuration); \<open>gitdot-server\<close> puts
  HTTP handlers before the services, and the other crates are workers, the command-line client, a
  fork of the S2 stream store and a web front end. The development models the rules: what a service
  answers and what it leaves in the tables, the Redis cache, the refs of the git repositories and
  the directories of the disk, for every answer of the libraries.

  \<^bold>\<open>Conventions.\<close> A table is a list of records in insertion order; a SQL statement is a function
  from tables to a result and tables, a \<open>UNIQUE\<close> index a predicate that a write must satisfy
  (\<open>checked\<close>), a foreign key a test on insertion. A service operation is a function on a world
  record; \<open>?\<close> is \<open>and_then\<close> and \<open>then_do\<close>, an error a value of the error type of the service.
  Times are microseconds (\<open>int\<close>), identifiers natural numbers; generated identifiers, random
  draws, \<open>NOW()\<close>, and what third-party libraries compute (git objects, JWT signatures, TOML,
  lower-casing beyond ASCII, GitHub, mail) are arguments. Strings are lists of bytes in UTF-8.
  A handler is one step unless the code yields between statements in a way the claims depend on;
  then it is split (\<open>SessionRace\<close> for refreshes, \<open>DeviceProps\<close> for polls, \<open>CiProps\<close> for the
  insertion of tasks) and the properties speak of interleavings.

  \<^bold>\<open>Theories.\<close>
  \<^item> \<open>Base\<close>: errors and results (\<open>error/common\<close>), table operations, decimal text.
  \<^item> \<open>CiConfig\<close>, \<open>CiDag\<close>, \<open>CiValidate\<close>: \<open>gitdot-config/src\<close>, the structures, the depth-first cycle
    check and the validation; the check is equivalent to acyclicity and always terminates (the
    fuel is the number of tasks, which bounds the depth of the search).
  \<^item> \<open>Paging\<close>: cursors and keyset pagination (\<open>util/cursor.rs\<close>), as a locale that the listings
    of repositories instantiate.
  \<^item> \<open>CoreRows\<close>, \<open>RepoStore\<close>, \<open>UserStore\<close>, \<open>OrgStore\<close>: \<open>model/core\<close> and \<open>repository/core\<close>
    for users, addresses, organizations, members, repositories, stars and filters.
  \<^item> \<open>CiStore\<close>, \<open>CiService\<close>, \<open>CiSafety\<close>, \<open>CiProps\<close>: \<open>repository/ci\<close>, \<open>service/ci\<close>. The state
    machine of builds and runners; dependencies are honoured, no running build is stuck, the
    claim of a task is exclusive, the status of a build agrees with its tasks. The schema of the CI
    tables is part of their state: the one that the migrations create refuses every build
    (\<open>squashed_schema_refuses_builds\<close>), the one that the code is written for, with the labels and
    columns of the archived migrations, accepts its statements; the invariants hold on both.
  \<^item> \<open>OneTimeCode\<close>, \<open>AuthStore\<close>, \<open>AuthCodes\<close>: \<open>repository/authentication\<close>; a locale of one-time
    codes, interpreted on sign-in codes and on address codes, states their life cycle once.
  \<^item> \<open>TokenClient\<close>, \<open>TokenProps\<close>, \<open>Cache\<close>: \<open>client/token.rs\<close> and \<open>client/redis.rs\<close>; token formats, OAuth states,
    the checksum, the window counter of the rate limiter.
  \<^item> \<open>SessionService\<close>, \<open>SessionRace\<close>, \<open>SessionProps\<close>: \<open>service/authentication/session.rs\<close>; refresh
    token rotation with any number of racing refreshes, families and their revocation.
  \<^item> \<open>AccountService\<close>, \<open>AccountProps\<close>, \<open>DeviceProps\<close>, \<open>MailProps\<close>: the account, device and
    token services, deletion, addresses, the device flow.
  \<^item> \<open>Names\<close>, \<open>NameProps\<close>: the validated name types (\<open>dto/common\<close>) and the basin names of
    \<open>client/s2.rs\<close> against the rules of \<open>s2-common\<close>.
  \<^item> \<open>ReviewStore\<close>, \<open>ReviewDto\<close>, \<open>ReviewService\<close>: \<open>repository/core/review.rs\<close>, the transfer objects
    and \<open>service/core/review.rs\<close>. \<open>ReviewInv\<close> and \<open>ReviewSteps\<close> prove the numbering invariant one
    operation at a time, \<open>ReviewMerge\<close> the effect of a merge, \<open>ReviewProps\<close> holds the properties.
  \<^item> \<open>QuestionStore\<close>, \<open>QuestionService\<close>, \<open>QuestionProps\<close>: questions, answers, comments and votes. The
    scores are the sums of the votes in every state that serial operations reach; the transaction of
    a vote is in two parts, since two of them that overlap break this.
  \<^item> \<open>Authz\<close>: \<open>service/authorization.rs\<close>, who may do what; the permissions of a repository are a
    linear order that the checks respect.
  \<^item> \<open>CommitStore\<close>, \<open>CommitService\<close>, \<open>CommitProps\<close>: \<open>repository/core/commit.rs\<close>, the recording of a
    push and the listings of commits; the trigger that links commits to a verified address is in
    \<open>CoreRows\<close> (\<open>put_emails\<close>). What a viewer is shown does not depend on hidden commits.
  \<^item> \<open>Forge\<close>: the world of the services of users, organizations and repositories: the tables and
    the directories of bare repositories (\<open>client/git.rs\<close>), with a record \<open>forge_io\<close> that says which
    operations on the disk, hooks and commits succeed. The locale \<open>repo_dirs\<close> states what the
    services rely on in the directories; it is interpreted on the model of the git client.
  \<^item> \<open>UserService\<close>, \<open>OrgService\<close>, \<open>RepoService\<close>, \<open>RepoBrowse\<close>: \<open>service/core/user.rs\<close>,
    \<open>organization.rs\<close> and \<open>repository.rs\<close>, with their requests, responses and errors.
  \<^item> \<open>ForgeProps\<close>, \<open>ForgeSafety\<close>: every row has its directory (\<open>forge_ok\<close>), kept by every operation
    (\<open>forge_step\<close>) whatever fails on the disk, in a hook or by the rules of the tables, but for the
    undo of a rename; a failed creation is undone, and where it is not.
  \<^item> \<open>AppErrors\<close>, \<open>RepoHandlers\<close>, \<open>OwnerHandlers\<close>, \<open>HandlerProps\<close>: \<open>gitdot-server/src/app/error.rs\<close>
    and the handlers of repositories, organizations and users. \<open>serve\<close> is the router below
    \<open>/repository/{owner}/{repo}\<close>; a request is refused or the caller has the permission it needs,
    and the checks of the handlers establish what the services assume of their requests.
  \<^item> \<open>LimitedBody\<close>, \<open>GitHttp\<close>, \<open>GitHandlers\<close>, \<open>GitProps\<close>: \<open>util/limited_reader.rs\<close>,
    \<open>client/git_http.rs\<close>, \<open>service/core/git_http.rs\<close> and \<open>handler/git_http\<close>. The process behind the
    protocol of git is reached only by who may read or write, a streamed answer is the buffered
    one, and of a compressed body nothing is read beyond its limit. How \<open>tokio::io::copy\<close> reads, and
    how much it has written when a read fails, are arguments (\<open>ge_room\<close>, \<open>ge_kept\<close>).

  \<^bold>\<open>Lemma groups.\<close> Each store has one lemma per statement and field it keeps (\<open>table_simps\<close>), each
  service one preservation lemma per operation (\<open>wf_*\<close>, \<open>*_inv\<close>), each state machine an
  invariant by induction on its steps. Each property stands after a text that names it.

  \<^bold>\<open>Not modelled.\<close> The handlers of reviews, questions, CI, webhooks and migrations, the internal
  hooks, the extraction of tokens from a request, and the declarations of API types
  (\<open>gitdot-server\<close>, \<open>gitdot-api\<close>, \<open>gitdot-axum\<close>, \<open>gitdot-auth\<close>); workers and metrics, the
  command-line client, the S2 fork beyond its name rules, and the front end: glue or third-party
  code. Of \<open>gitdot-core\<close>, the GitHub migration and the delivery of webhooks, which drive remote
  services. A database that cannot be reached. Transactions are taken to be serial: anomalies between concurrent statements are
  modelled only where a theory says so; that a rename meets another between its check and its
  write is not (the undo of a rename is reached when the new profile does not fit its columns). That
  generated user names are no organization's name is an assumption of \<open>forge_step\<close>, since sign-up
  does not check it.
\<close>

end
